(* ===== verification/Lana_Prelude.thy ===== *)
theory Lana_Prelude
  imports Main "HOL-Library.Word" "HOL-Library.Monad_Syntax"
begin

text \<open>
  Shared vocabulary of the development: machine types, C strings, error numbers, and the
  generic facts on lists, bits and maps that the component theories use.

  C strings are the bytes before the terminating NUL (\<open>cstr\<close>); reading a string at the
  index of its terminator gives 0 (\<open>char_at\<close>).  Functions that return an \<open>int\<close> in the
  source return an \<open>int\<close> here, with the kernel's numbers for the error codes.  A step that
  would dereference freed memory, run into \<open>BUG()\<close> or \<open>panic()\<close> has no result: it is
  \<open>None\<close> in the option type.
\<close>

unbundle bit_operations_syntax

section \<open>Machine types\<close>

type_synonym u8 = "8 word"
type_synonym u16 = "16 word"
type_synonym u32 = "32 word"
type_synonym u64 = "64 word"

type_synonym idp_t = "32 word"

type_synonym ptr = nat

type_synonym cstr = "u8 list"

definition IDP_UNKNOWN :: idp_t where
  "IDP_UNKNOWN = 0"

section \<open>Error numbers\<close>

abbreviation EPERM :: int where "EPERM \<equiv> 1"
abbreviation ENOENT :: int where "ENOENT \<equiv> 2"
abbreviation EIO :: int where "EIO \<equiv> 5"
abbreviation ENOMEM :: int where "ENOMEM \<equiv> 12"
abbreviation EFAULT :: int where "EFAULT \<equiv> 14"
abbreviation EBUSY :: int where "EBUSY \<equiv> 16"
abbreviation EEXIST :: int where "EEXIST \<equiv> 17"
abbreviation ENODEV :: int where "ENODEV \<equiv> 19"
abbreviation EINVAL :: int where "EINVAL \<equiv> 22"

section \<open>C strings\<close>

text \<open>The byte at an index of a string: its NUL from the end on.\<close>

definition char_at :: "cstr \<Rightarrow> nat \<Rightarrow> u8" where
  "char_at s i = (if i < length s then s ! i else 0)"

text \<open>A list of bytes that is a C string: no NUL before its end.\<close>

definition is_cstr :: "cstr \<Rightarrow> bool" where
  "is_cstr s \<longleftrightarrow> 0 \<notin> set s"

text \<open>The string a literal of the source denotes.\<close>

definition lit :: "string \<Rightarrow> cstr" where
  "lit s = map of_char s"

lemma char_at_Nil [simp]: "char_at [] i = 0"
  by (simp add: char_at_def)

lemma char_at_nz: "is_cstr s \<Longrightarrow> char_at s i = 0 \<longleftrightarrow> length s \<le> i"
  by (auto simp: char_at_def is_cstr_def in_set_conv_nth)

text \<open>Two C strings that agree at every index are equal: the terminator tells their length.\<close>

lemma cstr_eqI:
  assumes "is_cstr s" "is_cstr t" and eq: "\<And>i. char_at s i = char_at t i"
  shows "s = t"
proof (rule nth_equalityI)
  have "\<And>i. length s \<le> i \<longleftrightarrow> length t \<le> i"
    using char_at_nz[OF assms(1)] char_at_nz[OF assms(2)] eq by metis
  then show len: "length s = length t" by (meson nle_le order_refl)
  fix i assume "i < length s"
  with eq[of i] len show "s ! i = t ! i" by (simp add: char_at_def)
qed

lemma is_cstr_take [simp]: "is_cstr s \<Longrightarrow> is_cstr (take n s)"
  by (auto simp: is_cstr_def dest: in_set_takeD)

section \<open>Options\<close>

lemma option_eqI: "(\<And>p. a = Some p \<longleftrightarrow> b = Some p) \<Longrightarrow> a = b"
  by (cases a) (auto, metis not_None_eq)

section \<open>Bits\<close>

lemma bit_pos_div_mod:
  fixes b k :: nat
  assumes "k < 8"
  shows "(8 * b + (7 - k)) div 8 = b" "(8 * b + (7 - k)) mod 8 = 7 - k"
proof -
  have "(8 * b + r) div 8 = b \<and> (8 * b + r) mod 8 = r" if "r < 8" for r :: nat
    using that by simp
  from this[of "7 - k"] show "(8 * b + (7 - k)) div 8 = b" "(8 * b + (7 - k)) mod 8 = 7 - k"
    by simp_all
qed

text \<open>
  Subtracting one flips the bits up to the lowest one that is set, so \<open>x AND (x - 1)\<close>
  clears exactly that bit.
\<close>

lemma bit_and_pred_nat:
  fixes n :: nat
  shows "0 < n \<Longrightarrow> bit (n AND (n - 1)) j \<longleftrightarrow> bit n j \<and> (\<exists>i<j. bit n i)"
proof (induction n arbitrary: j rule: less_induct)
  case (less n)
  show ?case
  proof (cases "even n")
    case True
    then obtain m where n: "n = 2 * m" by (elim evenE)
    with less.prems have m: "0 < m" "m < n" by auto
    have "n AND (n - 1) = 2 * (m AND (m - 1))"
    proof -
      have "(2 * m - Suc 0) div 2 = m - Suc 0" using m by arith
      then show ?thesis unfolding n by (subst and_nat_rec) simp
    qed
    then show ?thesis using less.IH[OF m(2,1)] n
      by (cases j) (auto simp: bit_Suc bit_0 less_Suc_eq_0_disj)
  next
    case False
    then obtain m where n: "n = 2 * m + 1" by (elim oddE)
    have "n AND (n - 1) = 2 * m" unfolding n
      by (subst and_nat_rec) auto
    then show ?thesis using n by (cases j) (auto simp: bit_Suc bit_0)
  qed
qed

lemma unat_ucast_u8_u32 [simp]: "unat (ucast (v :: u8) :: u32) = unat v"
proof -
  have "unat v < 256" using unsigned_less[of v] by simp
  then show ?thesis by (simp add: unsigned_ucast_eq take_bit_eq_mod)
qed

lemma word_nonzero_bit:
  fixes x :: "'a::len word"
  shows "x \<noteq> 0 \<Longrightarrow> \<exists>k. bit x k"
  by (rule ccontr) (auto intro: bit_word_eqI)

lemma word_xor_eq_0:
  fixes x y :: "'a::len word"
  shows "x XOR y = 0 \<longleftrightarrow> x = y"
proof
  assume eq: "x XOR y = 0"
  show "x = y"
  proof (rule bit_word_eqI)
    fix n
    have "\<not> bit (x XOR y) n" by (simp add: eq)
    then show "bit x n = bit y n" by (simp add: bit_xor_iff)
  qed
qed simp

lemma bit_and_pred_word:
  fixes x :: "'a::len word"
  assumes "x \<noteq> 0"
  shows "bit (x AND (x - 1)) j \<longleftrightarrow> bit x j \<and> (\<exists>i<j. bit x i)"
proof -
  have "unat (x AND (x - 1)) = unat x AND (unat x - 1)"
    using assms by (simp add: unsigned_and_eq unat_minus_one)
  moreover have b: "bit (unat y) i = bit y i" for y :: "'a word" and i
    by (simp add: bit_unsigned_iff)
  ultimately show ?thesis
    using bit_and_pred_nat[of "unat x" j] assms unfolding b[symmetric]
    by (simp add: unat_gt_0)
qed

end
