(* ===== verification/Xt_Critbit.thy ===== *)
theory Xt_Critbit
  imports Lana_Prelude
begin

text \<open>Crit-bit trees: the string index of \<open>src/src/xt_critbit.c\<close>, used for the name space of
  functional blocks and for the table of block types.

  The tree does not own its strings. An element is a pointer to a structure whose first field is
  the zero-terminated name (\<open>struct_of\<close>), so every operation takes a function
  \<open>nm\<close> that reads the string behind a pointer. Internal nodes carry the byte index and
  the mask \<open>otherbits\<close> whose only zero bit is the critical one. The tagging of child
  pointers by their lowest bit is the constructor of \<open>critbit_node\<close>; that an element
  pointer must be cache-line aligned for the tag to work (\<open>BUG_ON\<close>) is the
  \<^const>\<open>None\<close> result of \<open>critbit_insert\<close>. The \<open>__critbit_*\<close> variants
  differ from the exported ones only in the read-side locking and share one definition.\<close>

section \<open>The tree\<close>

text \<open>A tagged child pointer: an element, or a node with its critical byte, its mask and two children.\<close>

datatype critbit_node =
    Leaf ptr
  | Node nat u8 critbit_node critbit_node

type_synonym critbit_tree = "critbit_node option"

text \<open>Elements are \<open>____cacheline_aligned\<close>; the line size is that of x86.\<close>

definition SMP_CACHE_BYTES :: nat where
  "SMP_CACHE_BYTES = 64"

text \<open>\<open>(1 + (otherbits | c)) >> 8\<close>, computed on C's promoted 32-bit integers: 1 exactly
  when the critical bit of \<open>c\<close> is set.\<close>

definition direction :: "u32 \<Rightarrow> u8 \<Rightarrow> nat" where
  "direction otherbits c = unat (drop_bit 8 (1 + (otherbits OR ucast c)))"

text \<open>The descent shared by all operations, down to the only element that can be equal to the key.\<close>

fun critbit_walk :: "cstr \<Rightarrow> critbit_node \<Rightarrow> ptr" where
  "critbit_walk ubytes (Leaf p) = p"
| "critbit_walk ubytes (Node byte otherbits child0 child1) =
     (if direction (ucast otherbits) (char_at ubytes byte) = 0
      then critbit_walk ubytes child0 else critbit_walk ubytes child1)"

text \<open>\<open>strcmp\<close> against the candidate of the descent.\<close>

definition critbit_contains :: "(ptr \<Rightarrow> cstr) \<Rightarrow> critbit_tree \<Rightarrow> cstr \<Rightarrow> bool" where
  "critbit_contains nm tree elem =
     (case tree of None \<Rightarrow> False | Some p \<Rightarrow> elem = nm (critbit_walk elem p))"

definition critbit_get :: "(ptr \<Rightarrow> cstr) \<Rightarrow> critbit_tree \<Rightarrow> cstr \<Rightarrow> ptr option" where
  "critbit_get nm tree elem =
     (case tree of
        None \<Rightarrow> None
      | Some n \<Rightarrow> (let p = critbit_walk elem n in if elem = nm p then Some p else None))"

text \<open>The loop that looks for the first byte in which the new string differs from the candidate,
  including the test of the byte behind the end of the new string.\<close>

function first_diff :: "cstr \<Rightarrow> cstr \<Rightarrow> nat \<Rightarrow> (nat \<times> u32) option" where
  "first_diff p ubytes newbyte =
     (if newbyte < length ubytes then
        if char_at p newbyte \<noteq> char_at ubytes newbyte
        then Some (newbyte, ucast (char_at p newbyte XOR char_at ubytes newbyte))
        else first_diff p ubytes (newbyte + 1)
      else if char_at p newbyte \<noteq> 0 then Some (newbyte, ucast (char_at p newbyte))
      else None)"
  by pat_completeness auto
termination
  by (relation "measure (\<lambda>(p, ubytes, newbyte). length ubytes - newbyte)") auto

declare first_diff.simps [simp del]

text \<open>\<open>while (x & (x - 1)) x &= x - 1\<close>: keeps the most significant set bit.\<close>

function isolate_msb :: "u32 \<Rightarrow> u32" where
  "isolate_msb newotherbits =
     (if newotherbits AND (newotherbits - 1) \<noteq> 0
      then isolate_msb (newotherbits AND (newotherbits - 1))
      else newotherbits)"
  by pat_completeness auto
termination
proof (relation "measure unat")
  fix x :: u32
  assume nz: "x AND (x - 1) \<noteq> 0"
  then have "x \<noteq> 0" by auto
  have "x AND (x - 1) \<le> x" by (rule word_and_le2)
  moreover have "x AND (x - 1) \<noteq> x"
  proof
    assume "x AND (x - 1) = x"
    then have "\<And>j. bit x j \<Longrightarrow> \<exists>i<j. bit x i"
      using bit_and_pred_word[OF \<open>x \<noteq> 0\<close>] by metis
    then have "\<not> bit x j" for j by (induction j rule: less_induct) blast
    then have "x = 0" by (intro bit_word_eqI) simp
    with \<open>x \<noteq> 0\<close> show False by simp
  qed
  ultimately show "(x AND (x - 1), x) \<in> measure unat"
    by (simp add: word_le_less_eq word_less_nat_alt)
qed simp

declare isolate_msb.simps [simp del]

text \<open>The second descent of an insertion: it stops at an element or at the first node whose critical
  bit comes after the new one, and puts the new node there.\<close>

fun critbit_place :: "cstr \<Rightarrow> nat \<Rightarrow> u32 \<Rightarrow> (critbit_node \<Rightarrow> critbit_node) \<Rightarrow> critbit_node \<Rightarrow> critbit_node" where
  "critbit_place ubytes newbyte newotherbits newnode (Leaf p) = newnode (Leaf p)"
| "critbit_place ubytes newbyte newotherbits newnode (Node byte otherbits child0 child1) =
     (if newbyte < byte then newnode (Node byte otherbits child0 child1)
      else if byte = newbyte \<and> newotherbits < ucast otherbits
      then newnode (Node byte otherbits child0 child1)
      else if direction (ucast otherbits) (char_at ubytes byte) = 0
      then Node byte otherbits
             (critbit_place ubytes newbyte newotherbits newnode child0) child1
      else Node byte otherbits child0
             (critbit_place ubytes newbyte newotherbits newnode child1))"

text \<open>\<open>nomem\<close> is the outcome of the allocation of the internal node.\<close>

definition critbit_insert ::
    "(ptr \<Rightarrow> cstr) \<Rightarrow> bool \<Rightarrow> critbit_tree \<Rightarrow> ptr \<Rightarrow> (int \<times> critbit_tree) option" where
  "critbit_insert nm nomem tree elem =
     (if elem mod SMP_CACHE_BYTES \<noteq> 0 then None
      else case tree of
        None \<Rightarrow> Some (0, Some (Leaf elem))
      | Some n \<Rightarrow>
          (let ubytes = nm elem; p = nm (critbit_walk ubytes n) in
           case first_diff p ubytes 0 of
             None \<Rightarrow> Some (- EEXIST, tree)
           | Some (newbyte, x) \<Rightarrow>
               (let newotherbits = isolate_msb x XOR 255;
                    newdirection = direction newotherbits (char_at p newbyte);
                    newnode = (\<lambda>sub.
                      if newdirection = 0
                      then Node newbyte (ucast newotherbits) sub (Leaf elem)
                      else Node newbyte (ucast newotherbits) (Leaf elem) sub)
                in if nomem then Some (- ENOMEM, tree)
                   else Some (0, Some (critbit_place ubytes newbyte newotherbits newnode n)))))"

text \<open>The removal of the element at the end of the descent: its sibling takes the place of the parent.\<close>

fun critbit_unlink :: "cstr \<Rightarrow> critbit_node \<Rightarrow> critbit_tree" where
  "critbit_unlink ubytes (Leaf p) = None"
| "critbit_unlink ubytes (Node byte otherbits child0 child1) =
     (if direction (ucast otherbits) (char_at ubytes byte) = 0
      then case critbit_unlink ubytes child0 of
             None \<Rightarrow> Some child1
           | Some child0' \<Rightarrow> Some (Node byte otherbits child0' child1)
      else case critbit_unlink ubytes child1 of
             None \<Rightarrow> Some child0
           | Some child1' \<Rightarrow> Some (Node byte otherbits child0 child1'))"

text \<open>Deletion; on an empty tree the code returns 0 without looking at the key.\<close>

definition critbit_delete :: "(ptr \<Rightarrow> cstr) \<Rightarrow> critbit_tree \<Rightarrow> cstr \<Rightarrow> int \<times> critbit_tree" where
  "critbit_delete nm tree elem =
     (case tree of
        None \<Rightarrow> (0, None)
      | Some n \<Rightarrow>
          if elem \<noteq> nm (critbit_walk elem n) then (- ENOENT, tree)
          else (0, critbit_unlink elem n))"


section \<open>Bit positions\<close>

text \<open>Bit \<open>i\<close> of a string, most significant bit of the first byte first.\<close>

definition sbit :: "cstr \<Rightarrow> nat \<Rightarrow> bool" where
  "sbit s i = bit (char_at s (i div 8)) (7 - i mod 8)"

definition agree :: "nat \<Rightarrow> cstr \<Rightarrow> cstr \<Rightarrow> bool" where
  "agree n s t \<longleftrightarrow> (\<forall>i<n. sbit s i = sbit t i)"

text \<open>The bit a mask \<open>otherbits\<close> leaves out, and the masks that leave out exactly one.\<close>

definition crit_index :: "u8 \<Rightarrow> nat" where
  "crit_index otherbits = length (takeWhile (bit otherbits) [0..<8])"

definition valid_mask :: "u8 \<Rightarrow> bool" where
  "valid_mask otherbits \<longleftrightarrow>
     crit_index otherbits < 8 \<and> otherbits = 255 XOR push_bit (crit_index otherbits) 1"

definition crit_pos :: "nat \<Rightarrow> u8 \<Rightarrow> nat" where
  "crit_pos byte otherbits = 8 * byte + (7 - crit_index otherbits)"

lemma agree_refl [simp]: "agree n s s"
  by (simp add: agree_def)

lemma agree_sym: "agree n s t \<Longrightarrow> agree n t s"
  by (simp add: agree_def)

lemma agree_trans: "agree n s t \<Longrightarrow> agree n t u \<Longrightarrow> agree n s u"
  by (simp add: agree_def)

lemma agree_mono: "agree n s t \<Longrightarrow> m \<le> n \<Longrightarrow> agree m s t"
  by (simp add: agree_def)

lemma agree_bit: "agree n s t \<Longrightarrow> i < n \<Longrightarrow> sbit s i = sbit t i"
  by (simp add: agree_def)

lemma mask_vals:
  assumes "k < 8"
  shows "crit_index (255 XOR push_bit k 1) = k"
    and "unat (255 XOR push_bit k 1 :: u8) = 255 - 2 ^ k"
proof -
  consider "k = 0" | "k = 1" | "k = 2" | "k = 3" | "k = 4" | "k = 5" | "k = 6" | "k = 7"
    using assms by arith
  then show "crit_index (255 XOR push_bit k 1) = k"
    and "unat (255 XOR push_bit k 1 :: u8) = 255 - 2 ^ k"
    by (cases, simp_all add: crit_index_def upt_rec)+
qed

lemma valid_mask_iff: "valid_mask ob \<longleftrightarrow> (\<exists>k<8. ob = 255 XOR push_bit k 1)"
proof
  assume "valid_mask ob"
  then show "\<exists>k<8. ob = 255 XOR push_bit k 1"
    unfolding valid_mask_def by blast
next
  assume "\<exists>k<8. ob = 255 XOR push_bit k 1"
  then obtain k where "k < 8" "ob = 255 XOR push_bit k 1" by blast
  then show "valid_mask ob"
    unfolding valid_mask_def using mask_vals(1)[of k] by simp
qed

lemma direction_val:
  assumes "valid_mask ob"
  shows "direction (ucast ob) c = (if bit c (crit_index ob) then 1 else 0)"
proof -
  let ?w = "ob OR c"
  have "ucast ob OR ucast c = (ucast ?w :: u32)"
    by (simp add: unsigned_or_eq)
  moreover have "unat (1 + (ucast ?w :: u32)) = 1 + unat ?w"
  proof -
    have "unat ?w < 256" using unsigned_less[of ?w] by simp
    then show ?thesis by (simp add: unat_word_ariths unsigned_ucast_eq take_bit_eq_mod)
  qed
  ultimately have dir: "direction (ucast ob) c = (1 + unat ?w) div 256"
    unfolding direction_def unat_drop_bit_eq by (simp add: drop_bit_eq_div)
  have k: "crit_index ob < 8" and ob: "ob = 255 XOR push_bit (crit_index ob) 1"
    using assms by (auto simp: valid_mask_def)
  have "?w = 255 \<longleftrightarrow> bit c (crit_index ob)"
  proof -
    have m: "(255 :: u8) = mask 8" by (simp add: mask_eq_exp_minus_1)
    have b: "bit ob j \<longleftrightarrow> j < 8 \<and> j \<noteq> crit_index ob" for j
      by (subst ob) (auto simp: bit_simps m)
    have "?w = 255 \<longleftrightarrow> (\<forall>j<8. bit ?w j)"
      by (auto simp: m bit_mask_iff intro!: bit_word_eqI)
    then show ?thesis
      using k unfolding bit_or_iff b by auto
  qed
  moreover have "?w = 255 \<longleftrightarrow> unat ?w = 255"
    by (simp add: word_unat_eq_iff)
  moreover have "unat ?w < 256" using unsigned_less[of ?w] by simp
  ultimately show ?thesis
    using dir by auto
qed

lemma direction_sbit:
  assumes "valid_mask ob"
  shows "direction (ucast ob) (char_at s b) = (if sbit s (crit_pos b ob) then 1 else 0)"
proof -
  have k: "crit_index ob < 8" using assms by (simp add: valid_mask_def)
  have "crit_pos b ob div 8 = b" "7 - crit_pos b ob mod 8 = crit_index ob"
    unfolding crit_pos_def bit_pos_div_mod[OF k] using k by simp_all
  then show ?thesis
    by (simp add: direction_val[OF assms] sbit_def)
qed

lemma mask_less_iff:
  assumes "valid_mask a" "valid_mask b"
  shows "a < b \<longleftrightarrow> crit_index b < crit_index a"
proof -
  have k: "crit_index a < 8" "crit_index b < 8"
    and a: "a = 255 XOR push_bit (crit_index a) 1" and b: "b = 255 XOR push_bit (crit_index b) 1"
    using assms by (auto simp: valid_mask_def)
  have "unat a = 255 - 2 ^ crit_index a" "unat b = 255 - 2 ^ crit_index b"
    using mask_vals(2)[OF k(1)] mask_vals(2)[OF k(2)] a b by metis+
  moreover have "(2::nat) ^ i \<le> 128" if "i < 8" for i :: nat
    using power_increasing[of i 7 "2::nat"] that by simp
  moreover have "255 - x < 255 - y \<longleftrightarrow> y < x" if "x \<le> 128" "y \<le> 128" for x y :: nat
    using that by arith
  ultimately have "unat a < unat b \<longleftrightarrow> (2::nat) ^ crit_index b < 2 ^ crit_index a"
    using k by presburger
  then show ?thesis
    by (simp add: word_less_nat_alt)
qed


section \<open>The first bit in which two strings differ\<close>

lemma isolate_msb_spec:
  "x \<noteq> 0 \<Longrightarrow> \<exists>k. isolate_msb x = push_bit k 1 \<and> bit x k \<and> (\<forall>j>k. \<not> bit x j)"
proof (induction x rule: isolate_msb.induct)
  case (1 x)
  let ?y = "x AND (x - 1)"
  have y: "bit ?y j \<longleftrightarrow> bit x j \<and> (\<exists>i<j. bit x i)" for j
    using "1.prems" by (rule bit_and_pred_word)
  show ?case
  proof (cases "?y = 0")
    case False
    with "1.IH" obtain k where k: "isolate_msb ?y = push_bit k 1" "bit ?y k" "\<forall>j>k. \<not> bit ?y j"
      by blast
    then have "bit x k" "\<forall>j>k. \<not> bit x j"
      using y by auto
    with k(1) False show ?thesis
      by (auto simp: isolate_msb.simps[of x])
  next
    case True
    obtain k where k: "bit x k"
      using "1.prems" word_nonzero_bit by blast
    have "\<not> (bit x j \<and> (\<exists>i<j. bit x i))" for j
      using y[of j] True by simp
    then have uniq: "bit x j \<Longrightarrow> j = k" for j
      using k by (meson linorder_neqE_nat)
    have "x = push_bit k 1"
    proof (rule bit_word_eqI)
      fix n assume n: "n < LENGTH(32)"
      have "bit (push_bit k 1 :: u32) n \<longleftrightarrow> n = k"
        using n by (auto simp: bit_exp_iff)
      then show "bit x n = bit (push_bit k 1 :: u32) n"
        using k uniq by blast
    qed
    moreover have "isolate_msb x = x"
      using True by (simp add: isolate_msb.simps[of x])
    moreover have "\<forall>j>k. \<not> bit x j" using uniq by blast
    ultimately show ?thesis using k by metis
  qed
qed

lemma first_diff_Some:
  "first_diff p u i = Some (nb, x) \<Longrightarrow> i \<le> length u \<Longrightarrow>
     i \<le> nb \<and> nb \<le> length u \<and> (\<forall>j. i \<le> j \<and> j < nb \<longrightarrow> char_at p j = char_at u j) \<and>
     x = ucast (char_at p nb XOR char_at u nb) \<and> char_at p nb \<noteq> char_at u nb"
proof (induction p u i rule: first_diff.induct)
  case (1 p u i)
  show ?case
  proof (cases "i < length u \<and> char_at p i = char_at u i")
    case True
    with "1.prems" have "first_diff p u (i + 1) = Some (nb, x)"
      by (simp add: first_diff.simps[of p u i])
    with "1.IH" True have IH: "i + 1 \<le> nb \<and> nb \<le> length u \<and>
        (\<forall>j. i + 1 \<le> j \<and> j < nb \<longrightarrow> char_at p j = char_at u j) \<and>
        x = ucast (char_at p nb XOR char_at u nb) \<and> char_at p nb \<noteq> char_at u nb"
      by simp
    then have "char_at p j = char_at u j" if "i \<le> j" "j < nb" for j
      using that True by (cases "j = i") auto
    with IH show ?thesis by auto
  next
    case False
    with "1.prems" show ?thesis
      by (auto simp: first_diff.simps[of p u i] char_at_def split: if_splits)
  qed
qed

lemma first_diff_None:
  "first_diff p u i = None \<Longrightarrow> i \<le> j \<Longrightarrow> j \<le> length u \<Longrightarrow> char_at p j = char_at u j"
proof (induction p u i rule: first_diff.induct)
  case (1 p u i)
  show ?case
  proof (cases "i = j")
    case True
    from "1.prems"(1) have "(if i < length u then char_at p i = char_at u i else char_at p i = 0)"
      by (simp add: first_diff.simps[of p u i] split: if_splits)
    with True show ?thesis by (simp add: char_at_def split: if_splits)
  next
    case False
    with "1.prems" have i: "i < length u" "i + 1 \<le> j" by auto
    from "1.prems"(1) have "char_at p i = char_at u i" "first_diff p u (i + 1) = None"
      using i by (simp_all add: first_diff.simps[of p u i] split: if_splits)
    with "1.IH" i "1.prems"(3) show ?thesis by blast
  qed
qed

lemma first_diff_eq:
  assumes "is_cstr p" "is_cstr u"
  shows "first_diff p u 0 = None \<longleftrightarrow> p = u"
proof
  assume None: "first_diff p u 0 = None"
  have "char_at p (length u) = char_at u (length u)"
    using None by (rule first_diff_None) simp_all
  then have len: "length p \<le> length u"
    using char_at_nz[OF assms(1)] by (simp add: char_at_def)
  show "p = u"
  proof (rule cstr_eqI[OF assms])
    fix i
    show "char_at p i = char_at u i"
    proof (cases "i \<le> length u")
      case True
      then show ?thesis by (intro first_diff_None[OF None]) simp_all
    next
      case False
      with len show ?thesis by (simp add: char_at_def)
    qed
  qed
next
  assume "p = u"
  then show "first_diff p u 0 = None"
    using first_diff_Some[of p u 0] by (cases "first_diff p u 0") auto
qed

text \<open>No byte behind the terminator of either string is read.\<close>

lemma first_diff_in_bounds:
  assumes "is_cstr u" "first_diff p u 0 = Some (nb, x)"
  shows "nb \<le> length p" "nb \<le> length u"
proof -
  have d: "nb \<le> length u" "\<And>j. j < nb \<Longrightarrow> char_at p j = char_at u j"
    using first_diff_Some[OF assms(2)] by auto
  then have "char_at p j \<noteq> 0" if "j < nb" for j
    using that char_at_nz[OF assms(1)] by simp
  then have "\<not> length p < nb"
    by (metis char_at_def less_irrefl)
  then show "nb \<le> length p" "nb \<le> length u" using d by simp_all
qed

lemma first_diff_crit:
  assumes fd: "first_diff p u 0 = Some (nb, x)"
  defines "nob \<equiv> isolate_msb x XOR 255"
  defines "d \<equiv> crit_pos nb (ucast nob)"
  shows "valid_mask (ucast nob)" "ucast (ucast nob :: u8) = nob"
    and "agree d p u" "sbit p d \<noteq> sbit u d"
proof -
  let ?w = "char_at p nb XOR char_at u nb"
  have eq: "\<And>j. j < nb \<Longrightarrow> char_at p j = char_at u j"
    and x: "x = ucast ?w" and ne: "char_at p nb \<noteq> char_at u nb"
    using first_diff_Some[OF fd] by auto
  have "?w \<noteq> 0" using ne by (simp add: word_xor_eq_0)
  then obtain j where "bit ?w j" using word_nonzero_bit by blast
  moreover have bx: "bit x j \<longleftrightarrow> bit ?w j" for j
    unfolding x by (auto simp: bit_unsigned_iff dest: bit_imp_le_length)
  ultimately have "x \<noteq> 0" by auto
  then obtain k where msb: "isolate_msb x = push_bit k 1" and bk: "bit x k" "\<forall>j>k. \<not> bit x j"
    using isolate_msb_spec by blast
  have k: "k < 8" using bk(1) bx bit_imp_le_length[of ?w k] by simp
  have u8: "ucast nob = (255 XOR push_bit k 1 :: u8)" and u32: "nob = ucast (255 XOR push_bit k 1 :: u8)"
  proof -
    consider "k = 0" | "k = 1" | "k = 2" | "k = 3" | "k = 4" | "k = 5" | "k = 6" | "k = 7"
      using k by arith
    then show "ucast nob = (255 XOR push_bit k 1 :: u8)" "nob = ucast (255 XOR push_bit k 1 :: u8)"
      unfolding nob_def msb by (cases, simp_all)+
  qed
  then show "valid_mask (ucast nob)" "ucast (ucast nob :: u8) = nob"
    using k by (auto simp: valid_mask_iff)
  have d: "d = 8 * nb + (7 - k)"
    using k u8 mask_vals(1) by (simp add: d_def crit_pos_def)
  have dm: "d div 8 = nb" "d mod 8 = 7 - k"
    unfolding d by (rule bit_pos_div_mod[OF k])+
  show "sbit p d \<noteq> sbit u d"
    using bk(1) bx k by (simp add: sbit_def dm bit_xor_iff)
  show "agree d p u"
    unfolding agree_def
  proof (intro allI impI)
    fix i assume "i < d"
    then have "i div 8 \<le> nb" using div_le_mono[of i d 8] dm by simp
    moreover have "i mod 8 < 7 - k" if "i div 8 = nb"
      using \<open>i < d\<close> div_mult_mod_eq[of i 8] that unfolding d by linarith
    ultimately consider "i div 8 < nb" | "i div 8 = nb" "i mod 8 < 7 - k"
      by (cases "i div 8 = nb") auto
    then show "sbit p i = sbit u i"
    proof cases
      case 1
      then show ?thesis by (simp add: sbit_def eq)
    next
      case 2
      then have "k < 7 - i mod 8" using k by arith
      then have "\<not> bit ?w (7 - i mod 8)" using bk(2) bx by blast
      then show ?thesis using 2 by (simp add: sbit_def bit_xor_iff)
    qed
  qed
qed


section \<open>The invariant\<close>

fun leaves :: "critbit_node \<Rightarrow> ptr set" where
  "leaves (Leaf p) = {p}"
| "leaves (Node byte otherbits child0 child1) = leaves child0 \<union> leaves child1"

fun node_inv :: "(ptr \<Rightarrow> cstr) \<Rightarrow> critbit_node \<Rightarrow> bool" where
  "node_inv nm (Leaf p) = True"
| "node_inv nm (Node byte otherbits child0 child1) =
     (valid_mask otherbits \<and>
      (let d = crit_pos byte otherbits in
       (\<forall>x \<in> leaves child0 \<union> leaves child1. \<forall>y \<in> leaves child0 \<union> leaves child1.
          agree d (nm x) (nm y)) \<and>
       (\<forall>x \<in> leaves child0. \<not> sbit (nm x) d) \<and> (\<forall>x \<in> leaves child1. sbit (nm x) d)) \<and>
      node_inv nm child0 \<and> node_inv nm child1)"

definition critbit_elems :: "critbit_tree \<Rightarrow> ptr set" where
  "critbit_elems tree = (case tree of None \<Rightarrow> {} | Some n \<Rightarrow> leaves n)"

definition critbit_inv :: "(ptr \<Rightarrow> cstr) \<Rightarrow> critbit_tree \<Rightarrow> bool" where
  "critbit_inv nm tree \<longleftrightarrow>
     (\<forall>p \<in> critbit_elems tree. is_cstr (nm p)) \<and>
     (case tree of None \<Rightarrow> True | Some n \<Rightarrow> node_inv nm n)"

lemma finite_leaves [simp]: "finite (leaves n)"
  by (induction n) auto

lemma leaves_nonempty [simp]: "leaves n \<noteq> {}"
  by (induction n) auto

lemma walk_in_leaves [simp]: "critbit_walk u n \<in> leaves n"
  by (induction n) auto

lemma node_inv_cong:
  "(\<And>p. p \<in> leaves n \<Longrightarrow> nm p = nm' p) \<Longrightarrow> node_inv nm n = node_inv nm' n"
  by (induction n) (auto simp: Let_def)

text \<open>The step of every walk through a well-formed node, read off the string's bits.\<close>

lemma walk_Node:
  "valid_mask ob \<Longrightarrow>
     critbit_walk u (Node b ob l r) = critbit_walk u (if sbit u (crit_pos b ob) then r else l)"
  by (simp add: direction_sbit)

lemma unlink_Node:
  "valid_mask ob \<Longrightarrow>
     critbit_unlink u (Node b ob l r) =
       (if sbit u (crit_pos b ob)
        then case critbit_unlink u r of None \<Rightarrow> Some l | Some r' \<Rightarrow> Some (Node b ob l r')
        else case critbit_unlink u l of None \<Rightarrow> Some r | Some l' \<Rightarrow> Some (Node b ob l' r))"
  by (simp add: direction_sbit)

lemma place_Node:
  assumes "valid_mask ob" "valid_mask (ucast nob)" "ucast (ucast nob :: u8) = nob"
  shows "critbit_place u nb nob mk (Node b ob l r) =
     (if crit_pos nb (ucast nob) < crit_pos b ob then mk (Node b ob l r)
      else if sbit u (crit_pos b ob) then Node b ob l (critbit_place u nb nob mk r)
      else Node b ob (critbit_place u nb nob mk l) r)"
proof -
  have k: "crit_index ob < 8" "crit_index (ucast nob :: u8) < 8"
    using assms(1,2) by (auto simp: valid_mask_def)
  have "unat nob = unat (ucast nob :: u8)"
    using assms(3) by (metis unat_ucast_u8_u32)
  then have "nob < ucast ob \<longleftrightarrow> (ucast nob :: u8) < ob"
    by (simp add: word_less_nat_alt)
  also have "\<dots> \<longleftrightarrow> crit_index ob < crit_index (ucast nob :: u8)"
    using assms by (intro mask_less_iff)
  finally have "nob < ucast ob \<longleftrightarrow> crit_index ob < crit_index (ucast nob :: u8)" .
  then have "(nb < b \<or> b = nb \<and> nob < ucast ob) \<longleftrightarrow> crit_pos nb (ucast nob) < crit_pos b ob"
    using k unfolding crit_pos_def by linarith
  then show ?thesis
    by (auto simp: direction_sbit[OF assms(1)])
qed

text \<open>Names are unique among the leaves, and the walk for a stored name ends at its leaf.\<close>

lemma node_inv_unique:
  "node_inv nm n \<Longrightarrow> x \<in> leaves n \<Longrightarrow> y \<in> leaves n \<Longrightarrow> nm x = nm y \<Longrightarrow> x = y"
  by (induction n) (auto simp: Let_def)

lemma walk_finds:
  "node_inv nm n \<Longrightarrow> x \<in> leaves n \<Longrightarrow> critbit_walk (nm x) n = x"
  by (induction n) (auto simp: Let_def walk_Node simp del: critbit_walk.simps(2))

lemma walk_eq_iff:
  "node_inv nm n \<Longrightarrow> u = nm (critbit_walk u n) \<longleftrightarrow> (\<exists>x \<in> leaves n. nm x = u)"
  using walk_finds by (metis walk_in_leaves)

section \<open>Insertion and deletion keep the invariant\<close>

lemma leaves_place:
  "(\<And>t. leaves (mk t) = insert e (leaves t)) \<Longrightarrow>
     leaves (critbit_place u nb nob mk n) = insert e (leaves n)"
  by (induction n) auto

lemma node_inv_split:
  assumes "valid_mask ob" "node_inv nm t"
    and "\<And>x. x \<in> leaves t \<Longrightarrow>
           agree (crit_pos b ob) (nm x) (nm e) \<and> sbit (nm x) (crit_pos b ob) \<noteq> sbit (nm e) (crit_pos b ob)"
  shows "node_inv nm (if sbit (nm e) (crit_pos b ob) then Node b ob t (Leaf e) else Node b ob (Leaf e) t)"
proof -
  have "agree (crit_pos b ob) (nm x) (nm y)" if "x \<in> insert e (leaves t)" "y \<in> insert e (leaves t)" for x y
    using that assms(3) by (metis agree_refl agree_sym agree_trans insertE)
  with assms show ?thesis by (simp add: Let_def)
qed

lemma node_inv_place:
  assumes nob: "valid_mask (ucast nob)" "ucast (ucast nob :: u8) = nob"
    and mk: "\<And>t. mk t = (if sbit (nm e) (crit_pos nb (ucast nob))
                         then Node nb (ucast nob) t (Leaf e) else Node nb (ucast nob) (Leaf e) t)"
  shows "node_inv nm n \<Longrightarrow>
     agree (crit_pos nb (ucast nob)) (nm (critbit_walk (nm e) n)) (nm e) \<Longrightarrow>
     sbit (nm (critbit_walk (nm e) n)) (crit_pos nb (ucast nob)) \<noteq>
       sbit (nm e) (crit_pos nb (ucast nob)) \<Longrightarrow>
     node_inv nm (critbit_place (nm e) nb nob mk n)"
proof (induction n)
  case (Leaf p)
  with nob show ?case by (simp only: critbit_place.simps mk) (rule node_inv_split, simp_all)
next
  case (Node b ob l r)
  let ?d = "crit_pos nb (ucast nob)" and ?i = "crit_pos b ob"
  let ?p = "nm (critbit_walk (nm e) (Node b ob l r))"
  have leaves: "leaves (critbit_place (nm e) nb nob mk t) = insert e (leaves t)" for t
    by (rule leaves_place) (auto simp: mk)
  have ob: "valid_mask ob" using Node.prems by simp
  have ag: "agree ?i (nm x) (nm y)" if "x \<in> leaves l \<union> leaves r" "y \<in> leaves l \<union> leaves r" for x y
    using Node.prems(1) that by (simp add: Let_def)
  have w: "critbit_walk (nm e) (Node b ob l r) \<in> leaves l \<union> leaves r"
    using walk_in_leaves[of _ "Node b ob l r"] by simp
  show ?case
  proof (cases "?d < ?i")
    case True
    have "agree ?d (nm x) (nm e) \<and> sbit (nm x) ?d = sbit ?p ?d" if "x \<in> leaves l \<union> leaves r" for x
      using ag[OF that w] True Node.prems(2) by (meson agree_bit agree_mono agree_trans less_imp_le)
    with Node.prems(3) have "agree ?d (nm x) (nm e) \<and> sbit (nm x) ?d \<noteq> sbit (nm e) ?d"
      if "x \<in> leaves (Node b ob l r)" for x
      using that unfolding leaves.simps by blast
    with nob(1) Node.prems(1)
    have "node_inv nm (mk (Node b ob l r))" unfolding mk by (rule node_inv_split)
    with True show ?thesis by (simp only: place_Node[OF ob nob] if_True)
  next
    case False
    define c where "c = (if sbit (nm e) ?i then r else l)"
    have p: "?p = nm (critbit_walk (nm e) c)"
      by (simp only: c_def walk_Node[OF ob])
    have "sbit ?p ?i = sbit (nm e) ?i"
      using Node.prems(1) walk_in_leaves[of "nm e" c] unfolding p
      by (auto simp: c_def Let_def split: if_splits)
    with Node.prems(3) False have "?i < ?d"
      by (metis linorder_neqE_nat)
    have eag: "agree ?i (nm x) (nm e)" if "x \<in> leaves l \<union> leaves r" for x
      using ag[OF that w] Node.prems(2) \<open>?i < ?d\<close>
      by (meson agree_mono agree_trans less_imp_le)
    have "node_inv nm (critbit_place (nm e) nb nob mk c)"
    proof (cases "sbit (nm e) ?i")
      case True
      then show ?thesis using Node.IH(2) Node.prems p by (simp add: c_def)
    next
      case False
      then show ?thesis using Node.IH(1) Node.prems p by (simp add: c_def)
    qed
    with Node.prems(1) have "node_inv nm
        (if sbit (nm e) ?i then Node b ob l (critbit_place (nm e) nb nob mk c)
         else Node b ob (critbit_place (nm e) nb nob mk c) r)"
      using eag ag agree_sym
      by (cases "sbit (nm e) ?i") (simp_all add: c_def Let_def leaves ball_Un)
    with False show ?thesis
      by (simp add: place_Node[OF ob nob] c_def split: if_splits del: critbit_place.simps)
  qed
qed


lemma unlink_None_iff: "critbit_unlink u n = None \<longleftrightarrow> (\<exists>p. n = Leaf p)"
  by (cases n) (auto split: option.splits)

lemma node_inv_unlink:
  assumes "node_inv nm n" "critbit_unlink u n = Some n'"
  shows "node_inv nm n' \<and> leaves n' = leaves n - {critbit_walk u n}"
  using assms
proof (induction n arbitrary: n')
  case (Leaf p)
  then show ?case by simp
next
  case (Node b ob l r)
  let ?i = "crit_pos b ob"
  have ob: "valid_mask ob" using Node.prems by simp
  have disj: "leaves l \<inter> leaves r = {}"
    using Node.prems(1) by (auto simp: Let_def)
  define c where "c = (if sbit u ?i then r else l)"
  have w: "critbit_walk u (Node b ob l r) = critbit_walk u c"
    by (simp only: c_def walk_Node[OF ob])
  show ?case
  proof (cases "critbit_unlink u c")
    case None
    then obtain p where "c = Leaf p" using unlink_None_iff by blast
    with None Node.prems disj show ?thesis
      by (cases "sbit u ?i") (auto simp: unlink_Node[OF ob] walk_Node[OF ob] c_def
          simp del: critbit_unlink.simps(2) critbit_walk.simps(2))
  next
    case (Some c')
    then have IH: "node_inv nm c'" "leaves c' = leaves c - {critbit_walk u c}"
      using Node.IH(1)[of c'] Node.IH(2)[of c'] Node.prems(1)
      by (auto simp: c_def split: if_splits)
    have "n' = (if sbit u ?i then Node b ob l c' else Node b ob c' r)"
      using Node.prems(2) Some
      by (auto simp: unlink_Node[OF ob] c_def simp del: critbit_unlink.simps(2))
    then show ?thesis
      using Node.prems(1) IH disj walk_in_leaves[of u c] unfolding w
      by (auto simp: c_def Let_def split: if_splits)
  qed
qed

text \<open>
  A crit-bit tree has one shape for each set of strings: unlinking a string that was just
  placed gives back the very tree.
\<close>

lemma unlink_place:
  assumes nob: "valid_mask (ucast nob)" "ucast (ucast nob :: u8) = nob"
    and mk: "\<And>t. mk t = (if sbit u (crit_pos nb (ucast nob))
                         then Node nb (ucast nob) t (Leaf e) else Node nb (ucast nob) (Leaf e) t)"
  shows "node_inv nm n \<Longrightarrow> critbit_unlink u (critbit_place u nb nob mk n) = Some n"
proof (induction n)
  case (Leaf p)
  show ?case
    by (cases "sbit u (crit_pos nb (ucast nob))")
      (simp_all add: mk unlink_Node[OF nob(1)] del: critbit_unlink.simps(2))
next
  case (Node b ob l r)
  have ob: "valid_mask ob" using Node.prems by simp
  show ?case
  proof (cases "crit_pos nb (ucast nob) < crit_pos b ob")
    case True
    then show ?thesis
      by (cases "sbit u (crit_pos nb (ucast nob))")
        (simp_all add: place_Node[OF ob nob] mk unlink_Node[OF nob(1)]
          del: critbit_unlink.simps(2) critbit_place.simps(2))
  next
    case False
    then show ?thesis
      using Node by (cases "sbit u (crit_pos b ob)")
        (simp_all add: place_Node[OF ob nob] unlink_Node[OF ob]
          del: critbit_unlink.simps(2) critbit_place.simps(2))
  qed
qed


section \<open>The operations on trees\<close>

lemma critbit_get_iff:
  assumes "critbit_inv nm t"
  shows "critbit_get nm t u = Some p \<longleftrightarrow> p \<in> critbit_elems t \<and> nm p = u"
proof (cases t)
  case None
  then show ?thesis by (simp add: critbit_get_def critbit_elems_def)
next
  case (Some n)
  then have "node_inv nm n" using assms by (simp add: critbit_inv_def)
  with Some show ?thesis
    using walk_finds[of nm n p] walk_in_leaves[of u n]
    by (auto simp: critbit_get_def critbit_elems_def Let_def)
qed

lemma critbit_contains_iff:
  assumes "critbit_inv nm t"
  shows "critbit_contains nm t u \<longleftrightarrow> (\<exists>p \<in> critbit_elems t. nm p = u)"
proof (cases t)
  case None
  then show ?thesis by (simp add: critbit_contains_def critbit_elems_def)
next
  case (Some n)
  then have "node_inv nm n" using assms by (simp add: critbit_inv_def)
  with Some show ?thesis
    using walk_eq_iff by (simp add: critbit_contains_def critbit_elems_def)
qed

lemma critbit_insert_new:
  assumes inv: "critbit_inv nm t" and e: "is_cstr (nm e)" "e mod SMP_CACHE_BYTES = 0"
    and new: "\<And>p. p \<in> critbit_elems t \<Longrightarrow> nm p \<noteq> nm e"
  shows "\<exists>t'. critbit_insert nm nomem t e = (if nomem \<and> t \<noteq> None then Some (- ENOMEM, t) else Some (0, t')) \<and>
           critbit_inv nm t' \<and> critbit_elems t' = insert e (critbit_elems t) \<and>
           critbit_delete nm t' (nm e) = (0, t)"
proof (cases t)
  case None
  with e show ?thesis
    by (intro exI[of _ "Some (Leaf e)"])
      (simp add: critbit_insert_def critbit_inv_def critbit_elems_def critbit_delete_def)
next
  case (Some n)
  let ?p = "nm (critbit_walk (nm e) n)"
  have n: "node_inv nm n" "is_cstr ?p" "?p \<noteq> nm e"
    using inv new Some by (auto simp: critbit_inv_def critbit_elems_def)
  then obtain nb x where fd: "first_diff ?p (nm e) 0 = Some (nb, x)"
    using first_diff_eq[OF n(2) e(1)] by (cases "first_diff ?p (nm e) 0") auto
  define nob where "nob = isolate_msb x XOR 255"
  define mk where "mk = (\<lambda>sub. if direction nob (char_at ?p nb) = 0
      then Node nb (ucast nob) sub (Leaf e) else Node nb (ucast nob) (Leaf e) sub)"
  let ?d = "crit_pos nb (ucast nob)"
  have c: "valid_mask (ucast nob)" "ucast (ucast nob :: u8) = nob"
    "agree ?d ?p (nm e)" "sbit ?p ?d \<noteq> sbit (nm e) ?d"
    unfolding nob_def by (rule first_diff_crit[OF fd])+
  have mk: "mk t = (if sbit (nm e) ?d then Node nb (ucast nob) t (Leaf e)
                    else Node nb (ucast nob) (Leaf e) t)" for t
    using direction_sbit[OF c(1), of ?p nb] c(2,4) by (auto simp: mk_def)
  let ?t' = "critbit_place (nm e) nb nob mk n"
  have ins: "critbit_insert nm nomem t e =
      (if nomem then Some (- ENOMEM, t) else Some (0, Some ?t'))"
    using e(2) Some fd unfolding mk_def nob_def by (simp add: critbit_insert_def Let_def)
  have t': "node_inv nm ?t'" "leaves ?t' = insert e (leaves n)"
    using node_inv_place[where mk = mk, OF c(1,2) mk n(1) c(3,4)] leaves_place[of mk e]
    by (simp_all add: mk)
  have del: "critbit_unlink (nm e) ?t' = Some n"
    using c(1,2) mk n(1) by (rule unlink_place)
  have "nm e = nm (critbit_walk (nm e) ?t')"
    using walk_eq_iff[OF t'(1), of "nm e"] t'(2) by auto
  with del have "critbit_delete nm (Some ?t') (nm e) = (0, t)"
    by (simp add: critbit_delete_def Some)
  with ins t' inv e Some show ?thesis
    by (intro exI[of _ "Some ?t'"]) (auto simp: critbit_inv_def critbit_elems_def)
qed

lemma critbit_insert_exists:
  assumes "critbit_inv nm t" "is_cstr (nm e)" "e mod SMP_CACHE_BYTES = 0"
    and "p \<in> critbit_elems t" "nm p = nm e"
  shows "critbit_insert nm nomem t e = Some (- EEXIST, t)"
proof -
  obtain n where t: "t = Some n" using assms(4) by (cases t) (auto simp: critbit_elems_def)
  then have n: "node_inv nm n" "p \<in> leaves n"
    using assms(1,4) by (auto simp: critbit_inv_def critbit_elems_def)
  then have "nm (critbit_walk (nm e) n) = nm e"
    using walk_finds assms(5) by metis
  moreover have "first_diff (nm e) (nm e) 0 = None"
    using assms(2) by (simp add: first_diff_eq)
  ultimately show ?thesis
    using assms(3) t by (simp add: critbit_insert_def Let_def)
qed

lemma critbit_delete_present:
  assumes inv: "critbit_inv nm t" and p: "p \<in> critbit_elems t"
  shows "\<exists>t'. critbit_delete nm t (nm p) = (0, t') \<and> critbit_inv nm t' \<and>
           critbit_elems t' = critbit_elems t - {p}"
proof -
  obtain n where t: "t = Some n" using p by (cases t) (auto simp: critbit_elems_def)
  then have n: "node_inv nm n" "p \<in> leaves n"
    using assms by (auto simp: critbit_inv_def critbit_elems_def)
  then have w: "critbit_walk (nm p) n = p" by (rule walk_finds)
  then have del: "critbit_delete nm t (nm p) = (0, critbit_unlink (nm p) n)"
    by (simp add: critbit_delete_def t)
  show ?thesis
  proof (cases "critbit_unlink (nm p) n")
    case None
    then obtain q where "n = Leaf q" using unlink_None_iff by blast
    with None del n t show ?thesis by (simp add: critbit_inv_def critbit_elems_def)
  next
    case (Some n')
    with node_inv_unlink[OF n(1) Some] del w inv t show ?thesis
      by (auto simp: critbit_inv_def critbit_elems_def)
  qed
qed

lemma critbit_delete_absent:
  assumes "critbit_inv nm t" "\<And>p. p \<in> critbit_elems t \<Longrightarrow> nm p \<noteq> u"
  shows "critbit_delete nm t u = (if t = None then 0 else - ENOENT, t)"
proof (cases t)
  case None
  then show ?thesis by (simp add: critbit_delete_def)
next
  case (Some n)
  then have "u \<noteq> nm (critbit_walk u n)"
    using assms(2)[of "critbit_walk u n"] by (auto simp: critbit_elems_def)
  with Some show ?thesis by (simp add: critbit_delete_def)
qed

lemma critbit_inv_cong:
  "(\<And>p. p \<in> critbit_elems t \<Longrightarrow> nm p = nm' p) \<Longrightarrow> critbit_inv nm t = critbit_inv nm' t"
  by (cases t) (auto simp: critbit_inv_def critbit_elems_def cong: node_inv_cong
      dest: node_inv_cong[THEN iffD1, rotated])

section \<open>The interface: an index of objects by name\<close>

locale name_index =
  fixes get :: "(ptr \<Rightarrow> cstr) \<Rightarrow> 't \<Rightarrow> cstr \<Rightarrow> ptr option"
    and contains :: "(ptr \<Rightarrow> cstr) \<Rightarrow> 't \<Rightarrow> cstr \<Rightarrow> bool"
    and ins :: "(ptr \<Rightarrow> cstr) \<Rightarrow> bool \<Rightarrow> 't \<Rightarrow> ptr \<Rightarrow> (int \<times> 't) option"
    and del :: "(ptr \<Rightarrow> cstr) \<Rightarrow> 't \<Rightarrow> cstr \<Rightarrow> int \<times> 't"
    and inv :: "(ptr \<Rightarrow> cstr) \<Rightarrow> 't \<Rightarrow> bool"
    and elems :: "'t \<Rightarrow> ptr set"
    and aligned :: "ptr \<Rightarrow> bool"
    and empty :: 't
  assumes empty: "inv nm empty" "elems empty = {}"
    and get_iff: "inv nm t \<Longrightarrow> get nm t u = Some p \<longleftrightarrow> p \<in> elems t \<and> nm p = u"
    and contains_iff: "inv nm t \<Longrightarrow> contains nm t u \<longleftrightarrow> (\<exists>p \<in> elems t. nm p = u)"
    and ins_new: "inv nm t \<Longrightarrow> is_cstr (nm e) \<Longrightarrow> aligned e \<Longrightarrow>
          (\<And>p. p \<in> elems t \<Longrightarrow> nm p \<noteq> nm e) \<Longrightarrow>
          \<exists>t'. ins nm nomem t e = (if nomem \<and> t \<noteq> empty then Some (- ENOMEM, t) else Some (0, t')) \<and>
               inv nm t' \<and> elems t' = insert e (elems t) \<and> del nm t' (nm e) = (0, t)"
    and ins_old: "inv nm t \<Longrightarrow> is_cstr (nm e) \<Longrightarrow> aligned e \<Longrightarrow> p \<in> elems t \<Longrightarrow> nm p = nm e \<Longrightarrow>
          ins nm nomem t e = Some (- EEXIST, t)"
    and del_present: "inv nm t \<Longrightarrow> p \<in> elems t \<Longrightarrow>
          \<exists>t'. del nm t (nm p) = (0, t') \<and> inv nm t' \<and> elems t' = elems t - {p}"
    and del_absent: "inv nm t \<Longrightarrow> (\<And>p. p \<in> elems t \<Longrightarrow> nm p \<noteq> u) \<Longrightarrow>
          del nm t u = (if t = empty then 0 else - ENOENT, t)"
    and inv_cong: "(\<And>p. p \<in> elems t \<Longrightarrow> nm p = nm' p) \<Longrightarrow> inv nm t = inv nm' t"
begin

lemma get_None_iff: "inv nm t \<Longrightarrow> get nm t u = None \<longleftrightarrow> (\<forall>p \<in> elems t. nm p \<noteq> u)"
  using get_iff by (metis not_None_eq)

lemma contains_get: "inv nm t \<Longrightarrow> contains nm t u \<longleftrightarrow> get nm t u \<noteq> None"
  by (simp add: contains_iff get_None_iff)

lemma inj_names: "inv nm t \<Longrightarrow> inj_on nm (elems t)"
  using get_iff by (intro inj_onI) (metis option.inject)

lemma ins_result:
  assumes "inv nm t" "is_cstr (nm e)" "aligned e"
  obtains r t' where "ins nm nomem t e = Some (r, t')" "inv nm t'"
    "r = 0 \<or> r = - ENOMEM \<or> r = - EEXIST"
    "r = 0 \<longleftrightarrow> get nm t (nm e) = None \<and> (\<not> nomem \<or> t = empty)"
    "elems t' = (if r = 0 then insert e (elems t) else elems t)"
    "r \<noteq> 0 \<Longrightarrow> t' = t"
proof (cases "get nm t (nm e)")
  case None
  then have "\<And>p. p \<in> elems t \<Longrightarrow> nm p \<noteq> nm e"
    using assms(1) by (simp add: get_None_iff)
  from ins_new[OF assms this, of nomem] None assms(1) show ?thesis
    using that by (cases "nomem \<and> t \<noteq> empty") auto
next
  case (Some p)
  then have "p \<in> elems t" "nm p = nm e"
    using get_iff[OF assms(1)] by auto
  from ins_old[OF assms this] Some assms(1) show ?thesis
    using that[of "- EEXIST" t] by simp
qed

lemma get_ins:
  assumes "inv nm t" "is_cstr (nm e)" "aligned e" "ins nm nomem t e = Some (0, t')"
  shows "get nm t' u = (if u = nm e then Some e else get nm t u)"
proof -
  obtain r t'' where "ins nm nomem t e = Some (r, t'')" "inv nm t''"
    "r = 0 \<longleftrightarrow> get nm t (nm e) = None \<and> (\<not> nomem \<or> t = empty)"
    "elems t'' = (if r = 0 then insert e (elems t) else elems t)"
    using ins_result[OF assms(1-3), of nomem] by metis
  then have inv': "inv nm t'" "elems t' = insert e (elems t)" "get nm t (nm e) = None"
    using assms(4) by auto
  have "nm p \<noteq> nm e" if "p \<in> elems t" for p
    using that inv'(3) assms(1) by (simp add: get_None_iff)
  then show ?thesis
    using get_iff[OF assms(1)] get_iff[OF inv'(1)] inv'(2) by (intro option_eqI) auto
qed

lemma get_del:
  assumes "inv nm t" "get nm t v = Some p" "del nm t v = (r, t')"
  shows "r = 0" "inv nm t'" "elems t' = elems t - {p}"
    and "get nm t' u = (if u = v then None else get nm t u)"
proof -
  have p: "p \<in> elems t" "nm p = v" using assms get_iff by auto
  from del_present[OF assms(1) p(1)] p(2) assms(3)
  show t': "r = 0" "inv nm t'" "elems t' = elems t - {p}" by auto
  have "q = p" if "q \<in> elems t" "nm q = v" for q
    using that p inj_names[OF assms(1)] by (auto dest: inj_onD)
  then have "get nm t' u = Some q \<longleftrightarrow> u \<noteq> v \<and> get nm t u = Some q" for q
    unfolding get_iff[OF assms(1)] get_iff[OF t'(2)] t'(3) using p by blast
  then show "get nm t' u = (if u = v then None else get nm t u)"
    by (intro option_eqI) simp
qed

end

interpretation cb: name_index critbit_get critbit_contains critbit_insert critbit_delete
  critbit_inv critbit_elems "\<lambda>e. e mod SMP_CACHE_BYTES = 0" None
proof unfold_locales
  show "critbit_inv nm None" "critbit_elems None = {}" for nm
    by (simp_all add: critbit_inv_def critbit_elems_def)
qed (fact critbit_get_iff critbit_contains_iff critbit_insert_new critbit_insert_exists
    critbit_delete_present critbit_delete_absent critbit_inv_cong)+

section \<open>Properties\<close>

text \<open>C4: Insertion of a new name. Let a crit-bit tree satisfy its invariant, and let a
  cache-line aligned string be stored that no element of the tree carries. With memory for the
  internal node, \<^term>\<open>critbit_insert\<close> returns 0, keeps the invariant, and the
  resulting tree finds the new string, finds every other string exactly as before, and
  \<^term>\<open>critbit_contains\<close> agrees with \<^term>\<open>critbit_get\<close> on it.\<close>
theorem critbit_insert_lookup:
  assumes "critbit_inv nm t" "is_cstr (nm e)" "e mod SMP_CACHE_BYTES = 0"
    and "critbit_get nm t (nm e) = None"
  shows "\<exists>t'. critbit_insert nm False t e = Some (0, t') \<and> critbit_inv nm t' \<and>
           (\<forall>u. critbit_get nm t' u = (if u = nm e then Some e else critbit_get nm t u)) \<and>
           (\<forall>u. critbit_contains nm t' u = (critbit_get nm t' u \<noteq> None))"
proof -
  obtain t' where t': "critbit_insert nm False t e = Some (0, t')" "critbit_inv nm t'"
    using cb.ins_result[OF assms(1-3), of False] assms(4) by metis
  with cb.get_ins[OF assms(1-3) t'(1)] show ?thesis by (simp add: cb.contains_get)
qed

theorem critbit_insert_lookup_witness:
  "\<exists>t'. critbit_insert (\<lambda>p. if p = 64 then lit ''eth0'' else lit ''eth1'') False (Some (Leaf 128)) 64 = Some (0, t') \<and>
        critbit_get (\<lambda>p. if p = 64 then lit ''eth0'' else lit ''eth1'') t' (lit ''eth0'') = Some 64"
proof -
  let ?nm = "\<lambda>p :: ptr. if p = 64 then lit ''eth0'' else lit ''eth1''"
  have "critbit_inv ?nm (Some (Leaf 128))" "is_cstr (?nm 64)" "(64 :: ptr) mod SMP_CACHE_BYTES = 0"
    "critbit_get ?nm (Some (Leaf 128)) (?nm 64) = None"
    by (simp_all add: critbit_inv_def critbit_elems_def lit_def is_cstr_def SMP_CACHE_BYTES_def
        critbit_get_def)
  from critbit_insert_lookup[of ?nm "Some (Leaf 128)" 64, OF this] show ?thesis by auto
qed

text \<open>Failing insertions. A string that the tree already stores under some element is refused
  with \<open>-EEXIST\<close>, and a new string for which no internal node can be allocated is
  refused with \<open>-ENOMEM\<close>; in both cases the tree is left exactly as it was.\<close>
lemma critbit_insert_failures:
  assumes "critbit_inv nm t" "is_cstr (nm e)" "e mod SMP_CACHE_BYTES = 0"
  shows "if critbit_contains nm t (nm e) then critbit_insert nm nomem t e = Some (- EEXIST, t)
         else t \<noteq> None \<longrightarrow> critbit_insert nm True t e = Some (- ENOMEM, t)"
  using assms critbit_insert_exists critbit_insert_new[OF assms, of True]
  by (auto simp: critbit_contains_iff)

text \<open>C16: Deletion. Deleting a stored name from a tree that satisfies the invariant returns 0,
  keeps the invariant, removes that name and leaves every other lookup unchanged; deleting a name
  that a non-empty tree does not store returns \<open>-ENOENT\<close> and leaves the tree alone.\<close>
theorem critbit_delete_lookup:
  assumes "critbit_inv nm t"
  shows "(case critbit_get nm t v of
            None \<Rightarrow> critbit_delete nm t v = (if t = None then 0 else - ENOENT, t)
          | Some p \<Rightarrow> \<exists>t'. critbit_delete nm t v = (0, t') \<and> critbit_inv nm t' \<and>
              (\<forall>u. critbit_get nm t' u = (if u = v then None else critbit_get nm t u)))"
proof (cases "critbit_get nm t v")
  case None
  then have "\<And>p. p \<in> critbit_elems t \<Longrightarrow> nm p \<noteq> v"
    using cb.get_None_iff[OF assms] by simp
  from critbit_delete_absent[OF assms this] None show ?thesis by simp
next
  case (Some p)
  obtain r t' where d: "critbit_delete nm t v = (r, t')" by (cases "critbit_delete nm t v")
  from cb.get_del[OF assms Some d] Some d show ?thesis by simp
qed

theorem critbit_delete_lookup_witness:
  "critbit_delete (\<lambda>p. lit ''eth1'') (Some (Leaf 128)) (lit ''eth1'') = (0, None) \<and>
   critbit_delete (\<lambda>p. lit ''eth1'') (Some (Leaf 128)) (lit ''lo'') = (- ENOENT, Some (Leaf 128))"
proof -
  let ?t = "Some (Leaf 128)"
  have inv: "critbit_inv (\<lambda>p. lit ''eth1'') ?t"
    by (simp add: critbit_inv_def critbit_elems_def lit_def is_cstr_def)
  have g: "critbit_get (\<lambda>p. lit ''eth1'') ?t (lit ''eth1'') = Some 128"
    "critbit_get (\<lambda>p. lit ''eth1'') ?t (lit ''lo'') = None"
    by (simp_all add: critbit_get_def lit_def)
  from critbit_delete_lookup[OF inv, of "lit ''eth1''"] critbit_delete_lookup[OF inv, of "lit ''lo''"] g
  show ?thesis by (auto simp: critbit_delete_def)
qed

text \<open>C17: Insertion and deletion are inverse. Deleting a name right after its successful
  insertion gives back the very tree (the same nodes in the same shape) the insertion started from.\<close>
theorem critbit_insert_delete:
  assumes "critbit_inv nm t" "is_cstr (nm e)" "e mod SMP_CACHE_BYTES = 0"
    and "critbit_insert nm nomem t e = Some (0, t')"
  shows "critbit_delete nm t' (nm e) = (0, t)"
proof -
  have "critbit_get nm t (nm e) = None"
    using cb.ins_result[OF assms(1-3), of nomem] assms(4) by (metis fst_conv option.inject)
  then have "\<And>p. p \<in> critbit_elems t \<Longrightarrow> nm p \<noteq> nm e"
    using cb.get_None_iff[OF assms(1)] by simp
  from critbit_insert_new[OF assms(1-3) this, of nomem] assms(4) show ?thesis
    by (auto split: if_splits)
qed

theorem critbit_insert_delete_witness:
  "critbit_delete (\<lambda>p. lit ''eth0'') (Some (Leaf 64)) (lit ''eth0'') = (0, None)"
  by (rule critbit_insert_delete[where nm = "\<lambda>p. lit ''eth0''" and e = 64 and t = None and nomem = False])
    (simp_all add: critbit_inv_def critbit_elems_def lit_def is_cstr_def SMP_CACHE_BYTES_def
      critbit_insert_def)

end
