(* ===== verification/Xt_Fblock.thy ===== *)
theory Xt_Fblock
  imports Xt_Critbit "HOL-Library.Monad_Syntax"
begin

text \<open>Functional blocks and their registry: \<open>src/src/xt_fblock.h\<close> and
  \<open>src/src/xt_fblock.c\<close>.

  One record, \<open>lana\<close>, holds the static data of the file and the memory it works on: the
  crit-bit tree \<open>idpmap\<close> from names to \<open>struct idp_elem\<close>, the radix tree
  \<open>fblmap\<close> from idps to blocks, the 64-bit idp counter, the tree \<open>fbmap\<close> of
  block types (used by \<open>xt_builder.c\<close>), and one partial map per kind of heap
  object (an address outside the map is not allocated). Every operation takes the state last and
  returns the new one; \<^const>\<open>None\<close> is a dereference of freed or missing memory, a BUG or a
  panic. Kernel services are modelled by their documented behaviour: allocations take their outcome
  from the list \<open>kmem\<close> (\<^const>\<open>True\<close> is a failure, an exhausted list means success) and
  return fresh cache-line aligned addresses, the radix tree is a partial map with a fallible
  insertion, a notifier chain is the list of its blocks in calling order (all have priority 0, so
  registration appends), and callbacks given to \<open>call_rcu\<close> wait in \<open>rcu\<close> until
  \<open>rcu_barrier\<close> runs them.

  The private data of a block has a type parameter, and the functions a module provides are the
  record \<open>fb_ops\<close>. \<open>fb_module\<close> names a module: in \<open>netfb_rx\<close> and
  \<open>event_rx\<close> it stands for the function of that module, in \<open>factory\<close> for the
  address of its factory. Locks and memory barriers have no state of their own here: the operations
  are the bodies that run under them.\<close>

section \<open>Data\<close>

datatype path_type = TYPE_INGRESS | TYPE_EGRESS

datatype fb_module =
    LANA_CORE | FB_DUMMY | FB_TEE | FB_COUNTER | FB_BPF | FB_ETH | FB_ETHVLINK | FB_PFLANA

text \<open>The commands of an event handler with their argument structures.\<close>

datatype fblock_event =
    FBLOCK_BIND_IDP path_type idp_t
  | FBLOCK_UNBIND_IDP path_type idp_t
  | FBLOCK_SET_OPT cstr cstr
  | FBLOCK_DOWN_PREPARE
  | FBLOCK_DOWN idp_t

text \<open>Return values of notifier calls (\<open>linux/notifier.h\<close>).\<close>

abbreviation NOTIFY_DONE :: int where "NOTIFY_DONE \<equiv> 0"
abbreviation NOTIFY_OK :: int where "NOTIFY_OK \<equiv> 1"
abbreviation NOTIFY_BAD :: int where "NOTIFY_BAD \<equiv> 32770"
abbreviation NOTIFY_STOP_MASK :: int where "NOTIFY_STOP_MASK \<equiv> 32768"

definition FBNAMSIZ :: nat where
  "FBNAMSIZ = 16"

text \<open>A subscription. The embedded \<open>notifier_block\<close> is its address; of its fields only
  \<open>notifier_call\<close> matters, the priority is always 0 and \<open>next\<close> is the chain.\<close>

record fblock_notifier =
  nself :: ptr
  notifier_call :: fb_module
  remote :: idp_t

text \<open>\<open>notifiers\<close> is the linked list of the block's own subscriptions, \<open>others\<close> the
  chain of the subscriptions other blocks hold on it (\<^const>\<open>None\<close> for NULL).\<close>

record 'p fblock =
  fb_name :: cstr
  private_data :: 'p
  netfb_rx :: fb_module
  event_rx :: fb_module
  factory :: "fb_module option"
  notifiers :: "ptr list"
  others :: "ptr list option"
  refcnt :: int
  fb_idp :: idp_t

record idp_elem =
  elem_name :: cstr
  elem_idp :: idp_t

text \<open>Callbacks waiting for the end of a grace period, with their object.\<close>

datatype rcu_head = FreeFblock ptr | FreeElem ptr

record 'p lana =
  idpmap :: critbit_tree
  idp_elems :: "ptr \<rightharpoonup> idp_elem"
  fblmap :: "idp_t \<rightharpoonup> ptr"
  fbmap :: critbit_tree
  idp_counter :: u64
  fbs :: "ptr \<rightharpoonup> 'p fblock"
  nots :: "ptr \<rightharpoonup> fblock_notifier"
  rcu :: "rcu_head list"
  modrefs :: "fb_module \<Rightarrow> int"
  critbit_cache :: int
  lana_proc_dir :: "cstr list"
  fblock_proc_dir :: "cstr list"
  heap_top :: nat
  kmem :: "bool list"

record 'p fb_ops =
  op_event :: "fb_module \<Rightarrow> fblock_event \<Rightarrow> 'p \<Rightarrow> (int \<times> 'p) option"
  op_dtor_outside_rcu :: "fb_module \<Rightarrow> 'p \<Rightarrow> 'p"
  op_dtor :: "fb_module \<Rightarrow> 'p fblock \<Rightarrow> 'p lana \<Rightarrow> 'p lana"

section \<open>Memory\<close>

text \<open>The outcome of the next allocation.\<close>

definition mem_fails :: "'p lana \<Rightarrow> bool \<times> 'p lana" where
  "mem_fails s = (case kmem s of [] \<Rightarrow> (False, s) | b # ks \<Rightarrow> (b, s\<lparr>kmem := ks\<rparr>))"

text \<open>The \<open>n\<close>-th address handed out.\<close>

definition slab_addr :: "nat \<Rightarrow> ptr" where
  "slab_addr n = SMP_CACHE_BYTES * Suc n"

definition kmalloc :: "'p lana \<Rightarrow> ptr option \<times> 'p lana" where
  "kmalloc s =
     (let (fails, s) = mem_fails s in
      if fails then (None, s)
      else (Some (slab_addr (heap_top s)), s\<lparr>heap_top := Suc (heap_top s)\<rparr>))"

text \<open>The string in the destination after \<open>strlcpy(dst, src, sz)\<close> for a positive size.\<close>

definition strlcpy :: "cstr \<Rightarrow> nat \<Rightarrow> cstr" where
  "strlcpy src sz = take (sz - 1) src"

definition upd_fb :: "ptr \<Rightarrow> 'p fblock \<Rightarrow> 'p lana \<Rightarrow> 'p lana" where
  "upd_fb p fb s = s\<lparr>fbs := (fbs s)(p \<mapsto> fb)\<rparr>"

definition module_get :: "fb_module \<Rightarrow> 'p lana \<Rightarrow> 'p lana" where
  "module_get m s = s\<lparr>modrefs := (modrefs s)(m := modrefs s m + 1)\<rparr>"

definition module_put :: "fb_module \<Rightarrow> 'p lana \<Rightarrow> 'p lana" where
  "module_put m s = s\<lparr>modrefs := (modrefs s)(m := modrefs s m - 1)\<rparr>"

section \<open>Reference counts\<close>

text \<open>A write to a field of the block behind a pointer.\<close>

definition mod_fb :: "ptr \<Rightarrow> ('p fblock \<Rightarrow> 'p fblock) \<Rightarrow> 'p lana \<Rightarrow> 'p lana option" where
  "mod_fb p f s = do { fb \<leftarrow> fbs s p; Some (upd_fb p (f fb) s) }"

definition get_fblock :: "ptr \<Rightarrow> 'p lana \<Rightarrow> 'p lana option" where
  "get_fblock p s = mod_fb p (\<lambda>fb. fb\<lparr>refcnt := refcnt fb + 1\<rparr>) s"

definition put_fblock :: "'p fb_ops \<Rightarrow> ptr \<Rightarrow> 'p lana \<Rightarrow> 'p lana option" where
  "put_fblock ops p s = do {
     fb \<leftarrow> fbs s p;
     let fb = fb\<lparr>refcnt := refcnt fb - 1\<rparr>;
     if refcnt fb \<noteq> 0 then Some (upd_fb p fb s)
     else case factory fb of
       None \<Rightarrow> Some (upd_fb p fb s)
     | Some f \<Rightarrow>
         (let fb = fb\<lparr>private_data := op_dtor_outside_rcu ops f (private_data fb)\<rparr>; s = upd_fb p fb s
          in Some (s\<lparr>rcu := rcu s @ [FreeFblock p]\<rparr>))
   }"

section \<open>The name space\<close>

text \<open>The string the name tree reads behind an element pointer.\<close>

definition elem_name_at :: "'p lana \<Rightarrow> ptr \<Rightarrow> cstr" where
  "elem_name_at s p = (case idp_elems s p of None \<Rightarrow> [] | Some e \<Rightarrow> elem_name e)"

definition provide_new_fblock_idp :: "'p lana \<Rightarrow> idp_t \<times> 'p lana" where
  "provide_new_fblock_idp s =
     (let c = idp_counter s + 1 in (ucast c, s\<lparr>idp_counter := c\<rparr>))"

text \<open>The two allocations are the element itself and the internal node of the tree.\<close>

definition register_to_fblock_namespace ::
    "cstr \<Rightarrow> idp_t \<Rightarrow> 'p lana \<Rightarrow> (int \<times> 'p lana) option" where
  "register_to_fblock_namespace name val s =
     (if critbit_contains (elem_name_at s) (idpmap s) name then Some (- EEXIST, s)
      else case kmalloc s of
        (None, s) \<Rightarrow> Some (- ENOMEM, s)
      | (Some elem, s) \<Rightarrow>
          (let e = \<lparr>elem_name = strlcpy name FBNAMSIZ, elem_idp = val\<rparr>;
               s = s\<lparr>idp_elems := (idp_elems s)(elem \<mapsto> e)\<rparr>;
               (nomem, s) = mem_fails s
           in do {
             (ret, t) \<leftarrow> critbit_insert (elem_name_at s) nomem (idpmap s) elem;
             Some (ret, s\<lparr>idpmap := t\<rparr>)
           }))"

definition unregister_from_fblock_namespace :: "cstr \<Rightarrow> 'p lana \<Rightarrow> int \<times> 'p lana" where
  "unregister_from_fblock_namespace name s =
     (case critbit_get (elem_name_at s) (idpmap s) name of
        None \<Rightarrow> (- ENOENT, s)
      | Some elem \<Rightarrow>
          (let (ret, t) = critbit_delete (elem_name_at s) (idpmap s) (elem_name_at s elem) in
           if ret \<noteq> 0 then (ret, s\<lparr>idpmap := t\<rparr>)
           else (0, s\<lparr>idpmap := t, rcu := rcu s @ [FreeElem elem]\<rparr>)))"

definition get_fblock_namespace_mapping :: "cstr \<Rightarrow> 'p lana \<Rightarrow> idp_t" where
  "get_fblock_namespace_mapping name s =
     (case critbit_get (elem_name_at s) (idpmap s) name of
        None \<Rightarrow> IDP_UNKNOWN
      | Some elem \<Rightarrow> (case idp_elems s elem of None \<Rightarrow> IDP_UNKNOWN | Some e \<Rightarrow> elem_idp e))"

definition change_fblock_namespace_mapping :: "cstr \<Rightarrow> idp_t \<Rightarrow> 'p lana \<Rightarrow> int \<times> 'p lana" where
  "change_fblock_namespace_mapping name new s =
     (case critbit_get (elem_name_at s) (idpmap s) name of
        None \<Rightarrow> (- ENOENT, s)
      | Some elem \<Rightarrow>
          (0, s\<lparr>idp_elems := (idp_elems s)(elem := map_option (elem_idp_update (\<lambda>_. new)) (idp_elems s elem))\<rparr>))"

text \<open>The kernel's radix tree: an occupied slot gives \<open>-EEXIST\<close>, otherwise a node may have to
  be allocated.\<close>

definition radix_tree_insert :: "idp_t \<Rightarrow> ptr \<Rightarrow> 'p lana \<Rightarrow> int \<times> 'p lana" where
  "radix_tree_insert idp p s =
     (if fblmap s idp \<noteq> None then (- EEXIST, s)
      else let (fails, s) = mem_fails s in
        if fails then (- ENOMEM, s) else (0, s\<lparr>fblmap := (fblmap s)(idp \<mapsto> p)\<rparr>))"

definition radix_tree_delete :: "idp_t \<Rightarrow> 'p lana \<Rightarrow> 'p lana" where
  "radix_tree_delete idp s = s\<lparr>fblmap := (fblmap s)(idp := None)\<rparr>"

text \<open>\<open>__search_fblock\<close>: looks the block up and takes a reference.\<close>

definition search_fblock_rcu :: "idp_t \<Rightarrow> 'p lana \<Rightarrow> (ptr option \<times> 'p lana) option" where
  "search_fblock_rcu idp s =
     (case fblmap s idp of
        None \<Rightarrow> Some (None, s)
      | Some p \<Rightarrow> do { s \<leftarrow> get_fblock p s; Some (Some p, s) })"

definition search_fblock :: "idp_t \<Rightarrow> 'p lana \<Rightarrow> (ptr option \<times> 'p lana) option" where
  "search_fblock idp s =
     (if idp = IDP_UNKNOWN then Some (None, s) else search_fblock_rcu idp s)"

definition search_fblock_n :: "cstr \<Rightarrow> 'p lana \<Rightarrow> (ptr option \<times> 'p lana) option" where
  "search_fblock_n name s =
     (let id = get_fblock_namespace_mapping name s in search_fblock_rcu id s)"

section \<open>Events and options\<close>

text \<open>A call of handler \<open>h\<close> on a notifier whose \<open>self\<close> is the given block.\<close>

definition event_call ::
    "'p fb_ops \<Rightarrow> fb_module \<Rightarrow> ptr \<Rightarrow> fblock_event \<Rightarrow> 'p lana \<Rightarrow> (int \<times> 'p lana) option" where
  "event_call ops h self e s = do {
     fb \<leftarrow> fbs s self;
     (ret, priv) \<leftarrow> op_event ops h e (private_data fb);
     Some (ret, upd_fb self (fb\<lparr>private_data := priv\<rparr>) s)
   }"

definition event_rx_call ::
    "'p fb_ops \<Rightarrow> ptr \<Rightarrow> fblock_event \<Rightarrow> 'p lana \<Rightarrow> (int \<times> 'p lana) option" where
  "event_rx_call ops p e s = do { fb \<leftarrow> fbs s p; event_call ops (event_rx fb) p e s }"

text \<open>\<open>atomic_notifier_call_chain\<close>: every block of the chain in turn, until one of them returns a
  value with the stop bit.\<close>

fun notifier_call_chain ::
    "'p fb_ops \<Rightarrow> ptr list \<Rightarrow> fblock_event \<Rightarrow> int \<Rightarrow> 'p lana \<Rightarrow> (int \<times> 'p lana) option" where
  "notifier_call_chain ops [] e ret s = Some (ret, s)"
| "notifier_call_chain ops (nb # nbs) e ret s = do {
     n \<leftarrow> nots s nb;
     (ret, s) \<leftarrow> event_call ops (notifier_call n) (nself n) e s;
     if and ret NOTIFY_STOP_MASK = NOTIFY_STOP_MASK then Some (ret, s)
     else notifier_call_chain ops nbs e ret s
   }"

definition notify_fblock_subscribers ::
    "'p fb_ops \<Rightarrow> ptr \<Rightarrow> fblock_event \<Rightarrow> 'p lana \<Rightarrow> (int \<times> 'p lana) option" where
  "notify_fblock_subscribers ops us e s = do {
     fb \<leftarrow> fbs s us;
     case others fb of
       None \<Rightarrow> Some (- ENOENT, s)
     | Some chain \<Rightarrow> notifier_call_chain ops chain e NOTIFY_DONE s
   }"

text \<open>The loop that cuts \<open>key=val\<close> at its first equals sign.\<close>

fun split_option :: "cstr \<Rightarrow> (cstr \<times> cstr) option" where
  "split_option [] = None"
| "split_option (c # cs) =
     (if c = 0x3D then Some ([], cs)
      else map_option (\<lambda>(key, val). (c # key, val)) (split_option cs))"

definition fblock_set_option ::
    "'p fb_ops \<Rightarrow> ptr \<Rightarrow> cstr \<Rightarrow> 'p lana \<Rightarrow> (int \<times> 'p lana) option" where
  "fblock_set_option ops fb opt_string s =
     (case split_option opt_string of
        None \<Rightarrow> Some (- EINVAL, s)
      | Some (key, val) \<Rightarrow> do {
          s \<leftarrow> get_fblock fb s;
          (ret, s) \<leftarrow> event_rx_call ops fb (FBLOCK_SET_OPT key val) s;
          s \<leftarrow> put_fblock ops fb s;
          Some (ret, s)
        })"

section \<open>Migration\<close>

fun fblock_update_selfref :: "ptr list \<Rightarrow> ptr \<Rightarrow> 'p lana \<Rightarrow> 'p lana option" where
  "fblock_update_selfref [] self s = Some s"
| "fblock_update_selfref (n # ns) self s = do {
     x \<leftarrow> nots s n;
     fblock_update_selfref ns self (s\<lparr>nots := (nots s)(n \<mapsto> x\<lparr>nself := self\<rparr>)\<rparr>)
   }"

definition fblock_migrate_p :: "'p fb_ops \<Rightarrow> ptr \<Rightarrow> ptr \<Rightarrow> 'p lana \<Rightarrow> 'p lana option" where
  "fblock_migrate_p ops dst src s = do {
     s \<leftarrow> get_fblock dst s;
     s \<leftarrow> get_fblock src s;
     d \<leftarrow> fbs s dst;
     let priv_old = private_data d;
     f \<leftarrow> fbs s src;
     s \<leftarrow> mod_fb dst (\<lambda>fb. fb\<lparr>private_data := private_data f\<rparr>) s;
     s \<leftarrow> mod_fb src (\<lambda>fb. fb\<lparr>private_data := priv_old\<rparr>) s;
     s \<leftarrow> put_fblock ops dst s;
     put_fblock ops src s
   }"

text \<open>The exchanges \<open>fblock_migrate_r\<close> makes, field by field.\<close>

definition swap_notifiers :: "ptr \<Rightarrow> ptr \<Rightarrow> 'p lana \<Rightarrow> 'p lana option" where
  "swap_notifiers dst src s = do {
     d \<leftarrow> fbs s dst;
     let not_old = notifiers d;
     f \<leftarrow> fbs s src;
     s \<leftarrow> mod_fb dst (\<lambda>fb. fb\<lparr>notifiers := notifiers f\<rparr>) s;
     s \<leftarrow> mod_fb src (\<lambda>fb. fb\<lparr>notifiers := not_old\<rparr>) s;
     d \<leftarrow> fbs s dst;
     s \<leftarrow> fblock_update_selfref (notifiers d) dst s;
     f \<leftarrow> fbs s src;
     fblock_update_selfref (notifiers f) src s
   }"

definition swap_others :: "ptr \<Rightarrow> ptr \<Rightarrow> 'p lana \<Rightarrow> 'p lana option" where
  "swap_others dst src s = do {
     d \<leftarrow> fbs s dst;
     let sub_old = others d;
     f \<leftarrow> fbs s src;
     s \<leftarrow> mod_fb dst (\<lambda>fb. fb\<lparr>others := others f\<rparr>) s;
     mod_fb src (\<lambda>fb. fb\<lparr>others := sub_old\<rparr>) s
   }"

definition swap_refcnt :: "ptr \<Rightarrow> ptr \<Rightarrow> 'p lana \<Rightarrow> 'p lana option" where
  "swap_refcnt dst src s = do {
     d \<leftarrow> fbs s dst;
     f \<leftarrow> fbs s src;
     s \<leftarrow> mod_fb src (\<lambda>fb. fb\<lparr>refcnt := refcnt d\<rparr>) s;
     mod_fb dst (\<lambda>fb. fb\<lparr>refcnt := refcnt f\<rparr>) s
   }"

definition fblock_migrate_r :: "'p fb_ops \<Rightarrow> ptr \<Rightarrow> ptr \<Rightarrow> 'p lana \<Rightarrow> 'p lana option" where
  "fblock_migrate_r ops dst src s = do {
     s \<leftarrow> get_fblock dst s;
     s \<leftarrow> get_fblock src s;
     f \<leftarrow> fbs s src;
     s \<leftarrow> mod_fb dst (\<lambda>fb. fb\<lparr>fb_idp := fb_idp f, fb_name := strlcpy (fb_name f) FBNAMSIZ\<rparr>) s;
     s \<leftarrow> swap_notifiers dst src s;
     s \<leftarrow> swap_others dst src s;
     s \<leftarrow> swap_refcnt dst src s;
     s \<leftarrow> put_fblock ops dst s;
     put_fblock ops src s
   }"

section \<open>Subscriptions and bindings\<close>

text \<open>\<open>init_fblock_subscriber\<close> fills the embedded notifier block.\<close>

definition init_fblock_subscriber :: "'p fblock \<Rightarrow> fblock_notifier \<Rightarrow> fblock_notifier" where
  "init_fblock_subscriber fb fn = fn\<lparr>notifier_call := event_rx fb\<rparr>"

definition fblock_register_foreign_subscriber ::
    "ptr \<Rightarrow> ptr \<Rightarrow> 'p lana \<Rightarrow> (int \<times> 'p lana) option" where
  "fblock_register_foreign_subscriber us nb s = do {
     fb \<leftarrow> fbs s us;
     chain \<leftarrow> others fb;
     Some (0, upd_fb us (fb\<lparr>others := Some (chain @ [nb])\<rparr>) s)
   }"

definition fblock_unregister_foreign_subscriber :: "ptr \<Rightarrow> ptr \<Rightarrow> 'p lana \<Rightarrow> 'p lana option" where
  "fblock_unregister_foreign_subscriber us nb s = do {
     fb \<leftarrow> fbs s us;
     chain \<leftarrow> others fb;
     Some (upd_fb us (fb\<lparr>others := Some (remove1 nb chain)\<rparr>) s)
   }"

definition subscribe_to_remote_fblock ::
    "ptr \<Rightarrow> ptr \<Rightarrow> 'p lana \<Rightarrow> (int \<times> 'p lana) option" where
  "subscribe_to_remote_fblock us rem s =
     (case kmalloc s of
        (None, s) \<Rightarrow> Some (- ENOMEM, s)
      | (Some fn, s) \<Rightarrow> do {
          s \<leftarrow> get_fblock us s;
          s \<leftarrow> get_fblock rem s;
          u \<leftarrow> fbs s us;
          r \<leftarrow> fbs s rem;
          let x = init_fblock_subscriber u \<lparr>nself = us, notifier_call = LANA_CORE, remote = fb_idp r\<rparr>;
          let s = s\<lparr>nots := (nots s)(fn \<mapsto> x)\<rparr>;
          s \<leftarrow> mod_fb us (\<lambda>fb. fb\<lparr>notifiers := fn # notifiers fb\<rparr>) s;
          fblock_register_foreign_subscriber rem fn s
        })"

text \<open>The search behind the first subscription: it unlinks and returns the first one to \<open>idp\<close>.\<close>

fun unlink_notifier ::
    "(ptr \<rightharpoonup> fblock_notifier) \<Rightarrow> idp_t \<Rightarrow> ptr list \<Rightarrow> (ptr option \<times> ptr list) option" where
  "unlink_notifier h idp [] = Some (None, [])"
| "unlink_notifier h idp (f1 # fs) = do {
     x \<leftarrow> h f1;
     if remote x = idp then Some (Some f1, fs)
     else do {
       (found, fs) \<leftarrow> unlink_notifier h idp fs;
       Some (found, f1 # fs)
     }
   }"

text \<open>When the first subscription matches, it is unlinked but \<open>found\<close> stays 0: it is neither
  taken off the remote chain nor freed.\<close>

definition unsubscribe_from_remote_fblock ::
    "'p fb_ops \<Rightarrow> ptr \<Rightarrow> ptr \<Rightarrow> 'p lana \<Rightarrow> 'p lana option" where
  "unsubscribe_from_remote_fblock ops us rem s = do {
     u \<leftarrow> fbs s us;
     case notifiers u of
       [] \<Rightarrow> Some s
     | fn # fns \<Rightarrow> do {
         x \<leftarrow> nots s fn;
         r \<leftarrow> fbs s rem;
         (found, ns) \<leftarrow>
           (if remote x = fb_idp r then Some (None, fns)
            else do {
              (found, fns) \<leftarrow> unlink_notifier (nots s) (fb_idp r) fns;
              Some (found, fn # fns)
            });
         s \<leftarrow> mod_fb us (\<lambda>fb. fb\<lparr>notifiers := ns\<rparr>) s;
         s \<leftarrow> (case found of
                None \<Rightarrow> Some s
              | Some f1 \<Rightarrow> do {
                  s \<leftarrow> fblock_unregister_foreign_subscriber rem f1 s;
                  Some (s\<lparr>nots := (nots s)(f1 := None)\<rparr>)
                });
         s \<leftarrow> put_fblock ops us s;
         put_fblock ops rem s
       }
   }"

definition fblock_unbind ::
    "'p fb_ops \<Rightarrow> ptr \<Rightarrow> ptr \<Rightarrow> 'p lana \<Rightarrow> (int \<times> 'p lana) option" where
  "fblock_unbind ops p1 p2 s = do {
     fb1 \<leftarrow> fbs s p1;
     fb2 \<leftarrow> fbs s p2;
     (ret, s) \<leftarrow> event_rx_call ops p1 (FBLOCK_UNBIND_IDP TYPE_EGRESS (fb_idp fb2)) s;
     if ret \<noteq> NOTIFY_OK then Some (- EBUSY, s)
     else do {
       (ret, s) \<leftarrow> event_rx_call ops p2 (FBLOCK_UNBIND_IDP TYPE_INGRESS (fb_idp fb1)) s;
       if ret \<noteq> NOTIFY_OK then do {
         s \<leftarrow> put_fblock ops p1 s;
         Some (- EBUSY, s)
       } else do {
         s \<leftarrow> unsubscribe_from_remote_fblock ops p1 p2 s;
         s \<leftarrow> unsubscribe_from_remote_fblock ops p2 p1 s;
         s \<leftarrow> put_fblock ops p2 s;
         s \<leftarrow> put_fblock ops p1 s;
         Some (0, s)
       }
     }
   }"

definition fblock_bind ::
    "'p fb_ops \<Rightarrow> ptr \<Rightarrow> ptr \<Rightarrow> 'p lana \<Rightarrow> (int \<times> 'p lana) option" where
  "fblock_bind ops p1 p2 s = do {
     s \<leftarrow> get_fblock p1 s;
     s \<leftarrow> get_fblock p2 s;
     fb1 \<leftarrow> fbs s p1;
     fb2 \<leftarrow> fbs s p2;
     (ret, s) \<leftarrow> event_rx_call ops p1 (FBLOCK_BIND_IDP TYPE_EGRESS (fb_idp fb2)) s;
     if ret \<noteq> NOTIFY_OK then do {
       s \<leftarrow> put_fblock ops p1 s;
       s \<leftarrow> put_fblock ops p2 s;
       Some (- EBUSY, s)
     } else do {
       (ret, s) \<leftarrow> event_rx_call ops p2 (FBLOCK_BIND_IDP TYPE_INGRESS (fb_idp fb1)) s;
       if ret \<noteq> NOTIFY_OK then do {
         (ret, s) \<leftarrow> event_rx_call ops p1 (FBLOCK_UNBIND_IDP TYPE_EGRESS (fb_idp fb2)) s;
         if ret \<noteq> NOTIFY_OK then None
         else do {
           s \<leftarrow> put_fblock ops p1 s;
           s \<leftarrow> put_fblock ops p2 s;
           Some (- EBUSY, s)
         }
       } else do {
         (ret, s) \<leftarrow> subscribe_to_remote_fblock p1 p2 s;
         if ret \<noteq> 0 then do {
           (_, s) \<leftarrow> fblock_unbind ops p1 p2 s;
           Some (- ENOMEM, s)
         } else do {
           (ret, s) \<leftarrow> subscribe_to_remote_fblock p2 p1 s;
           if ret \<noteq> 0 then do {
             (_, s) \<leftarrow> fblock_unbind ops p1 p2 s;
             Some (- ENOMEM, s)
           } else Some (0, s)
         }
       }
     }
   }"

section \<open>Registration\<close>

definition register_fblock :: "ptr \<Rightarrow> idp_t \<Rightarrow> 'p lana \<Rightarrow> (int \<times> 'p lana) option" where
  "register_fblock p idp s = do {
     s \<leftarrow> mod_fb p (\<lambda>fb. fb\<lparr>fb_idp := idp\<rparr>) s;
     Some (radix_tree_insert idp p s)
   }"

definition register_fblock_namespace :: "ptr \<Rightarrow> 'p lana \<Rightarrow> (int \<times> 'p lana) option" where
  "register_fblock_namespace p s = do {
     let (idp, s) = provide_new_fblock_idp s;
     s \<leftarrow> mod_fb p (\<lambda>fb. fb\<lparr>fb_idp := idp\<rparr>) s;
     let (ret, s) = radix_tree_insert idp p s;
     if ret < 0 then Some (ret, s)
     else do {
       fb \<leftarrow> fbs s p;
       register_to_fblock_namespace (fb_name fb) (fb_idp fb) s
     }
   }"

definition unregister_fblock :: "'p fb_ops \<Rightarrow> ptr \<Rightarrow> 'p lana \<Rightarrow> 'p lana option" where
  "unregister_fblock ops p s = do {
     fb \<leftarrow> fbs s p;
     put_fblock ops p (radix_tree_delete (fb_idp fb) s)
   }"

definition unregister_fblock_namespace_rcu ::
    "'p fb_ops \<Rightarrow> ptr \<Rightarrow> bool \<Rightarrow> 'p lana \<Rightarrow> 'p lana option" where
  "unregister_fblock_namespace_rcu ops p do_rcu s = do {
     fb \<leftarrow> fbs s p;
     let s = radix_tree_delete (fb_idp fb) s;
     let (_, s) = unregister_from_fblock_namespace (fb_name fb) s;
     if do_rcu then put_fblock ops p s else Some s
   }"

definition unregister_fblock_namespace :: "'p fb_ops \<Rightarrow> ptr \<Rightarrow> 'p lana \<Rightarrow> 'p lana option" where
  "unregister_fblock_namespace ops p s = unregister_fblock_namespace_rcu ops p True s"

definition unregister_fblock_namespace_no_rcu ::
    "'p fb_ops \<Rightarrow> ptr \<Rightarrow> 'p lana \<Rightarrow> 'p lana option" where
  "unregister_fblock_namespace_no_rcu ops p s = unregister_fblock_namespace_rcu ops p False s"

section \<open>Life cycle\<close>

text \<open>\<open>nil\<close> is the NULL pointer of the private data. The slab constructor is applied to every
  object the allocator returns, as in the \<open>__USE_KMALLOC\<close> variant.\<close>

definition ctor_fblock :: "'p \<Rightarrow> 'p fblock" where
  "ctor_fblock nil =
     \<lparr>fb_name = [], private_data = nil, netfb_rx = LANA_CORE, event_rx = LANA_CORE,
      factory = None, notifiers = [], others = None, refcnt = 0, fb_idp = IDP_UNKNOWN\<rparr>"

definition alloc_fblock :: "'p \<Rightarrow> 'p lana \<Rightarrow> ptr option \<times> 'p lana" where
  "alloc_fblock nil s =
     (case kmalloc s of
        (None, s) \<Rightarrow> (None, s)
      | (Some p, s) \<Rightarrow> (Some p, module_get LANA_CORE (upd_fb p (ctor_fblock nil) s)))"

text \<open>When the chain head cannot be allocated, the code returns with \<open>fb->lock\<close> still held.\<close>

definition init_fblock :: "ptr \<Rightarrow> cstr \<Rightarrow> 'p \<Rightarrow> 'p lana \<Rightarrow> (int \<times> 'p lana) option" where
  "init_fblock p name priv s = do {
     s \<leftarrow> mod_fb p (\<lambda>fb. fb\<lparr>fb_name := strlcpy name FBNAMSIZ, private_data := priv\<rparr>) s;
     case kmalloc s of
       (None, s) \<Rightarrow> do {
         s \<leftarrow> mod_fb p (\<lambda>fb. fb\<lparr>others := None\<rparr>) s;
         Some (- ENOMEM, s)
       }
     | (Some q, s) \<Rightarrow> do {
         s \<leftarrow> mod_fb p (\<lambda>fb. fb\<lparr>others := Some [], refcnt := 1\<rparr>) s;
         Some (0, s)
       }
   }"

definition kfree_fblock :: "ptr \<Rightarrow> 'p lana \<Rightarrow> 'p lana option" where
  "kfree_fblock p s = do {
     _ \<leftarrow> fbs s p;
     Some (module_put LANA_CORE (s\<lparr>fbs := (fbs s)(p := None)\<rparr>))
   }"

definition cleanup_fblock_ctor :: "ptr \<Rightarrow> 'p lana \<Rightarrow> 'p lana option" where
  "cleanup_fblock_ctor p s = mod_fb p (\<lambda>fb. fb\<lparr>others := None\<rparr>) s"

definition cleanup_fblock :: "'p fb_ops \<Rightarrow> ptr \<Rightarrow> 'p lana \<Rightarrow> 'p lana option" where
  "cleanup_fblock ops p s = do {
     fb \<leftarrow> fbs s p;
     (_, s) \<leftarrow> notify_fblock_subscribers ops p (FBLOCK_DOWN (fb_idp fb)) s;
     fb \<leftarrow> fbs s p;
     let s = (case factory fb of None \<Rightarrow> s | Some f \<Rightarrow> op_dtor ops f fb s);
     mod_fb p (\<lambda>fb. fb\<lparr>others := None\<rparr>) s
   }"

definition free_fblock_rcu :: "'p fb_ops \<Rightarrow> ptr \<Rightarrow> 'p lana \<Rightarrow> 'p lana option" where
  "free_fblock_rcu ops p s = do {
     s \<leftarrow> cleanup_fblock ops p s;
     kfree_fblock p s
   }"

definition fblock_namespace_do_free_rcu :: "ptr \<Rightarrow> 'p lana \<Rightarrow> 'p lana option" where
  "fblock_namespace_do_free_rcu p s = do {
     _ \<leftarrow> idp_elems s p;
     Some (s\<lparr>idp_elems := (idp_elems s)(p := None)\<rparr>)
   }"

fun rcu_callback :: "'p fb_ops \<Rightarrow> rcu_head \<Rightarrow> 'p lana \<Rightarrow> 'p lana option" where
  "rcu_callback ops (FreeFblock p) s = free_fblock_rcu ops p s"
| "rcu_callback ops (FreeElem p) s = fblock_namespace_do_free_rcu p s"

fun rcu_run :: "'p fb_ops \<Rightarrow> rcu_head list \<Rightarrow> 'p lana \<Rightarrow> 'p lana option" where
  "rcu_run ops [] s = Some s"
| "rcu_run ops (h # hs) s = do { s \<leftarrow> rcu_callback ops h s; rcu_run ops hs s }"

text \<open>The end of a grace period: the waiting callbacks run in order.\<close>

definition rcu_barrier :: "'p fb_ops \<Rightarrow> 'p lana \<Rightarrow> 'p lana option" where
  "rcu_barrier ops s = rcu_run ops (rcu s) (s\<lparr>rcu := []\<rparr>)"

text \<open>A proc directory is the list of the names of its entries.\<close>

definition proc_create :: "cstr \<Rightarrow> cstr list \<Rightarrow> cstr list" where
  "proc_create name dir = name # dir"

definition remove_proc_entry :: "cstr \<Rightarrow> cstr list \<Rightarrow> cstr list" where
  "remove_proc_entry name dir = remove1 name dir"

text \<open>The reference count of the node cache of \<open>xt_critbit.c\<close>; the cache is created with the
  first reference and destroyed, after a barrier, with the last.\<close>

definition get_critbit_cache :: "'p lana \<Rightarrow> 'p lana option" where
  "get_critbit_cache s =
     (if critbit_cache s = 0 then
        (let s = s\<lparr>critbit_cache := 1\<rparr>; (fails, s) = mem_fails s in
         if fails then None else Some s)
      else Some (s\<lparr>critbit_cache := critbit_cache s + 1\<rparr>))"

definition put_critbit_cache :: "'p fb_ops \<Rightarrow> 'p lana \<Rightarrow> 'p lana option" where
  "put_critbit_cache ops s =
     (let s = s\<lparr>critbit_cache := critbit_cache s - 1\<rparr> in
      if critbit_cache s \<noteq> 0 then Some s else rcu_barrier ops s)"

text \<open>Both error exits return \<open>ret\<close>, which is still 0.\<close>

definition init_fblock_tables :: "'p fb_ops \<Rightarrow> 'p lana \<Rightarrow> (int \<times> 'p lana) option" where
  "init_fblock_tables ops s = do {
     s \<leftarrow> get_critbit_cache s;
     let s = s\<lparr>idpmap := None\<rparr>;
     let (fails, s) = mem_fails s;
     if fails then do { s \<leftarrow> put_critbit_cache ops s; Some (0, s) }
     else do {
       let s = s\<lparr>idp_counter := 0\<rparr>;
       let (fails, s) = mem_fails s;
       if fails then do { s \<leftarrow> put_critbit_cache ops s; Some (0, s) }
       else Some (0, s\<lparr>lana_proc_dir := proc_create (lit ''fblocks'') (lana_proc_dir s)\<rparr>)
     }
   }"

definition cleanup_fblock_tables :: "'p fb_ops \<Rightarrow> 'p lana \<Rightarrow> 'p lana option" where
  "cleanup_fblock_tables ops s = do {
     let s = s\<lparr>lana_proc_dir := remove_proc_entry (lit ''fblocks'') (lana_proc_dir s)\<rparr>;
     s \<leftarrow> put_critbit_cache ops s;
     rcu_barrier ops s
   }"

definition factory_type :: "fb_module \<Rightarrow> cstr" where
  "factory_type m = (case m of
      FB_DUMMY \<Rightarrow> lit ''dummy'' | FB_TEE \<Rightarrow> lit ''tee'' | FB_COUNTER \<Rightarrow> lit ''counter''
    | FB_BPF \<Rightarrow> lit ''bpf'' | _ \<Rightarrow> [])"

text \<open>The lines of \<open>/proc/net/lana/fblocks\<close>, before formatting.\<close>

definition procfs_line ::
    "'p lana \<Rightarrow> nat \<Rightarrow> (cstr \<times> cstr \<times> ptr \<times> idp_t \<times> int \<times> idp_t list) list option" where
  "procfs_line s i =
     (case fblmap s (of_nat i) of
        None \<Rightarrow> Some []
      | Some p \<Rightarrow> do {
          fb \<leftarrow> fbs s p;
          fns \<leftarrow> those (map (nots s) (notifiers fb));
          Some [(fb_name fb, (case factory fb of None \<Rightarrow> lit ''vlink'' | Some f \<Rightarrow> factory_type f),
                 p, fb_idp fb, refcnt fb, map remote fns)]
        })"

definition procfs_fblocks ::
    "'p lana \<Rightarrow> (cstr \<times> cstr \<times> ptr \<times> idp_t \<times> int \<times> idp_t list) list option" where
  "procfs_fblocks s =
     map_option concat (those (map (procfs_line s) [0..<Suc (unat (idp_counter s))]))"

section \<open>Memory and store\<close>

abbreviation no_mem :: "'p lana \<Rightarrow> bool" where
  "no_mem s \<equiv> kmem s \<noteq> [] \<and> hd (kmem s)"

lemma slab_addr_eq [simp]: "slab_addr m = slab_addr n \<longleftrightarrow> m = n"
  by (simp add: slab_addr_def SMP_CACHE_BYTES_def)

lemma slab_addr_aligned [simp]: "slab_addr n mod SMP_CACHE_BYTES = 0"
  by (simp add: slab_addr_def)

lemma slab_addr_less: "n < m \<Longrightarrow> SMP_CACHE_BYTES * m < p \<Longrightarrow> p \<noteq> slab_addr n"
  by (auto simp: slab_addr_def SMP_CACHE_BYTES_def)

lemma slab_addr_top [simp]: "\<not> SMP_CACHE_BYTES + SMP_CACHE_BYTES * n < slab_addr n"
  by (simp add: slab_addr_def)

lemma mem_fails_eq: "mem_fails s = (no_mem s, s\<lparr>kmem := tl (kmem s)\<rparr>)"
  by (cases "kmem s") (simp_all add: mem_fails_def)

lemma mem_fails_Nil [simp]: "kmem s = [] \<Longrightarrow> mem_fails s = (False, s)"
  by (simp add: mem_fails_def)

lemma kmalloc_Nil:
  "kmem s = [] \<Longrightarrow>
     kmalloc s = (Some (slab_addr (heap_top s)), s\<lparr>heap_top := Suc (heap_top s)\<rparr>)"
  by (simp add: kmalloc_def)

lemma kmalloc_eq:
  "kmalloc s = (if no_mem s then (None, s\<lparr>kmem := tl (kmem s)\<rparr>)
     else (Some (slab_addr (heap_top s)),
           s\<lparr>heap_top := Suc (heap_top s), kmem := tl (kmem s)\<rparr>))"
  by (auto simp: kmalloc_def mem_fails_eq)

lemma upd_fb_simps [simp]:
  "fbs (upd_fb p fb s) = (fbs s)(p \<mapsto> fb)" "idpmap (upd_fb p fb s) = idpmap s"
  "idp_elems (upd_fb p fb s) = idp_elems s" "fblmap (upd_fb p fb s) = fblmap s"
  "idp_counter (upd_fb p fb s) = idp_counter s" "nots (upd_fb p fb s) = nots s"
  "rcu (upd_fb p fb s) = rcu s" "modrefs (upd_fb p fb s) = modrefs s"
  "heap_top (upd_fb p fb s) = heap_top s" "kmem (upd_fb p fb s) = kmem s"
  "critbit_cache (upd_fb p fb s) = critbit_cache s"
  "lana_proc_dir (upd_fb p fb s) = lana_proc_dir s"
  "fblock_proc_dir (upd_fb p fb s) = fblock_proc_dir s" "fbmap (upd_fb p fb s) = fbmap s"
  by (simp_all add: upd_fb_def)

lemma upd_fb_nots [simp]: "(upd_fb p fb s)\<lparr>nots := h\<rparr> = upd_fb p fb (s\<lparr>nots := h\<rparr>)"
  by (simp add: upd_fb_def)

lemma upd_fb_twice [simp]: "upd_fb p fb' (upd_fb p fb s) = upd_fb p fb' s"
  by (simp add: upd_fb_def)

lemma upd_fb_same: "fbs s p = Some fb \<Longrightarrow> upd_fb p fb s = s"
  by (simp add: upd_fb_def fun_upd_idem)

lemma upd_fb_commute: "p \<noteq> q \<Longrightarrow> upd_fb p a (upd_fb q b s) = upd_fb q b (upd_fb p a s)"
  by (simp add: upd_fb_def fun_upd_twist)

lemma elem_name_at_cong: "idp_elems s = idp_elems s' \<Longrightarrow> elem_name_at s = elem_name_at s'"
  by (simp add: elem_name_at_def fun_eq_iff)

lemma elem_name_at_upds [simp]:
  "elem_name_at (upd_fb p fb s) = elem_name_at s"
  "elem_name_at (s\<lparr>fblmap := m\<rparr>) = elem_name_at s"
  "elem_name_at (s\<lparr>idpmap := t\<rparr>) = elem_name_at s"
  "elem_name_at (s\<lparr>idp_counter := c\<rparr>) = elem_name_at s"
  "elem_name_at (s\<lparr>rcu := r\<rparr>) = elem_name_at s"
  "elem_name_at (s\<lparr>kmem := k\<rparr>) = elem_name_at s"
  "elem_name_at (s\<lparr>nots := n\<rparr>) = elem_name_at s"
  "elem_name_at (s\<lparr>fbs := b\<rparr>) = elem_name_at s"
  "elem_name_at (s\<lparr>modrefs := d\<rparr>) = elem_name_at s"
  "elem_name_at (s\<lparr>heap_top := h\<rparr>) = elem_name_at s"
  "elem_name_at (s\<lparr>fblock_proc_dir := ds\<rparr>) = elem_name_at s"
  by (rule elem_name_at_cong, simp)+

lemma elem_name_at_Some [simp]: "idp_elems s e = Some x \<Longrightarrow> elem_name_at s e = elem_name x"
  by (simp add: elem_name_at_def)

section \<open>Reference counts\<close>

lemma get_fblock_Some [simp]:
  "fbs s p = Some fb \<Longrightarrow> get_fblock p s = Some (upd_fb p (fb\<lparr>refcnt := refcnt fb + 1\<rparr>) s)"
  by (simp add: get_fblock_def mod_fb_def)

lemma mod_fb_Some [simp]: "fbs s p = Some fb \<Longrightarrow> mod_fb p f s = Some (upd_fb p (f fb) s)"
  by (simp add: mod_fb_def)

lemma put_fblock_shared [simp]:
  "fbs s p = Some fb \<Longrightarrow> refcnt fb \<noteq> 1 \<Longrightarrow>
     put_fblock ops p s = Some (upd_fb p (fb\<lparr>refcnt := refcnt fb - 1\<rparr>) s)"
  by (simp add: put_fblock_def)

lemma put_fblock_last:
  "fbs s p = Some fb \<Longrightarrow> refcnt fb = 1 \<Longrightarrow> factory fb = Some f \<Longrightarrow>
     put_fblock ops p s =
       Some ((upd_fb p (fb\<lparr>refcnt := 0,
                private_data := op_dtor_outside_rcu ops f (private_data fb)\<rparr>) s)
             \<lparr>rcu := rcu s @ [FreeFblock p]\<rparr>)"
  by (simp add: put_fblock_def Let_def)

text \<open>Every operation that takes a reference for its own use gives it back.\<close>

lemma put_get_fblock:
  assumes "fbs s p = Some fb" "0 < refcnt fb"
  shows "do { s \<leftarrow> get_fblock p s; put_fblock ops p s } = Some s"
  using assms by (simp add: upd_fb_same)

section \<open>Invariants of the tables\<close>

text \<open>No object above the top of the heap; the name tree is well formed and its elements are live;
  idp table and name space describe the same live blocks, under idps already handed out.\<close>

definition heap_inv :: "'p lana \<Rightarrow> bool" where
  "heap_inv s \<longleftrightarrow>
     (\<forall>p. SMP_CACHE_BYTES * heap_top s < p \<longrightarrow> fbs s p = None \<and> idp_elems s p = None \<and> nots s p = None)"

definition names_inv :: "'p lana \<Rightarrow> bool" where
  "names_inv s \<longleftrightarrow>
     critbit_inv (elem_name_at s) (idpmap s) \<and> critbit_elems (idpmap s) \<subseteq> dom (idp_elems s)"

definition registry_inv :: "'p lana \<Rightarrow> bool" where
  "registry_inv s \<longleftrightarrow>
     (\<forall>idp p. fblmap s idp = Some p \<longrightarrow>
        idp \<noteq> IDP_UNKNOWN \<and> unat idp \<le> unat (idp_counter s) \<and>
        (\<exists>fb. fbs s p = Some fb \<and> fb_idp fb = idp \<and>
              get_fblock_namespace_mapping (fb_name fb) s = idp)) \<and>
     (\<forall>name idp. get_fblock_namespace_mapping name s = idp \<longrightarrow> idp \<noteq> IDP_UNKNOWN \<longrightarrow>
        (\<exists>p fb. fblmap s idp = Some p \<and> fbs s p = Some fb \<and> fb_name fb = name))"

lemma heap_fresh:
  assumes "heap_inv s" "SMP_CACHE_BYTES * heap_top s < q"
  shows "fbs s q = None" "idp_elems s q = None" "nots s q = None"
  using assms by (simp_all add: heap_inv_def)

lemma slab_addr_fresh:
  assumes "heap_inv s" "heap_top s \<le> n"
  shows "fbs s (slab_addr n) = None" "idp_elems s (slab_addr n) = None" "nots s (slab_addr n) = None"
proof -
  have "SMP_CACHE_BYTES * heap_top s < slab_addr n"
    using assms(2) by (simp add: slab_addr_def SMP_CACHE_BYTES_def)
  then show "fbs s (slab_addr n) = None" "idp_elems s (slab_addr n) = None" "nots s (slab_addr n) = None"
    using heap_fresh[OF assms(1)] by simp_all
qed

lemma heap_invI:
  assumes "heap_inv s" "heap_top s \<le> heap_top s'"
    and "\<And>p. SMP_CACHE_BYTES * heap_top s' < p \<Longrightarrow> fbs s p = None \<Longrightarrow> fbs s' p = None"
    and "\<And>p. SMP_CACHE_BYTES * heap_top s' < p \<Longrightarrow> idp_elems s p = None \<Longrightarrow> idp_elems s' p = None"
    and "\<And>p. SMP_CACHE_BYTES * heap_top s' < p \<Longrightarrow> nots s p = None \<Longrightarrow> nots s' p = None"
  shows "heap_inv s'"
proof -
  have "SMP_CACHE_BYTES * heap_top s < p" if "SMP_CACHE_BYTES * heap_top s' < p" for p
    using mult_le_mono2[OF assms(2)] that by (rule le_less_trans)
  with assms show ?thesis by (simp add: heap_inv_def)
qed

lemma registry_idpD:
  assumes "registry_inv s" "fblmap s idp = Some p"
  obtains fb where "fbs s p = Some fb" "fb_idp fb = idp" "idp \<noteq> IDP_UNKNOWN"
    "unat idp \<le> unat (idp_counter s)" "get_fblock_namespace_mapping (fb_name fb) s = idp"
  using assms unfolding registry_inv_def by blast

lemma registry_nameD:
  assumes "registry_inv s" "get_fblock_namespace_mapping name s \<noteq> IDP_UNKNOWN"
  obtains p fb where "fblmap s (get_fblock_namespace_mapping name s) = Some p" "fbs s p = Some fb"
    "fb_name fb = name"
  using assms unfolding registry_inv_def by blast

lemma registry_invI:
  assumes "\<And>idp p. fblmap s idp = Some p \<Longrightarrow> idp \<noteq> IDP_UNKNOWN \<and> unat idp \<le> unat (idp_counter s) \<and>
        (\<exists>fb. fbs s p = Some fb \<and> fb_idp fb = idp \<and> get_fblock_namespace_mapping (fb_name fb) s = idp)"
    and "\<And>name. get_fblock_namespace_mapping name s \<noteq> IDP_UNKNOWN \<Longrightarrow>
        \<exists>p fb. fblmap s (get_fblock_namespace_mapping name s) = Some p \<and> fbs s p = Some fb \<and> fb_name fb = name"
  shows "registry_inv s"
  unfolding registry_inv_def using assms by blast

lemma critbit_get_cong:
  "(\<And>p. p \<in> critbit_elems t \<Longrightarrow> nm p = nm' p) \<Longrightarrow> critbit_get nm t u = critbit_get nm' t u"
  by (cases t) (simp_all add: critbit_get_def critbit_elems_def)

text \<open>What \<^const>\<open>register_to_fblock_namespace\<close> does on each of its branches.\<close>

lemma register_to_exists:
  "names_inv s \<Longrightarrow> critbit_get (elem_name_at s) (idpmap s) name \<noteq> None \<Longrightarrow>
     register_to_fblock_namespace name val s = Some (- EEXIST, s)"
  by (simp add: register_to_fblock_namespace_def names_inv_def cb.contains_get)

lemma register_to_new:
  fixes s :: "'p lana" and val :: idp_t
  assumes inv: "heap_inv s" "names_inv s" and mem: "kmem s = []"
    and name: "is_cstr name" "length name < FBNAMSIZ"
    and new: "critbit_get (elem_name_at s) (idpmap s) name = None"
  defines "e \<equiv> slab_addr (heap_top s)"
  defines "h \<equiv> (idp_elems s)(e \<mapsto> \<lparr>elem_name = name, elem_idp = val\<rparr>)"
  shows "\<exists>t. register_to_fblock_namespace name val s =
           Some (0, s\<lparr>heap_top := Suc (heap_top s), idp_elems := h, idpmap := t\<rparr>) \<and>
         names_inv (s\<lparr>heap_top := Suc (heap_top s), idp_elems := h, idpmap := t\<rparr>) \<and>
         (\<forall>u. critbit_get (elem_name_at (s\<lparr>idp_elems := h\<rparr>)) t u =
              (if u = name then Some e else critbit_get (elem_name_at s) (idpmap s) u)) \<and>
         critbit_delete (elem_name_at (s\<lparr>idp_elems := h\<rparr>)) t name = (0, idpmap s)"
proof -
  let ?s = "s\<lparr>heap_top := Suc (heap_top s), idp_elems := h\<rparr>"
  let ?nm = "elem_name_at (s\<lparr>idp_elems := h\<rparr>)"
  have e: "?nm e = name" by (simp add: elem_name_at_def h_def)
  have fresh: "e \<notin> dom (idp_elems s)"
    using slab_addr_fresh(2)[OF inv(1)] by (auto simp: e_def)
  have old: "?nm p = elem_name_at s p" if "p \<in> critbit_elems (idpmap s)" for p
    using that inv(2) fresh by (auto simp: names_inv_def elem_name_at_def h_def)
  have cbi: "critbit_inv ?nm (idpmap s)"
    using inv(2) critbit_inv_cong[OF old] by (simp add: names_inv_def)
  have get: "critbit_get ?nm (idpmap s) u = critbit_get (elem_name_at s) (idpmap s) u" for u
    by (rule critbit_get_cong) (rule old)
  have ne: "\<And>p. p \<in> critbit_elems (idpmap s) \<Longrightarrow> ?nm p \<noteq> ?nm e"
    using new cb.get_None_iff[OF cbi] get e by simp
  have al: "e mod SMP_CACHE_BYTES = 0" "is_cstr (?nm e)"
    unfolding e using name by (simp_all add: e_def)
  from critbit_insert_new[OF cbi al(2,1) ne, of False]
  obtain t where t: "critbit_insert ?nm False (idpmap s) e = Some (0, t)" "critbit_inv ?nm t"
    "critbit_elems t = insert e (critbit_elems (idpmap s))" "critbit_delete ?nm t name = (0, idpmap s)"
    by (auto simp: e)
  have nm: "elem_name_at (s\<lparr>heap_top := Suc (heap_top s), idp_elems := h, idpmap := t\<rparr>) = ?nm"
    "elem_name_at ?s = ?nm"
    by (rule elem_name_at_cong, simp)+
  have "kmalloc s = (Some e, s\<lparr>heap_top := Suc (heap_top s)\<rparr>)"
    using mem unfolding e_def by (rule kmalloc_Nil)
  then have "register_to_fblock_namespace name val s = Some (0, ?s\<lparr>idpmap := t\<rparr>)"
    using name new inv(2) t(1) mem nm
    by (simp add: register_to_fblock_namespace_def cb.contains_get names_inv_def
        strlcpy_def Let_def flip: h_def)
  moreover have "names_inv (?s\<lparr>idpmap := t\<rparr>)"
    using t inv(2) nm by (auto simp: names_inv_def h_def)
  ultimately show ?thesis
    using cb.get_ins[OF cbi al(2,1) t(1)] get t(4) by (auto simp: e)
qed

lemma unat_new_idp:
  fixes c :: u64
  assumes "unat c < 2 ^ 32 - 1"
  shows "unat (ucast (c + 1) :: idp_t) = unat c + 1" "unat (c + 1) = unat c + 1"
proof -
  show c: "unat (c + 1) = unat c + 1"
    using assms by (subst unat_add_lem[THEN iffD1]) simp_all
  then show "unat (ucast (c + 1) :: idp_t) = unat c + 1"
    using assms by (simp add: unsigned_ucast_eq take_bit_eq_mod)
qed

lemma new_idp_unused:
  assumes "registry_inv s" "unat (idp_counter s) < 2 ^ 32 - 1"
  defines "idp \<equiv> (ucast (idp_counter s + 1) :: idp_t)"
  shows "fblmap s idp = None" "idp \<noteq> IDP_UNKNOWN"
proof -
  have u: "unat idp = unat (idp_counter s) + 1"
    unfolding idp_def by (rule unat_new_idp[OF assms(2)])
  then show "idp \<noteq> IDP_UNKNOWN" by (auto simp: IDP_UNKNOWN_def)
  show "fblmap s idp = None"
  proof (cases "fblmap s idp")
    case (Some p)
    then have "unat idp \<le> unat (idp_counter s)"
      using assms(1) by (auto simp: registry_inv_def)
    with u show ?thesis by simp
  qed
qed

lemma mapping_unknown:
  "critbit_get (elem_name_at s) (idpmap s) name = None \<Longrightarrow>
     get_fblock_namespace_mapping name s = IDP_UNKNOWN"
  by (simp add: get_fblock_namespace_mapping_def)

lemma mapping_cong:
  "idpmap s = idpmap s' \<Longrightarrow> idp_elems s = idp_elems s' \<Longrightarrow>
     get_fblock_namespace_mapping u s = get_fblock_namespace_mapping u s'"
  using elem_name_at_cong[of s s'] by (simp add: get_fblock_namespace_mapping_def cong: option.case_cong)

lemma names_inv_cong:
  "idpmap s = idpmap s' \<Longrightarrow> idp_elems s = idp_elems s' \<Longrightarrow> names_inv s = names_inv s'"
  using elem_name_at_cong[of s s'] by (simp add: names_inv_def)

lemma mapping_upds [simp]:
  "get_fblock_namespace_mapping u (upd_fb p fb s) = get_fblock_namespace_mapping u s"
  "get_fblock_namespace_mapping u (s\<lparr>fblmap := m\<rparr>) = get_fblock_namespace_mapping u s"
  "get_fblock_namespace_mapping u (s\<lparr>idp_counter := c\<rparr>) = get_fblock_namespace_mapping u s"
  "get_fblock_namespace_mapping u (s\<lparr>rcu := r\<rparr>) = get_fblock_namespace_mapping u s"
  "get_fblock_namespace_mapping u (s\<lparr>kmem := k\<rparr>) = get_fblock_namespace_mapping u s"
  "get_fblock_namespace_mapping u (s\<lparr>heap_top := h\<rparr>) = get_fblock_namespace_mapping u s"
  "get_fblock_namespace_mapping u (s\<lparr>nots := n\<rparr>) = get_fblock_namespace_mapping u s"
  "get_fblock_namespace_mapping u (s\<lparr>fbs := b\<rparr>) = get_fblock_namespace_mapping u s"
  "get_fblock_namespace_mapping u (s\<lparr>modrefs := d\<rparr>) = get_fblock_namespace_mapping u s"
  by (rule mapping_cong, simp, simp)+

lemma register_to_mapping:
  fixes s :: "'p lana" and val :: idp_t
  assumes inv: "heap_inv s" "names_inv s" and mem: "kmem s = []"
    and name: "is_cstr name" "length name < FBNAMSIZ"
    and new: "critbit_get (elem_name_at s) (idpmap s) name = None"
  obtains s' where "register_to_fblock_namespace name val s = Some (0, s')"
    "names_inv s'" "heap_inv s'" "kmem s' = []" "fblmap s' = fblmap s" "fbs s' = fbs s"
    "idp_counter s' = idp_counter s" "nots s' = nots s" "rcu s' = rcu s" "modrefs s' = modrefs s"
    "\<And>u. get_fblock_namespace_mapping u s' =
            (if u = name then val else get_fblock_namespace_mapping u s)"
    "\<exists>e. critbit_get (elem_name_at s') (idpmap s') name = Some e"
    "critbit_delete (elem_name_at s') (idpmap s') name = (0, idpmap s)"
    "\<forall>u. u \<noteq> name \<longrightarrow> critbit_get (elem_name_at s') (idpmap s') u = critbit_get (elem_name_at s) (idpmap s) u"
proof -
  define e where "e = slab_addr (heap_top s)"
  define h where "h = (idp_elems s)(e \<mapsto> \<lparr>elem_name = name, elem_idp = val\<rparr>)"
  obtain t where t: "register_to_fblock_namespace name val s =
           Some (0, s\<lparr>heap_top := Suc (heap_top s), idp_elems := h, idpmap := t\<rparr>)"
     "names_inv (s\<lparr>heap_top := Suc (heap_top s), idp_elems := h, idpmap := t\<rparr>)"
     "\<And>u. critbit_get (elem_name_at (s\<lparr>idp_elems := h\<rparr>)) t u =
              (if u = name then Some e else critbit_get (elem_name_at s) (idpmap s) u)"
     "critbit_delete (elem_name_at (s\<lparr>idp_elems := h\<rparr>)) t name = (0, idpmap s)"
    using register_to_new[OF assms, of val] unfolding h_def e_def by blast
  let ?s = "s\<lparr>heap_top := Suc (heap_top s), idp_elems := h, idpmap := t\<rparr>"
  have nm: "elem_name_at ?s = elem_name_at (s\<lparr>idp_elems := h\<rparr>)"
    by (rule elem_name_at_cong) simp
  have fresh: "e \<notin> dom (idp_elems s)"
    using slab_addr_fresh(2)[OF inv(1)] by (auto simp: e_def)
  have get: "critbit_get (elem_name_at ?s) (idpmap ?s) u =
      (if u = name then Some e else critbit_get (elem_name_at s) (idpmap s) u)" for u
    unfolding nm using t(3) by simp
  have "critbit_get (elem_name_at s) (idpmap s) u \<noteq> Some e" for u
    using fresh inv(2) critbit_get_iff[of "elem_name_at s" "idpmap s" u e] by (auto simp: names_inv_def)
  then have map: "get_fblock_namespace_mapping u ?s =
      (if u = name then val else get_fblock_namespace_mapping u s)" for u
    unfolding get_fblock_namespace_mapping_def get by (simp add: h_def split: option.split)
  have "heap_inv ?s" by (rule heap_invI[OF inv(1)]) (auto simp: h_def e_def slab_addr_less)
  then show ?thesis
    using t(1,2) map mem t(3) t(4) nm by (intro that[of ?s]) simp_all
qed

lemma register_fblock_namespace_new:
  fixes s :: "'p lana"
  assumes inv: "heap_inv s" "names_inv s" "registry_inv s" and mem: "kmem s = []"
    and cnt: "unat (idp_counter s) < 2 ^ 32 - 1"
    and fb: "fbs s p = Some fb" "p \<notin> ran (fblmap s)"
    and name: "is_cstr (fb_name fb)" "length (fb_name fb) < FBNAMSIZ"
    and new: "critbit_get (elem_name_at s) (idpmap s) (fb_name fb) = None"
  defines "idp \<equiv> ucast (idp_counter s + 1)"
  obtains s' where "register_fblock_namespace p s = Some (0, s')"
    "heap_inv s'" "names_inv s'" "registry_inv s'" "kmem s' = []"
    "fblmap s' = (fblmap s)(idp \<mapsto> p)" "fbs s' = (fbs s)(p \<mapsto> fb\<lparr>fb_idp := idp\<rparr>)"
    "idp_counter s' = idp_counter s + 1" "nots s' = nots s" "rcu s' = rcu s" "modrefs s' = modrefs s"
    "\<And>u. get_fblock_namespace_mapping u s' =
            (if u = fb_name fb then idp else get_fblock_namespace_mapping u s)"
    "\<exists>e. critbit_get (elem_name_at s') (idpmap s') (fb_name fb) = Some e"
    "critbit_delete (elem_name_at s') (idpmap s') (fb_name fb) = (0, idpmap s)"
    "\<forall>u. u \<noteq> fb_name fb \<longrightarrow> critbit_get (elem_name_at s') (idpmap s') u = critbit_get (elem_name_at s) (idpmap s) u"
proof -
  let ?fb = "fb\<lparr>fb_idp := idp\<rparr>"
  let ?s1 = "(upd_fb p ?fb (s\<lparr>idp_counter := idp_counter s + 1\<rparr>))\<lparr>fblmap := (fblmap s)(idp \<mapsto> p)\<rparr>"
  have unused: "fblmap s idp = None" "idp \<noteq> IDP_UNKNOWN"
    using new_idp_unused[OF inv(3) cnt] by (simp_all add: idp_def)
  have "heap_inv ?s1" by (rule heap_invI[OF inv(1)]) (use fb in auto)
  then have i1: "heap_inv ?s1" "names_inv ?s1" "kmem ?s1 = []"
    using inv mem names_inv_cong[of ?s1 s] by auto
  obtain s' where s': "register_to_fblock_namespace (fb_name fb) idp ?s1 = Some (0, s')"
    "names_inv s'" "heap_inv s'" "kmem s' = []" "fblmap s' = fblmap ?s1" "fbs s' = fbs ?s1"
    "idp_counter s' = idp_counter ?s1" "nots s' = nots ?s1" "rcu s' = rcu ?s1" "modrefs s' = modrefs ?s1"
    "\<And>u. get_fblock_namespace_mapping u s' =
            (if u = fb_name fb then idp else get_fblock_namespace_mapping u ?s1)"
    "\<exists>e. critbit_get (elem_name_at s') (idpmap s') (fb_name fb) = Some e"
    "critbit_delete (elem_name_at s') (idpmap s') (fb_name fb) = (0, idpmap ?s1)"
    "\<forall>u. u \<noteq> fb_name fb \<longrightarrow>
       critbit_get (elem_name_at s') (idpmap s') u = critbit_get (elem_name_at ?s1) (idpmap ?s1) u"
    by (rule register_to_mapping[OF i1 name, of idp]) (use new in auto)
  have reg: "register_fblock_namespace p s = Some (0, s')"
    using fb mem s'(1) unused
    by (simp add: register_fblock_namespace_def provide_new_fblock_idp_def radix_tree_insert_def
        Let_def flip: idp_def)
  have old: "fblmap s i \<noteq> Some p" for i
    using fb(2) by (auto simp: ran_def)
  have new0: "get_fblock_namespace_mapping (fb_name fb) s = IDP_UNKNOWN"
    using new by (rule mapping_unknown)
  have cnt': "unat idp = unat (idp_counter s) + 1" "unat (idp_counter s + 1) = unat (idp_counter s) + 1"
    unfolding idp_def by (rule unat_new_idp[OF cnt])+
  have map: "get_fblock_namespace_mapping u s' =
      (if u = fb_name fb then idp else get_fblock_namespace_mapping u s)" for u
    using s'(11) by simp
  have "registry_inv s'"
  proof (rule registry_invI)
    fix i q assume iq: "fblmap s' i = Some q"
    show "i \<noteq> IDP_UNKNOWN \<and> unat i \<le> unat (idp_counter s') \<and>
        (\<exists>fb. fbs s' q = Some fb \<and> fb_idp fb = i \<and> get_fblock_namespace_mapping (fb_name fb) s' = i)"
    proof (cases "i = idp")
      case True
      then show ?thesis using iq unused s'(5-7) cnt' map by simp
    next
      case False
      then have "fblmap s i = Some q" using iq s'(5) by simp
      from registry_idpD[OF inv(3) this] obtain fq where
        q: "fbs s q = Some fq" "fb_idp fq = i" "i \<noteq> IDP_UNKNOWN" "unat i \<le> unat (idp_counter s)"
        "get_fblock_namespace_mapping (fb_name fq) s = i" .
      then have "fb_name fq \<noteq> fb_name fb" "q \<noteq> p"
        using new0 old \<open>fblmap s i = Some q\<close> by auto
      then show ?thesis using q s'(6,7) cnt' map by simp
    qed
  next
    fix u assume u: "get_fblock_namespace_mapping u s' \<noteq> IDP_UNKNOWN"
    show "\<exists>p fb. fblmap s' (get_fblock_namespace_mapping u s') = Some p \<and> fbs s' p = Some fb \<and> fb_name fb = u"
    proof (cases "u = fb_name fb")
      case True
      then show ?thesis using s'(5,6) map by simp
    next
      case False
      with u registry_nameD[OF inv(3), of u] map obtain q fq where
        q: "fblmap s (get_fblock_namespace_mapping u s) = Some q" "fbs s q = Some fq" "fb_name fq = u"
        by metis
      then have "q \<noteq> p" "get_fblock_namespace_mapping u s \<noteq> idp" using old unused by auto
      then show ?thesis using q s'(5,6) map False by simp
    qed
  qed
  with reg s' map show ?thesis by (intro that[of s']) simp_all
qed

lemma unregister_from_present:
  assumes inv: "names_inv s" and e: "critbit_get (elem_name_at s) (idpmap s) name = Some e"
  obtains t where "unregister_from_fblock_namespace name s =
        (0, s\<lparr>idpmap := t, rcu := rcu s @ [FreeElem e]\<rparr>)"
    "names_inv (s\<lparr>idpmap := t, rcu := rcu s @ [FreeElem e]\<rparr>)"
    "critbit_delete (elem_name_at s) (idpmap s) name = (0, t)"
    "e \<notin> critbit_elems t"
    "\<forall>u. get_fblock_namespace_mapping u (s\<lparr>idpmap := t\<rparr>) =
       (if u = name then IDP_UNKNOWN else get_fblock_namespace_mapping u s)"
proof -
  have cbi: "critbit_inv (elem_name_at s) (idpmap s)" using inv by (simp add: names_inv_def)
  then have name: "elem_name_at s e = name" using e critbit_get_iff by blast
  obtain r t where d: "critbit_delete (elem_name_at s) (idpmap s) name = (r, t)"
    by (cases "critbit_delete (elem_name_at s) (idpmap s) name")
  note del = cb.get_del[OF cbi e d]
  have "get_fblock_namespace_mapping u (s\<lparr>idpmap := t\<rparr>) =
       (if u = name then IDP_UNKNOWN else get_fblock_namespace_mapping u s)" for u
    by (simp add: get_fblock_namespace_mapping_def del(4) cong: option.case_cong)
  moreover have "names_inv (s\<lparr>idpmap := t, rcu := rcu s @ [FreeElem e]\<rparr>)"
    using del inv by (auto simp: names_inv_def)
  ultimately show ?thesis
    using that[of t] d del e name by (simp add: unregister_from_fblock_namespace_def)
qed

lemma unregister_from_absent:
  "critbit_get (elem_name_at s) (idpmap s) name = None \<Longrightarrow>
     unregister_from_fblock_namespace name s = (- ENOENT, s)"
  by (simp add: unregister_from_fblock_namespace_def)

lemma mapping_known:
  "get_fblock_namespace_mapping name s \<noteq> IDP_UNKNOWN \<Longrightarrow>
     \<exists>e. critbit_get (elem_name_at s) (idpmap s) name = Some e"
  by (auto simp: get_fblock_namespace_mapping_def split: option.splits)

lemma registry_inv_delete:
  assumes inv: "registry_inv s" and fb: "fblmap s (fb_idp fb) = Some p" "fbs s p = Some fb"
    and s': "fblmap s' = (fblmap s)(fb_idp fb := None)" "idp_counter s' = idp_counter s"
      "\<And>q. q \<noteq> p \<Longrightarrow> fbs s' q = fbs s q"
      "\<And>u. get_fblock_namespace_mapping u s' =
         (if u = fb_name fb then IDP_UNKNOWN else get_fblock_namespace_mapping u s)"
  shows "registry_inv s'"
proof (rule registry_invI)
  have name: "get_fblock_namespace_mapping (fb_name fb) s = fb_idp fb"
    by (rule registry_idpD[OF inv fb(1)]) (use fb(2) in simp)
  fix i q assume "fblmap s' i = Some q"
  then have q: "fblmap s i = Some q" "i \<noteq> fb_idp fb" using s'(1) by (auto split: if_splits)
  from registry_idpD[OF inv q(1)] obtain fq where f: "fbs s q = Some fq" "fb_idp fq = i"
    "i \<noteq> IDP_UNKNOWN" "unat i \<le> unat (idp_counter s)" "get_fblock_namespace_mapping (fb_name fq) s = i" .
  then have "q \<noteq> p" "fb_name fq \<noteq> fb_name fb" using q(2) fb(2) name by auto
  then show "i \<noteq> IDP_UNKNOWN \<and> unat i \<le> unat (idp_counter s') \<and>
        (\<exists>fb. fbs s' q = Some fb \<and> fb_idp fb = i \<and> get_fblock_namespace_mapping (fb_name fb) s' = i)"
    using f s' by simp
next
  fix u assume "get_fblock_namespace_mapping u s' \<noteq> IDP_UNKNOWN"
  then have u: "u \<noteq> fb_name fb" "get_fblock_namespace_mapping u s \<noteq> IDP_UNKNOWN"
    using s'(4) by (auto split: if_splits)
  from registry_nameD[OF inv u(2)] obtain q fq where q: "fbs s q = Some fq" "fb_name fq = u"
    "fblmap s (get_fblock_namespace_mapping u s) = Some q" .
  moreover from this u have "q \<noteq> p" using fb(2) by auto
  moreover from this q(1,3) have "get_fblock_namespace_mapping u s \<noteq> fb_idp fb"
    using fb(1) by auto
  ultimately show "\<exists>p fb. fblmap s' (get_fblock_namespace_mapping u s') = Some p \<and> fbs s' p = Some fb \<and> fb_name fb = u"
    using s' u(1) by simp
qed

lemma registry_inv_same:
  assumes inv: "registry_inv s"
    and s': "fblmap s' = fblmap s" "idp_counter s' = idp_counter s"
      "\<And>u. get_fblock_namespace_mapping u s' = get_fblock_namespace_mapping u s"
    and fbs: "\<And>i p fb. fblmap s i = Some p \<Longrightarrow> fbs s p = Some fb \<Longrightarrow>
        \<exists>fb'. fbs s' p = Some fb' \<and> fb_idp fb' = fb_idp fb \<and> fb_name fb' = fb_name fb"
  shows "registry_inv s'"
proof (rule registry_invI)
  fix i q assume "fblmap s' i = Some q"
  then have q: "fblmap s i = Some q" by (simp add: s')
  from registry_idpD[OF inv q] obtain fq where f: "fbs s q = Some fq" "fb_idp fq = i"
    "i \<noteq> IDP_UNKNOWN" "unat i \<le> unat (idp_counter s)" "get_fblock_namespace_mapping (fb_name fq) s = i" .
  with fbs[OF q f(1)] show "i \<noteq> IDP_UNKNOWN \<and> unat i \<le> unat (idp_counter s') \<and>
        (\<exists>fb. fbs s' q = Some fb \<and> fb_idp fb = i \<and> get_fblock_namespace_mapping (fb_name fb) s' = i)"
    by (auto simp: s')
next
  fix u assume "get_fblock_namespace_mapping u s' \<noteq> IDP_UNKNOWN"
  then have "get_fblock_namespace_mapping u s \<noteq> IDP_UNKNOWN" by (simp add: s')
  from registry_nameD[OF inv this] obtain q fq where
    q: "fblmap s (get_fblock_namespace_mapping u s) = Some q" "fbs s q = Some fq" "fb_name fq = u" .
  from fbs[OF q(1,2)] q show "\<exists>p fb. fblmap s' (get_fblock_namespace_mapping u s') = Some p \<and> fbs s' p = Some fb \<and> fb_name fb = u"
    by (auto simp: s')
qed

lemma unregister_fblock_namespace_no_rcu_known:
  assumes inv: "names_inv s" "registry_inv s"
    and fb: "fblmap s (fb_idp fb) = Some p" "fbs s p = Some fb"
  obtains t e where "unregister_fblock_namespace_no_rcu ops p s =
      Some (s\<lparr>idpmap := t, fblmap := (fblmap s)(fb_idp fb := None), rcu := rcu s @ [FreeElem e]\<rparr>)"
    "names_inv (s\<lparr>idpmap := t, fblmap := (fblmap s)(fb_idp fb := None), rcu := rcu s @ [FreeElem e]\<rparr>)"
    "registry_inv (s\<lparr>idpmap := t, fblmap := (fblmap s)(fb_idp fb := None), rcu := rcu s @ [FreeElem e]\<rparr>)"
    "critbit_delete (elem_name_at s) (idpmap s) (fb_name fb) = (0, t)"
    "\<forall>u. get_fblock_namespace_mapping u (s\<lparr>idpmap := t\<rparr>) =
       (if u = fb_name fb then IDP_UNKNOWN else get_fblock_namespace_mapping u s)"
proof -
  have name: "get_fblock_namespace_mapping (fb_name fb) s \<noteq> IDP_UNKNOWN"
    by (rule registry_idpD[OF inv(2) fb(1)]) (use fb(2) in simp)
  then obtain e where e: "critbit_get (elem_name_at s) (idpmap s) (fb_name fb) = Some e"
    using mapping_known by blast
  let ?s1 = "radix_tree_delete (fb_idp fb) s"
  have i1: "names_inv ?s1" "critbit_get (elem_name_at ?s1) (idpmap ?s1) (fb_name fb) = Some e"
    using inv(1) e by (simp_all add: radix_tree_delete_def names_inv_def)
  from unregister_from_present[OF i1] obtain t where t:
    "unregister_from_fblock_namespace (fb_name fb) ?s1 =
        (0, ?s1\<lparr>idpmap := t, rcu := rcu ?s1 @ [FreeElem e]\<rparr>)"
    "names_inv (?s1\<lparr>idpmap := t, rcu := rcu ?s1 @ [FreeElem e]\<rparr>)"
    "critbit_delete (elem_name_at ?s1) (idpmap ?s1) (fb_name fb) = (0, t)"
    "e \<notin> critbit_elems t"
    "\<forall>u. get_fblock_namespace_mapping u (?s1\<lparr>idpmap := t\<rparr>) =
       (if u = fb_name fb then IDP_UNKNOWN else get_fblock_namespace_mapping u ?s1)" .
  let ?s2 = "s\<lparr>idpmap := t, fblmap := (fblmap s)(fb_idp fb := None), rcu := rcu s @ [FreeElem e]\<rparr>"
  have eq: "?s1\<lparr>idpmap := t, rcu := rcu ?s1 @ [FreeElem e]\<rparr> = ?s2" by (simp add: radix_tree_delete_def)
  have un: "unregister_fblock_namespace_no_rcu ops p s = Some ?s2"
    using fb t(1) by (simp add: unregister_fblock_namespace_no_rcu_def unregister_fblock_namespace_rcu_def
        radix_tree_delete_def)
  have map: "get_fblock_namespace_mapping u (s\<lparr>idpmap := t\<rparr>) =
       (if u = fb_name fb then IDP_UNKNOWN else get_fblock_namespace_mapping u s)" for u
  proof -
    have "get_fblock_namespace_mapping u (s\<lparr>idpmap := t\<rparr>) = get_fblock_namespace_mapping u (?s1\<lparr>idpmap := t\<rparr>)"
      by (rule mapping_cong) (simp_all add: radix_tree_delete_def)
    then show ?thesis using t(5) by (simp add: radix_tree_delete_def)
  qed
  have "registry_inv ?s2"
    by (rule registry_inv_delete[OF inv(2) fb(1,2)]) (use map in simp_all)
  with that[of e t] un t(2,3) map show ?thesis unfolding eq by (simp add: radix_tree_delete_def)
qed

lemma unregister_fblock_namespace_alt:
  "unregister_fblock_namespace ops p s = do { s \<leftarrow> unregister_fblock_namespace_no_rcu ops p s; put_fblock ops p s }"
  by (cases "fbs s p") (simp_all add: unregister_fblock_namespace_def unregister_fblock_namespace_no_rcu_def
      unregister_fblock_namespace_rcu_def split: prod.splits)

lemma unregister_fblock_namespace_shared:
  assumes inv: "names_inv s" "registry_inv s"
    and fb: "fblmap s (fb_idp fb) = Some p" "fbs s p = Some fb" "1 < refcnt fb"
  obtains s' t e where "unregister_fblock_namespace ops p s = Some s'" "names_inv s'" "registry_inv s'"
    "fblmap s' = (fblmap s)(fb_idp fb := None)" "fbs s' = (fbs s)(p \<mapsto> fb\<lparr>refcnt := refcnt fb - 1\<rparr>)"
    "idpmap s' = t" "critbit_delete (elem_name_at s) (idpmap s) (fb_name fb) = (0, t)"
    "\<forall>u. get_fblock_namespace_mapping u s' =
       (if u = fb_name fb then IDP_UNKNOWN else get_fblock_namespace_mapping u s)"
    "rcu s' = rcu s @ [FreeElem e]"
proof -
  obtain t e where t: "unregister_fblock_namespace_no_rcu ops p s =
      Some (s\<lparr>idpmap := t, fblmap := (fblmap s)(fb_idp fb := None), rcu := rcu s @ [FreeElem e]\<rparr>)"
    "names_inv (s\<lparr>idpmap := t, fblmap := (fblmap s)(fb_idp fb := None), rcu := rcu s @ [FreeElem e]\<rparr>)"
    "registry_inv (s\<lparr>idpmap := t, fblmap := (fblmap s)(fb_idp fb := None), rcu := rcu s @ [FreeElem e]\<rparr>)"
    "critbit_delete (elem_name_at s) (idpmap s) (fb_name fb) = (0, t)"
    "\<forall>u. get_fblock_namespace_mapping u (s\<lparr>idpmap := t\<rparr>) =
       (if u = fb_name fb then IDP_UNKNOWN else get_fblock_namespace_mapping u s)"
    by (rule unregister_fblock_namespace_no_rcu_known[OF inv fb(1,2)])
  let ?s1 = "s\<lparr>idpmap := t, fblmap := (fblmap s)(fb_idp fb := None), rcu := rcu s @ [FreeElem e]\<rparr>"
  let ?s2 = "upd_fb p (fb\<lparr>refcnt := refcnt fb - 1\<rparr>) ?s1"
  have "names_inv ?s2" using t(2) by (simp add: names_inv_def)
  moreover have "registry_inv ?s2"
    by (rule registry_inv_same[OF t(3)]) (use fb(2) in auto)
  ultimately show ?thesis
    using that[of ?s2 t e] t(1,4,5) fb by (simp add: unregister_fblock_namespace_alt)
qed

lemma search_fblock_known:
  assumes "fblmap s idp = Some p" "fbs s p = Some fb" "idp \<noteq> IDP_UNKNOWN"
  shows "search_fblock idp s = Some (Some p, upd_fb p (fb\<lparr>refcnt := refcnt fb + 1\<rparr>) s)"
  using assms by (simp add: search_fblock_def search_fblock_rcu_def)

lemma search_fblock_n_known:
  assumes "get_fblock_namespace_mapping name s = idp" "fblmap s idp = Some p" "fbs s p = Some fb"
  shows "search_fblock_n name s = Some (Some p, upd_fb p (fb\<lparr>refcnt := refcnt fb + 1\<rparr>) s)"
  using assms by (simp add: search_fblock_n_def search_fblock_rcu_def)

lemma registry_unknown_idp: "registry_inv s \<Longrightarrow> fblmap s IDP_UNKNOWN = None"
  by (cases "fblmap s IDP_UNKNOWN") (auto elim: registry_idpD)

lemma search_fblock_n_unknown:
  "registry_inv s \<Longrightarrow> get_fblock_namespace_mapping name s = IDP_UNKNOWN \<Longrightarrow>
     search_fblock_n name s = Some (None, s)"
  by (simp add: search_fblock_n_def search_fblock_rcu_def registry_unknown_idp)

section \<open>Bindings\<close>

lemma event_rx_call_Some [simp]:
  "fbs s p = Some fb \<Longrightarrow> op_event ops (event_rx fb) e (private_data fb) = Some (r, priv) \<Longrightarrow>
     event_rx_call ops p e s = Some (r, upd_fb p (fb\<lparr>private_data := priv\<rparr>) s)"
  by (simp add: event_rx_call_def event_call_def)

lemma subscribe_Some:
  assumes "kmem s = []" "us \<noteq> rem" "fbs s us = Some u" "fbs s rem = Some r" "others r = Some c"
  defines "n \<equiv> slab_addr (heap_top s)"
  shows "subscribe_to_remote_fblock us rem s =
    Some (0, upd_fb rem (r\<lparr>refcnt := refcnt r + 1, others := Some (c @ [n])\<rparr>)
      (upd_fb us (u\<lparr>refcnt := refcnt u + 1, notifiers := n # notifiers u\<rparr>)
        (s\<lparr>heap_top := Suc (heap_top s),
           nots := (nots s)(n \<mapsto> \<lparr>nself = us, notifier_call = event_rx u, remote = fb_idp r\<rparr>)\<rparr>)))"
proof -
  have "kmalloc s = (Some n, s\<lparr>heap_top := Suc (heap_top s)\<rparr>)"
    unfolding n_def using assms(1) by (rule kmalloc_Nil)
  then show ?thesis
    using assms(2-5)
    by (simp add: subscribe_to_remote_fblock_def fblock_register_foreign_subscriber_def
        init_fblock_subscriber_def upd_fb_def fun_upd_twist)
qed

text \<open>The state after a successful bind: both blocks hold a subscription to each other and three more
  references.\<close>

definition bound_state :: "ptr \<Rightarrow> ptr \<Rightarrow> 'p \<Rightarrow> 'p \<Rightarrow> 'p lana \<Rightarrow> 'p lana" where
  "bound_state p1 p2 v1 v2 s =
     (let fb1 = the (fbs s p1); fb2 = the (fbs s p2);
          n1 = slab_addr (heap_top s); n2 = slab_addr (Suc (heap_top s))
      in s\<lparr>fbs := (fbs s)
             (p1 \<mapsto> fb1\<lparr>private_data := v1, refcnt := refcnt fb1 + 3, notifiers := n1 # notifiers fb1,
                        others := Some (the (others fb1) @ [n2])\<rparr>,
              p2 \<mapsto> fb2\<lparr>private_data := v2, refcnt := refcnt fb2 + 3, notifiers := n2 # notifiers fb2,
                        others := Some (the (others fb2) @ [n1])\<rparr>),
           nots := (nots s)
             (n1 \<mapsto> \<lparr>nself = p1, notifier_call = event_rx fb1, remote = fb_idp fb2\<rparr>,
              n2 \<mapsto> \<lparr>nself = p2, notifier_call = event_rx fb2, remote = fb_idp fb1\<rparr>),
           heap_top := Suc (Suc (heap_top s))\<rparr>)"

lemma fblock_bind_ok:
  assumes "kmem s = []" "p1 \<noteq> p2" "fbs s p1 = Some fb1" "fbs s p2 = Some fb2"
    and "others fb1 = Some c1" "others fb2 = Some c2"
    and "op_event ops (event_rx fb1) (FBLOCK_BIND_IDP TYPE_EGRESS (fb_idp fb2)) (private_data fb1) = Some (NOTIFY_OK, v1)"
    and "op_event ops (event_rx fb2) (FBLOCK_BIND_IDP TYPE_INGRESS (fb_idp fb1)) (private_data fb2) = Some (NOTIFY_OK, v2)"
  shows "fblock_bind ops p1 p2 s = Some (0, bound_state p1 p2 v1 v2 s)"
proof -
  let ?a = "fb1\<lparr>refcnt := refcnt fb1 + 1, private_data := v1\<rparr>"
  let ?b = "fb2\<lparr>refcnt := refcnt fb2 + 1, private_data := v2\<rparr>"
  let ?s2 = "upd_fb p2 ?b (upd_fb p1 ?a s)"
  define n1 where "n1 = slab_addr (heap_top s)"
  let ?a3 = "?a\<lparr>refcnt := refcnt fb1 + 1 + 1, notifiers := n1 # notifiers fb1\<rparr>"
  let ?b3 = "?b\<lparr>refcnt := refcnt fb2 + 1 + 1, others := Some (c2 @ [n1])\<rparr>"
  let ?s3 = "upd_fb p2 ?b3 (upd_fb p1 ?a3 (s\<lparr>heap_top := Suc (heap_top s),
           nots := (nots s)(n1 \<mapsto> \<lparr>nself = p1, notifier_call = event_rx fb1, remote = fb_idp fb2\<rparr>)\<rparr>))"
  have s1: "subscribe_to_remote_fblock p1 p2 ?s2 = Some (0, ?s3)"
    using assms subscribe_Some[of ?s2 p1 p2 ?a ?b c2] by (simp add: n1_def upd_fb_def fun_upd_twist)
  have s2: "subscribe_to_remote_fblock p2 p1 ?s3 = Some (0, bound_state p1 p2 v1 v2 s)"
    using assms subscribe_Some[of ?s3 p2 p1 ?b3 ?a3 c1]
    by (cases s, cases fb1, cases fb2) (simp add: bound_state_def upd_fb_def fun_upd_twist Let_def n1_def ac_simps)
  show ?thesis using assms s1 s2 by (simp add: fblock_bind_def upd_fb_commute[OF assms(2)])
qed

lemma fblock_bind_egress_busy:
  assumes "p1 \<noteq> p2" "fbs s p1 = Some fb1" "fbs s p2 = Some fb2" "0 < refcnt fb1" "0 < refcnt fb2"
    and "op_event ops (event_rx fb1) (FBLOCK_BIND_IDP TYPE_EGRESS (fb_idp fb2)) (private_data fb1) =
           Some (r, private_data fb1)" "r \<noteq> NOTIFY_OK"
  shows "fblock_bind ops p1 p2 s = Some (- EBUSY, s)"
  using assms by (simp add: fblock_bind_def upd_fb_commute[OF assms(1)] upd_fb_same)

lemma fblock_bind_ingress_busy:
  assumes "p1 \<noteq> p2" "fbs s p1 = Some fb1" "fbs s p2 = Some fb2" "0 < refcnt fb1" "0 < refcnt fb2"
    and "op_event ops (event_rx fb1) (FBLOCK_BIND_IDP TYPE_EGRESS (fb_idp fb2)) (private_data fb1) =
           Some (NOTIFY_OK, v1)"
    and "op_event ops (event_rx fb2) (FBLOCK_BIND_IDP TYPE_INGRESS (fb_idp fb1)) (private_data fb2) =
           Some (r, private_data fb2)" "r \<noteq> NOTIFY_OK"
    and "op_event ops (event_rx fb1) (FBLOCK_UNBIND_IDP TYPE_EGRESS (fb_idp fb2)) v1 =
           Some (NOTIFY_OK, private_data fb1)"
  shows "fblock_bind ops p1 p2 s = Some (- EBUSY, s)"
  using assms by (simp add: fblock_bind_def upd_fb_commute[OF assms(1)] upd_fb_same)

lemma unsubscribe_head:
  assumes "us \<noteq> rem" "fbs s us = Some u" "fbs s rem = Some r" "1 < refcnt u" "1 < refcnt r"
    and "notifiers u = fn # fns" "nots s fn = Some x" "remote x = fb_idp r"
  shows "unsubscribe_from_remote_fblock ops us rem s =
    Some (upd_fb rem (r\<lparr>refcnt := refcnt r - 1\<rparr>) (upd_fb us (u\<lparr>notifiers := fns, refcnt := refcnt u - 1\<rparr>) s))"
  using assms by (simp add: unsubscribe_from_remote_fblock_def upd_fb_commute[OF assms(1)])

text \<open>The state after unbinding again: everything is back but the two subscriptions, which are still in
  the chains of both blocks.\<close>

definition unbound_state :: "ptr \<Rightarrow> ptr \<Rightarrow> 'p lana \<Rightarrow> 'p lana" where
  "unbound_state p1 p2 s =
     (let fb1 = the (fbs s p1); fb2 = the (fbs s p2);
          n1 = slab_addr (heap_top s); n2 = slab_addr (Suc (heap_top s))
      in s\<lparr>fbs := (fbs s)(p1 \<mapsto> fb1\<lparr>others := Some (the (others fb1) @ [n2])\<rparr>,
                           p2 \<mapsto> fb2\<lparr>others := Some (the (others fb2) @ [n1])\<rparr>),
           nots := (nots s)
             (n1 \<mapsto> \<lparr>nself = p1, notifier_call = event_rx fb1, remote = fb_idp fb2\<rparr>,
              n2 \<mapsto> \<lparr>nself = p2, notifier_call = event_rx fb2, remote = fb_idp fb1\<rparr>),
           heap_top := Suc (Suc (heap_top s))\<rparr>)"

lemma fblock_unbind_bound:
  assumes "p1 \<noteq> p2" "fbs s p1 = Some fb1" "fbs s p2 = Some fb2" "0 < refcnt fb1" "0 < refcnt fb2"
    and "op_event ops (event_rx fb1) (FBLOCK_UNBIND_IDP TYPE_EGRESS (fb_idp fb2)) v1 =
           Some (NOTIFY_OK, private_data fb1)"
    and "op_event ops (event_rx fb2) (FBLOCK_UNBIND_IDP TYPE_INGRESS (fb_idp fb1)) v2 =
           Some (NOTIFY_OK, private_data fb2)"
  shows "fblock_unbind ops p1 p2 (bound_state p1 p2 v1 v2 s) = Some (0, unbound_state p1 p2 s)"
proof -
  let ?b = "bound_state p1 p2 v1 v2 s"
  define n1 where "n1 = slab_addr (heap_top s)"
  define n2 where "n2 = slab_addr (Suc (heap_top s))"
  have n: "n1 \<noteq> n2" by (simp add: n1_def n2_def)
  let ?a = "fb1\<lparr>refcnt := refcnt fb1 + 3, notifiers := n1 # notifiers fb1,
       others := Some (the (others fb1) @ [n2])\<rparr>"
  let ?c = "fb2\<lparr>refcnt := refcnt fb2 + 3, notifiers := n2 # notifiers fb2,
       others := Some (the (others fb2) @ [n1])\<rparr>"
  have b: "fbs ?b p1 = Some (?a\<lparr>private_data := v1\<rparr>)" "fbs ?b p2 = Some (?c\<lparr>private_data := v2\<rparr>)"
    "nots ?b n1 = Some \<lparr>nself = p1, notifier_call = event_rx fb1, remote = fb_idp fb2\<rparr>"
    "nots ?b n2 = Some \<lparr>nself = p2, notifier_call = event_rx fb2, remote = fb_idp fb1\<rparr>"
    using assms(1-3) n by (simp_all add: bound_state_def Let_def flip: n1_def n2_def)
  let ?s1 = "upd_fb p2 ?c (upd_fb p1 ?a ?b)"
  let ?a2 = "?a\<lparr>notifiers := notifiers fb1, refcnt := refcnt fb1 + 2\<rparr>"
  let ?c2 = "?c\<lparr>refcnt := refcnt fb2 + 2\<rparr>"
  let ?s2 = "upd_fb p2 ?c2 (upd_fb p1 ?a2 ?b)"
  let ?a3 = "?a\<lparr>notifiers := notifiers fb1, refcnt := refcnt fb1 + 1\<rparr>"
  let ?c3 = "?c\<lparr>notifiers := notifiers fb2, refcnt := refcnt fb2 + 1\<rparr>"
  let ?s3 = "upd_fb p2 ?c3 (upd_fb p1 ?a3 ?b)"
  have s2: "unsubscribe_from_remote_fblock ops p1 p2 ?s1 = Some ?s2"
    using assms(1-5) b
    by (subst unsubscribe_head[of p1 p2 ?s1 ?a ?c n1 "notifiers fb1"
          "\<lparr>nself = p1, notifier_call = event_rx fb1, remote = fb_idp fb2\<rparr>"])
      (simp_all add: upd_fb_commute[OF assms(1)] ac_simps)
  have s3: "unsubscribe_from_remote_fblock ops p2 p1 ?s2 = Some ?s3"
    using assms(1-5) b
    by (subst unsubscribe_head[of p2 p1 ?s2 ?c2 ?a2 n2 "notifiers fb2"
          "\<lparr>nself = p2, notifier_call = event_rx fb2, remote = fb_idp fb1\<rparr>"])
      (simp_all add: upd_fb_commute[OF assms(1)] ac_simps)
  have fin: "unbound_state p1 p2 s = upd_fb p2 (?c3\<lparr>refcnt := refcnt fb2\<rparr>) (upd_fb p1 (?a3\<lparr>refcnt := refcnt fb1\<rparr>) ?b)"
    using assms(1-3) by (simp add: unbound_state_def bound_state_def Let_def upd_fb_def fun_upd_twist
        flip: n1_def n2_def)
  show ?thesis
    using assms b s2 s3 by (simp add: fblock_unbind_def fin upd_fb_commute[OF assms(1)])
qed

section \<open>Options and migration\<close>

lemma split_option_Some_iff:
  "split_option s = Some (key, val) \<longleftrightarrow> s = key @ 0x3D # val \<and> 0x3D \<notin> set key"
proof (induction s arbitrary: key)
  case (Cons c s)
  show ?case
  proof (cases key)
    case Nil
    then show ?thesis by auto
  next
    case (Cons k ks)
    with Cons.IH[of ks] show ?thesis by auto
  qed
qed simp

lemma split_option_None_iff: "split_option s = None \<longleftrightarrow> 0x3D \<notin> set s"
  by (induction s) auto

lemma fblock_set_option_Some:
  assumes "split_option opt = Some (key, val)" "fbs s p = Some fb" "0 < refcnt fb"
    and "op_event ops (event_rx fb) (FBLOCK_SET_OPT key val) (private_data fb) = Some (r, v)"
  shows "fblock_set_option ops p opt s = Some (r, upd_fb p (fb\<lparr>private_data := v\<rparr>) s)"
  using assms by (simp add: fblock_set_option_def)

definition set_self :: "ptr list \<Rightarrow> ptr \<Rightarrow> (ptr \<rightharpoonup> fblock_notifier) \<Rightarrow> (ptr \<rightharpoonup> fblock_notifier)" where
  "set_self ns self h = (\<lambda>n. if n \<in> set ns then map_option (nself_update (\<lambda>_. self)) (h n) else h n)"

lemma set_self_None [simp]: "set_self ns self h n = None \<longleftrightarrow> h n = None"
  by (simp add: set_self_def)

lemma update_selfref_Some:
  assumes "\<forall>n \<in> set ns. nots s n \<noteq> None"
  shows "fblock_update_selfref ns self s = Some (s\<lparr>nots := set_self ns self (nots s)\<rparr>)"
  using assms
proof (induction ns arbitrary: s)
  case (Cons n ns)
  then obtain x where x: "nots s n = Some x" by auto
  let ?s = "s\<lparr>nots := (nots s)(n \<mapsto> x\<lparr>nself := self\<rparr>)\<rparr>"
  have "\<forall>m \<in> set ns. nots ?s m \<noteq> None" using Cons.prems by simp
  from Cons.IH[OF this] have "fblock_update_selfref (n # ns) self s =
      Some (s\<lparr>nots := set_self ns self ((nots s)(n \<mapsto> x\<lparr>nself := self\<rparr>))\<rparr>)"
    using x by (simp del: fun_upd_apply)
  moreover have "set_self ns self ((nots s)(n \<mapsto> x\<lparr>nself := self\<rparr>)) = set_self (n # ns) self (nots s)"
    using x by (auto simp: set_self_def fun_eq_iff)
  ultimately show ?case by (simp only:)
qed (simp add: set_self_def)

lemma migrate_p_Some:
  assumes "dst \<noteq> src" "fbs s dst = Some d" "fbs s src = Some f" "0 < refcnt d" "0 < refcnt f"
  shows "fblock_migrate_p ops dst src s =
    Some (upd_fb src (f\<lparr>private_data := private_data d\<rparr>) (upd_fb dst (d\<lparr>private_data := private_data f\<rparr>) s))"
  using assms by (simp add: fblock_migrate_p_def upd_fb_commute[OF assms(1)])

text \<open>The effect of \<open>fblock_migrate_r\<close>.\<close>

definition migrated :: "ptr \<Rightarrow> ptr \<Rightarrow> 'p lana \<Rightarrow> 'p lana" where
  "migrated dst src s =
     (let d = the (fbs s dst); f = the (fbs s src) in
      s\<lparr>fbs := (fbs s)
          (dst \<mapsto> d\<lparr>fb_idp := fb_idp f, fb_name := strlcpy (fb_name f) FBNAMSIZ,
                     notifiers := notifiers f, others := others f, refcnt := refcnt f\<rparr>,
           src \<mapsto> f\<lparr>notifiers := notifiers d, others := others d, refcnt := refcnt d\<rparr>),
        nots := set_self (notifiers d) src (set_self (notifiers f) dst (nots s))\<rparr>)"

lemma migrate_r_Some:
  assumes "dst \<noteq> src" "fbs s dst = Some d" "fbs s src = Some f" "0 < refcnt d" "0 < refcnt f"
    and n: "\<forall>n \<in> set (notifiers d) \<union> set (notifiers f). nots s n \<noteq> None"
  shows "fblock_migrate_r ops dst src s = Some (migrated dst src s)"
proof -
  let ?d = "d\<lparr>refcnt := refcnt d + 1, fb_idp := fb_idp f, fb_name := strlcpy (fb_name f) FBNAMSIZ\<rparr>"
  let ?f = "f\<lparr>refcnt := refcnt f + 1\<rparr>"
  let ?d2 = "?d\<lparr>notifiers := notifiers f\<rparr>" and ?f2 = "?f\<lparr>notifiers := notifiers d\<rparr>"
  let ?s1 = "upd_fb src ?f (upd_fb dst ?d s)"
  let ?h = "set_self (notifiers d) src (set_self (notifiers f) dst (nots s))"
  let ?s2 = "(upd_fb src ?f2 (upd_fb dst ?d2 s))\<lparr>nots := ?h\<rparr>"
  have "swap_notifiers dst src ?s1 = Some ?s2"
    using assms(1-3) n
    by (simp add: swap_notifiers_def upd_fb_commute[OF assms(1)] update_selfref_Some Let_def)
  moreover have "migrated dst src s =
      upd_fb src (f\<lparr>notifiers := notifiers d, others := others d, refcnt := refcnt d\<rparr>)
       (upd_fb dst (d\<lparr>fb_idp := fb_idp f, fb_name := strlcpy (fb_name f) FBNAMSIZ,
           notifiers := notifiers f, others := others f, refcnt := refcnt f\<rparr>) (s\<lparr>nots := ?h\<rparr>))"
    using assms(2,3) by (simp add: migrated_def upd_fb_def Let_def)
  ultimately show ?thesis
    using assms(1-5)
    by (simp add: fblock_migrate_r_def upd_fb_commute[OF assms(1)] swap_others_def swap_refcnt_def Let_def)
qed

section \<open>The interface to the modules: handlers of bind events\<close>

text \<open>What \<^const>\<open>fblock_bind\<close> and \<^const>\<open>fblock_unbind\<close> rely on of the event handlers
  behind \<open>event_rx\<close>: on private data in good order (\<open>ready\<close>) a bind event either
  succeeds or changes nothing, and an unbind event takes back a bind event to a block the handler
  was not yet bound to (\<open>avoids\<close>).\<close>

locale event_handlers =
  fixes ops :: "'p fb_ops"
    and ready :: "fb_module \<Rightarrow> 'p \<Rightarrow> bool"
    and avoids :: "fb_module \<Rightarrow> 'p \<Rightarrow> idp_t \<Rightarrow> bool"
  assumes bind_event: "ready h v \<Longrightarrow>
      \<exists>r v'. op_event ops h (FBLOCK_BIND_IDP d i) v = Some (r, v') \<and> ready h v' \<and> (r = NOTIFY_OK \<or> v' = v)"
    and unbind_event: "ready h v \<Longrightarrow> avoids h v i \<Longrightarrow>
      op_event ops h (FBLOCK_BIND_IDP d i) v = Some (NOTIFY_OK, v') \<Longrightarrow>
      op_event ops h (FBLOCK_UNBIND_IDP d i) v' = Some (NOTIFY_OK, v)"
begin

lemma bind_all_or_nothing:
  assumes "kmem s = []" "p1 \<noteq> p2" "fbs s p1 = Some fb1" "fbs s p2 = Some fb2"
    and "0 < refcnt fb1" "0 < refcnt fb2" "others fb1 \<noteq> None" "others fb2 \<noteq> None"
    and ready: "ready (event_rx fb1) (private_data fb1)" "ready (event_rx fb2) (private_data fb2)"
    and av: "avoids (event_rx fb1) (private_data fb1) (fb_idp fb2)"
  shows "(\<exists>v1 v2. fblock_bind ops p1 p2 s = Some (0, bound_state p1 p2 v1 v2 s) \<and>
            op_event ops (event_rx fb1) (FBLOCK_BIND_IDP TYPE_EGRESS (fb_idp fb2)) (private_data fb1) = Some (NOTIFY_OK, v1) \<and>
            op_event ops (event_rx fb2) (FBLOCK_BIND_IDP TYPE_INGRESS (fb_idp fb1)) (private_data fb2) = Some (NOTIFY_OK, v2)) \<or>
         fblock_bind ops p1 p2 s = Some (- EBUSY, s)"
proof -
  obtain c1 c2 where c: "others fb1 = Some c1" "others fb2 = Some c2" using assms(7,8) by auto
  obtain r1 v1 where e1: "op_event ops (event_rx fb1) (FBLOCK_BIND_IDP TYPE_EGRESS (fb_idp fb2)) (private_data fb1) = Some (r1, v1)"
    "r1 = NOTIFY_OK \<or> v1 = private_data fb1"
    using bind_event[OF ready(1)] by blast
  obtain r2 v2 where e2: "op_event ops (event_rx fb2) (FBLOCK_BIND_IDP TYPE_INGRESS (fb_idp fb1)) (private_data fb2) = Some (r2, v2)"
    "r2 = NOTIFY_OK \<or> v2 = private_data fb2"
    using bind_event[OF ready(2)] by blast
  show ?thesis
  proof (cases "r1 = NOTIFY_OK")
    case False
    then show ?thesis using fblock_bind_egress_busy[OF assms(2-6)] e1 by simp
  next
    case r1: True
    show ?thesis
    proof (cases "r2 = NOTIFY_OK")
      case True
      with r1 e1 e2 fblock_bind_ok[OF assms(1-4) c] show ?thesis by blast
    next
      case False
      with r1 e1 e2 fblock_bind_ingress_busy[OF assms(2-6), of ops v1 r2] unbind_event[OF ready(1) av]
      show ?thesis by simp
    qed
  qed
qed

lemma bind_unbind:
  assumes "kmem s = []" "p1 \<noteq> p2" "fbs s p1 = Some fb1" "fbs s p2 = Some fb2"
    and "0 < refcnt fb1" "0 < refcnt fb2" "others fb1 \<noteq> None" "others fb2 \<noteq> None"
    and ready: "ready (event_rx fb1) (private_data fb1)" "ready (event_rx fb2) (private_data fb2)"
    and av: "avoids (event_rx fb1) (private_data fb1) (fb_idp fb2)"
      "avoids (event_rx fb2) (private_data fb2) (fb_idp fb1)"
    and bind: "fblock_bind ops p1 p2 s = Some (0, s')"
  shows "fblock_unbind ops p1 p2 s' = Some (0, unbound_state p1 p2 s)"
proof -
  from bind_all_or_nothing[OF assms(1-8) ready av(1)] bind obtain v1 v2 where
    v: "op_event ops (event_rx fb1) (FBLOCK_BIND_IDP TYPE_EGRESS (fb_idp fb2)) (private_data fb1) = Some (NOTIFY_OK, v1)"
    "op_event ops (event_rx fb2) (FBLOCK_BIND_IDP TYPE_INGRESS (fb_idp fb1)) (private_data fb2) = Some (NOTIFY_OK, v2)"
    and s': "s' = bound_state p1 p2 v1 v2 s"
    by auto
  show ?thesis
    unfolding s' using fblock_unbind_bound[OF assms(2-6)] unbind_event[OF ready(1) av(1) v(1)]
      unbind_event[OF ready(2) av(2) v(2)] .
qed

end

section \<open>The state after start-up\<close>

definition lana_boot :: "'p lana" where
  "lana_boot = \<lparr>idpmap = None, idp_elems = Map.empty, fblmap = Map.empty, fbmap = None, idp_counter = 0,
     fbs = Map.empty, nots = Map.empty, rcu = [], modrefs = (\<lambda>_. 0), critbit_cache = 1,
     lana_proc_dir = [lit ''fblocks''], fblock_proc_dir = [], heap_top = 0, kmem = []\<rparr>"

lemma lana_boot_inv: "heap_inv lana_boot" "names_inv lana_boot" "registry_inv lana_boot"
  by (auto simp: lana_boot_def heap_inv_def names_inv_def critbit_inv_def critbit_elems_def
      registry_inv_def get_fblock_namespace_mapping_def critbit_get_def)

text \<open>Modules without behaviour, for examples that do not call into a module.\<close>

abbreviation idle_ops :: "'p fb_ops" where
  "idle_ops \<equiv> \<lparr>op_event = (\<lambda>_ _ _. None), op_dtor_outside_rcu = (\<lambda>_ v. v), op_dtor = (\<lambda>_ _ s. s)\<rparr>"

definition boot_with :: "'p fblock \<Rightarrow> 'p lana" where
  "boot_with fb = upd_fb (slab_addr 0) fb (lana_boot\<lparr>heap_top := 1\<rparr>)"

lemma boot_with_inv:
  "heap_inv (boot_with fb)" "names_inv (boot_with fb)" "registry_inv (boot_with fb)"
  "kmem (boot_with fb) = []" "idp_counter (boot_with fb) = 0" "fblmap (boot_with fb) = Map.empty"
  "fbs (boot_with fb) = [slab_addr 0 \<mapsto> fb]"
  "critbit_get (elem_name_at (boot_with fb)) (idpmap (boot_with fb)) u = None"
  by (auto simp: boot_with_def lana_boot_def heap_inv_def names_inv_def critbit_inv_def critbit_elems_def
      registry_inv_def get_fblock_namespace_mapping_def critbit_get_def slab_addr_def)

section \<open>Properties\<close>

text \<open>C7: Registration of a new block. While fewer than \<open>2 ^ 32 - 1\<close> idps have been handed out,
  a block that is allocated but not registered and whose name is free is registered with result 0:
  it gets the idp after the last one, which is not \<open>IDP_UNKNOWN\<close> and belongs to no other
  block; afterwards \<open>search_fblock\<close> finds it by idp and \<open>search_fblock_n\<close> by
  name (both taking a reference), every other name and idp resolves as before, and the invariants
  of the name space, of the idp table and of the heap hold again.\<close>
theorem register_fblock_namespace_search:
  fixes s :: "'p lana"
  assumes "heap_inv s" "names_inv s" "registry_inv s" "kmem s = []"
    and "unat (idp_counter s) < 2 ^ 32 - 1"
    and "fbs s p = Some fb" "p \<notin> ran (fblmap s)"
    and "is_cstr (fb_name fb)" "length (fb_name fb) < FBNAMSIZ"
    and "critbit_get (elem_name_at s) (idpmap s) (fb_name fb) = None"
  shows "\<exists>s' idp. register_fblock_namespace p s = Some (0, s') \<and>
           heap_inv s' \<and> names_inv s' \<and> registry_inv s' \<and>
           unat idp = unat (idp_counter s) + 1 \<and> fblmap s idp = None \<and>
           search_fblock idp s' = Some (Some p, upd_fb p (fb\<lparr>fb_idp := idp, refcnt := refcnt fb + 1\<rparr>) s') \<and>
           search_fblock_n (fb_name fb) s' = search_fblock idp s' \<and>
           (\<forall>i. i \<noteq> idp \<longrightarrow> fblmap s' i = fblmap s i) \<and>
           (\<forall>u. u \<noteq> fb_name fb \<longrightarrow> get_fblock_namespace_mapping u s' = get_fblock_namespace_mapping u s)"
proof -
  let ?idp = "ucast (idp_counter s + 1) :: idp_t"
  have new: "fblmap s ?idp = None" "?idp \<noteq> IDP_UNKNOWN" "unat ?idp = unat (idp_counter s) + 1"
    using new_idp_unused[OF assms(3,5)] unat_new_idp[OF assms(5)] by auto
  obtain s' where s': "register_fblock_namespace p s = Some (0, s')"
    "heap_inv s'" "names_inv s'" "registry_inv s'"
    "fblmap s' = (fblmap s)(?idp \<mapsto> p)" "fbs s' = (fbs s)(p \<mapsto> fb\<lparr>fb_idp := ?idp\<rparr>)"
    "\<And>u. get_fblock_namespace_mapping u s' =
            (if u = fb_name fb then ?idp else get_fblock_namespace_mapping u s)"
    by (rule register_fblock_namespace_new[OF assms]) blast
  have "search_fblock ?idp s' = Some (Some p, upd_fb p (fb\<lparr>fb_idp := ?idp, refcnt := refcnt fb + 1\<rparr>) s')"
    "search_fblock_n (fb_name fb) s' = search_fblock ?idp s'"
    using s'(5-7) new(2) by (simp_all add: search_fblock_known search_fblock_n_known)
  with s' new show ?thesis by (intro exI[of _ s'] exI[of _ ?idp]) simp
qed

theorem register_fblock_namespace_search_witness:
  "\<exists>s'. register_fblock_namespace (slab_addr 0)
          (boot_with ((ctor_fblock ())\<lparr>fb_name := lit ''fb1'', refcnt := 1\<rparr>)) = Some (0, s') \<and>
        fst (the (search_fblock_n (lit ''fb1'') s')) = Some (slab_addr 0)"
proof -
  let ?fb = "(ctor_fblock ())\<lparr>fb_name := lit ''fb1'', refcnt := 1\<rparr>"
  have "unat (idp_counter (boot_with ?fb)) < 2 ^ 32 - 1" "fbs (boot_with ?fb) (slab_addr 0) = Some ?fb"
    "slab_addr 0 \<notin> ran (fblmap (boot_with ?fb))" "is_cstr (fb_name ?fb)" "length (fb_name ?fb) < FBNAMSIZ"
    by (simp_all add: boot_with_inv lit_def is_cstr_def FBNAMSIZ_def)
  from register_fblock_namespace_search[OF boot_with_inv(1-4) this boot_with_inv(8)]
  show ?thesis by auto
qed



text \<open>C19: A clash of names leaves a stale entry. Registering a block under a name that is already
  taken returns \<open>-EEXIST\<close>, but the block stays in the idp table under its new idp. (The
  constructors of the modules free the block after this error.)\<close>
theorem register_clash_leaves_entry:
  fixes s :: "'p lana"
  assumes "names_inv s" "registry_inv s" "kmem s = []" "unat (idp_counter s) < 2 ^ 32 - 1"
    and "fbs s p = Some fb" "critbit_get (elem_name_at s) (idpmap s) (fb_name fb) \<noteq> None"
  shows "\<exists>s' idp. register_fblock_namespace p s = Some (- EEXIST, s') \<and> fblmap s idp = None \<and>
           fblmap s' = (fblmap s)(idp \<mapsto> p) \<and> idpmap s' = idpmap s"
proof -
  let ?idp = "ucast (idp_counter s + 1) :: idp_t"
  let ?s1 = "(upd_fb p (fb\<lparr>fb_idp := ?idp\<rparr>) (s\<lparr>idp_counter := idp_counter s + 1\<rparr>))\<lparr>fblmap := (fblmap s)(?idp \<mapsto> p)\<rparr>"
  have new: "fblmap s ?idp = None" using new_idp_unused[OF assms(2,4)] by simp
  have "names_inv ?s1" using assms(1) names_inv_cong[of ?s1 s] by simp
  then have "register_to_fblock_namespace (fb_name fb) ?idp ?s1 = Some (- EEXIST, ?s1)"
    using assms(6) by (intro register_to_exists) simp_all
  then have "register_fblock_namespace p s = Some (- EEXIST, ?s1)"
    using assms(3,5) new
    by (simp add: register_fblock_namespace_def provide_new_fblock_idp_def radix_tree_insert_def Let_def)
  with new show ?thesis by (intro exI[of _ ?s1] exI[of _ ?idp]) simp
qed

theorem register_clash_leaves_entry_witness:
  "\<exists>s1 s2. register_fblock_namespace (slab_addr 0)
          (boot_with ((ctor_fblock ())\<lparr>fb_name := lit ''fb1'', refcnt := 1\<rparr>)) = Some (0, s1) \<and>
        register_fblock_namespace (slab_addr 0) s1 = Some (- EEXIST, s2)"
proof -
  let ?fb = "(ctor_fblock ())\<lparr>fb_name := lit ''fb1'', refcnt := 1\<rparr>"
  have a: "unat (idp_counter (boot_with ?fb)) < 2 ^ 32 - 1" "fbs (boot_with ?fb) (slab_addr 0) = Some ?fb"
    "slab_addr 0 \<notin> ran (fblmap (boot_with ?fb))" "is_cstr (fb_name ?fb)" "length (fb_name ?fb) < FBNAMSIZ"
    by (simp_all add: boot_with_inv lit_def is_cstr_def FBNAMSIZ_def)
  obtain s1 where s1: "register_fblock_namespace (slab_addr 0) (boot_with ?fb) = Some (0, s1)"
    "names_inv s1" "registry_inv s1" "kmem s1 = []" "idp_counter s1 = idp_counter (boot_with ?fb) + 1"
    "fbs s1 (slab_addr 0) = Some (?fb\<lparr>fb_idp := ucast (idp_counter (boot_with ?fb) + 1)\<rparr>)"
    "\<exists>e. critbit_get (elem_name_at s1) (idpmap s1) (fb_name ?fb) = Some e"
    by (rule register_fblock_namespace_new[OF boot_with_inv(1-4) a boot_with_inv(8)]) auto
  then show ?thesis
    using register_clash_leaves_entry[OF s1(2-4) _ s1(6)] by (auto simp: boot_with_inv)
qed

lemma register_to_keeps:
  assumes "register_to_fblock_namespace name v s = Some (r, s')"
  shows "fblmap s' = fblmap s" "fbs s' = fbs s"
  using assms
  by (auto simp: register_to_fblock_namespace_def kmalloc_eq mem_fails_eq Let_def
      split: if_splits option.splits bind_splits)

text \<open>C20: Wrap-around of idps. The idp counter has 64 bits and an idp has 32: the block registered
  after \<open>2 ^ 32 - 1\<close> registrations is entered into the idp table under
  \<open>IDP_UNKNOWN\<close>, where \<open>search_fblock\<close> never looks it up.\<close>
theorem idp_wraps_to_unknown:
  assumes "idp_counter s = 2 ^ 32 - 1" "fblmap s IDP_UNKNOWN = None" "kmem s = []" "fbs s p = Some fb"
    and "register_fblock_namespace p s = Some (r, s')"
  shows "fblmap s' IDP_UNKNOWN = Some p \<and> search_fblock IDP_UNKNOWN s' = Some (None, s')"
proof -
  have w: "ucast (idp_counter s + 1) = IDP_UNKNOWN"
    using assms(1) by (intro word_unat_eq_iff[THEN iffD2]) (simp add: IDP_UNKNOWN_def unsigned_ucast_eq)
  then have "fblmap s' IDP_UNKNOWN = Some p"
    using assms(2-5)
    by (auto simp: register_fblock_namespace_def provide_new_fblock_idp_def radix_tree_insert_def
        Let_def dest: register_to_keeps(1))
  then show ?thesis by (simp add: search_fblock_def)
qed

theorem idp_wraps_to_unknown_witness:
  "\<exists>r s'. register_fblock_namespace (slab_addr 0)
      ((boot_with ((ctor_fblock ())\<lparr>fb_name := lit ''fb1'', refcnt := 1\<rparr>))\<lparr>idp_counter := 2 ^ 32 - 1\<rparr>) = Some (r, s') \<and>
     fblmap s' IDP_UNKNOWN = Some (slab_addr 0)"
proof -
  let ?fb = "(ctor_fblock ())\<lparr>fb_name := lit ''fb1'', refcnt := 1\<rparr>"
  let ?s = "(boot_with ?fb)\<lparr>idp_counter := 2 ^ 32 - 1\<rparr>"
  have a: "kmem ?s = []" "fbs ?s (slab_addr 0) = Some ?fb" "fblmap ?s = Map.empty" "idpmap ?s = None"
    by (simp_all add: boot_with_def lana_boot_def)
  then obtain r s' where "register_fblock_namespace (slab_addr 0) ?s = Some (r, s')"
    by (simp add: register_fblock_namespace_def provide_new_fblock_idp_def radix_tree_insert_def
        register_to_fblock_namespace_def critbit_contains_def kmalloc_Nil critbit_insert_def Let_def
        flip: not_None_eq)
  then show ?thesis using idp_wraps_to_unknown[of ?s "slab_addr 0" ?fb r s'] a by simp
qed

text \<open>Life of a block. Giving a reference back lowers the count by one; only the last reference
  of a block built by a factory queues it for the deferred free, after the module's
  \<open>dtor_outside_rcu\<close>. A block without a factory (a virtual link) is never queued. Taking
  and giving back a reference leaves the state as it was.\<close>
lemma put_fblock_life:
  assumes "fbs s p = Some fb" "0 < refcnt fb"
  shows "(\<exists>s'. put_fblock ops p s = Some s' \<and>
            rcu s' = (if refcnt fb = 1 \<and> factory fb \<noteq> None then rcu s @ [FreeFblock p] else rcu s) \<and>
            (\<exists>fb'. fbs s' = (fbs s)(p \<mapsto> fb') \<and> refcnt fb' = refcnt fb - 1 \<and>
                   (rcu s' = rcu s \<longrightarrow> fb' = fb\<lparr>refcnt := refcnt fb - 1\<rparr>))) \<and>
         do { s \<leftarrow> get_fblock p s; put_fblock ops p s } = Some s"
proof
  show "do { s \<leftarrow> get_fblock p s; put_fblock ops p s } = Some s"
    using assms by (rule put_get_fblock)
  show "\<exists>s'. put_fblock ops p s = Some s' \<and>
            rcu s' = (if refcnt fb = 1 \<and> factory fb \<noteq> None then rcu s @ [FreeFblock p] else rcu s) \<and>
            (\<exists>fb'. fbs s' = (fbs s)(p \<mapsto> fb') \<and> refcnt fb' = refcnt fb - 1 \<and>
                   (rcu s' = rcu s \<longrightarrow> fb' = fb\<lparr>refcnt := refcnt fb - 1\<rparr>))"
  proof (cases "refcnt fb = 1 \<and> factory fb \<noteq> None")
    case True
    then obtain f where "factory fb = Some f" by auto
    with True assms show ?thesis by (simp add: put_fblock_last) (rule exI, rule conjI, rule refl, simp)
  next
    case False
    with assms have "put_fblock ops p s = Some (upd_fb p (fb\<lparr>refcnt := refcnt fb - 1\<rparr>) s)"
      by (auto simp: put_fblock_def Let_def)
    with False show ?thesis by auto
  qed
qed

text \<open>Options. \<open>fblock_set_option\<close> refuses exactly the strings without \<open>=\<close>,
  with \<open>-EINVAL\<close>, and changes nothing then. Any other string is cut at its first
  \<open>=\<close>: the handler of the block receives the key before it and the value after it, the
  call returns what the handler returns, and only the private data of that block changes.\<close>
lemma set_option_spec:
  assumes "fbs s p = Some fb" "0 < refcnt fb"
  shows "(0x3D \<notin> set opt \<longrightarrow> fblock_set_option ops p opt s = Some (- EINVAL, s)) \<and>
         (\<forall>key val r v. opt = key @ 0x3D # val \<and> 0x3D \<notin> set key \<and>
            op_event ops (event_rx fb) (FBLOCK_SET_OPT key val) (private_data fb) = Some (r, v) \<longrightarrow>
            fblock_set_option ops p opt s = Some (r, upd_fb p (fb\<lparr>private_data := v\<rparr>) s))"
proof (intro conjI allI impI)
  assume "0x3D \<notin> set opt"
  then have "split_option opt = None" by (simp only: split_option_None_iff not_False_eq_True)
  then show "fblock_set_option ops p opt s = Some (- EINVAL, s)" by (simp add: fblock_set_option_def)
next
  fix key val r v
  assume a: "opt = key @ 0x3D # val \<and> 0x3D \<notin> set key \<and>
            op_event ops (event_rx fb) (FBLOCK_SET_OPT key val) (private_data fb) = Some (r, v)"
  then have "split_option opt = Some (key, val)" by (simp add: split_option_Some_iff)
  from fblock_set_option_Some[OF this assms] a
  show "fblock_set_option ops p opt s = Some (r, upd_fb p (fb\<lparr>private_data := v\<rparr>) s)" by simp
qed

text \<open>C21: Migration. Moving block \<open>src\<close> to \<open>dst\<close> with \<open>fblock_migrate_p\<close> and
  \<open>fblock_migrate_r\<close> gives \<open>dst\<close> the private data, idp, name (cut to the size of the
  name field), subscriptions, subscribers and reference count of \<open>src\<close>, gives
  \<open>src\<close> those of \<open>dst\<close> except for idp and name, makes all subscriptions point
  back to their new owners, and touches no other block and no table.\<close>
theorem migrate_takes_over:
  assumes "dst \<noteq> src" "fbs s dst = Some d" "fbs s src = Some f" "0 < refcnt d" "0 < refcnt f"
    and "\<forall>n \<in> set (notifiers d) \<union> set (notifiers f). nots s n \<noteq> None"
    and "set (notifiers d) \<inter> set (notifiers f) = {}"
  shows "\<exists>s'. do { s \<leftarrow> fblock_migrate_p ops dst src s; fblock_migrate_r ops dst src s } = Some s' \<and>
     fbs s' dst = Some (f\<lparr>fb_name := strlcpy (fb_name f) FBNAMSIZ, netfb_rx := netfb_rx d,
                           event_rx := event_rx d, factory := factory d\<rparr>) \<and>
     fbs s' src = Some (d\<lparr>fb_name := fb_name f, fb_idp := fb_idp f, netfb_rx := netfb_rx f,
                           event_rx := event_rx f, factory := factory f\<rparr>) \<and>
     (\<forall>p. p \<noteq> dst \<and> p \<noteq> src \<longrightarrow> fbs s' p = fbs s p) \<and>
     (\<forall>n \<in> set (notifiers f). \<exists>x. nots s' n = Some x \<and> nself x = dst) \<and>
     (\<forall>n \<in> set (notifiers d). \<exists>x. nots s' n = Some x \<and> nself x = src) \<and>
     fblmap s' = fblmap s \<and> idpmap s' = idpmap s \<and> idp_elems s' = idp_elems s \<and> rcu s' = rcu s"
proof -
  let ?d = "d\<lparr>private_data := private_data f\<rparr>" and ?f = "f\<lparr>private_data := private_data d\<rparr>"
  let ?s1 = "upd_fb src ?f (upd_fb dst ?d s)"
  let ?s2 = "migrated dst src ?s1"
  have "fblock_migrate_p ops dst src s = Some ?s1"
    using assms(1-5) by (rule migrate_p_Some)
  moreover have "fblock_migrate_r ops dst src ?s1 = Some ?s2"
    by (rule migrate_r_Some[where d = ?d and f = ?f]) (use assms in auto)
  ultimately have r: "do { s \<leftarrow> fblock_migrate_p ops dst src s; fblock_migrate_r ops dst src s } = Some ?s2"
    by simp
  have n: "nots ?s2 = set_self (notifiers d) src (set_self (notifiers f) dst (nots s))"
    using assms(1-3) by (simp add: migrated_def Let_def)
  have n1: "\<exists>x. nots ?s2 k = Some x \<and> nself x = dst" if "k \<in> set (notifiers f)" for k
    unfolding n using bspec[OF assms(6), of k] that assms(7) by (force simp: set_self_def)
  have n2: "\<exists>x. nots ?s2 k = Some x \<and> nself x = src" if "k \<in> set (notifiers d)" for k
    unfolding n using bspec[OF assms(6), of k] that by (force simp: set_self_def)
  have f: "fbs ?s2 dst = Some (f\<lparr>fb_name := strlcpy (fb_name f) FBNAMSIZ, netfb_rx := netfb_rx d,
                           event_rx := event_rx d, factory := factory d\<rparr>)"
    "fbs ?s2 src = Some (d\<lparr>fb_name := fb_name f, fb_idp := fb_idp f, netfb_rx := netfb_rx f,
                           event_rx := event_rx f, factory := factory f\<rparr>)"
    "p \<noteq> dst \<and> p \<noteq> src \<Longrightarrow> fbs ?s2 p = fbs s p" for p
    using assms(1-3) by (simp_all add: migrated_def Let_def)
  have t: "fblmap ?s2 = fblmap s" "idpmap ?s2 = idpmap s" "idp_elems ?s2 = idp_elems s" "rcu ?s2 = rcu s"
    by (simp_all add: migrated_def Let_def)
  show ?thesis using r f t n1 n2 by blast
qed

theorem migrate_takes_over_witness:
  "\<exists>s'. do { s \<leftarrow> fblock_migrate_p idle_ops
                    (slab_addr 1) (slab_addr 0)
                    (upd_fb (slab_addr 1) ((ctor_fblock (7 :: nat))\<lparr>refcnt := 1\<rparr>)
                      (boot_with ((ctor_fblock 5)\<lparr>refcnt := 3, fb_idp := 9\<rparr>)));
             fblock_migrate_r idle_ops
                    (slab_addr 1) (slab_addr 0) s } = Some s' \<and>
     fbs s' (slab_addr 1) = Some ((ctor_fblock 5)\<lparr>refcnt := 3, fb_idp := 9\<rparr>)"
  using migrate_takes_over[of "slab_addr 1" "slab_addr 0"
      "upd_fb (slab_addr 1) ((ctor_fblock (7 :: nat))\<lparr>refcnt := 1\<rparr>) (boot_with ((ctor_fblock 5)\<lparr>refcnt := 3, fb_idp := 9\<rparr>))"
      "(ctor_fblock (7 :: nat))\<lparr>refcnt := 1\<rparr>" "(ctor_fblock 5)\<lparr>refcnt := 3, fb_idp := 9\<rparr>"
      idle_ops]
  by (auto simp: boot_with_inv ctor_fblock_def strlcpy_def)

text \<open>Start-up hides failures. When the slab cache or the proc entry cannot be created,
  \<open>init_fblock_tables\<close> undoes what it has done but still returns 0, so that its caller goes
  on as if the tables were there.\<close>
lemma init_fblock_tables_hides_failure:
  assumes "kmem s = b0 # b1 # b2 # ks" "\<not> b0" "b1 \<or> b2" "critbit_cache s = 0" "rcu s = []"
  shows "\<exists>s'. init_fblock_tables ops s = Some (0, s') \<and> critbit_cache s' = 0 \<and>
              lana_proc_dir s' = lana_proc_dir s"
  using assms
  by (auto simp: init_fblock_tables_def get_critbit_cache_def put_critbit_cache_def mem_fails_def
      rcu_barrier_def Let_def)

end
