(* ===== verification/Xt_Skb.thy ===== *)
theory Xt_Skb
  imports Xt_Fblock
begin

text \<open>Packets: the part of a socket buffer that LANA uses, with the control block of
  \<open>src/src/xt_skb.h\<close>. \<open>skb_id\<close> stands for the address of the buffer, by which the
  model tells which buffers have been freed; \<open>skb->len\<close> is the length of
  \<open>skb_data\<close>. \<open>skb_dev\<close> is the device of a packet, by its index, \<open>skb_pkt_type\<close> its
  class and \<open>h_source\<close> the source address in its Ethernet header.\<close>

record sock_lana_inf =
  idp_dst :: idp_t
  idp_src :: idp_t
  sli_flags :: u32
  sli_errno :: u32
  marker :: u32
  sli_dir :: path_type

record sk_buff =
  skb_id :: nat
  skb_data :: "u8 list"
  skb_cb :: sock_lana_inf
  skb_dev :: "nat option"
  skb_pkt_type :: u8
  h_source :: "u8 list"

text \<open>A packet addressed to block \<open>to\<close>.\<close>

definition new_skb :: "nat \<Rightarrow> u8 list \<Rightarrow> idp_t \<Rightarrow> sk_buff" where
  "new_skb i bs to = \<lparr>skb_id = i, skb_data = bs, skb_cb = \<lparr>idp_dst = to, idp_src = 0, sli_flags = 0,
     sli_errno = 0, marker = 0, sli_dir = TYPE_INGRESS\<rparr>, skb_dev = None, skb_pkt_type = 0, h_source = []\<rparr>"

definition MARKER_TIME_MARKED_FIRST :: u32 where
  "MARKER_TIME_MARKED_FIRST = push_bit 0 1"

definition MARKER_TIME_MARKED_LAST :: u32 where
  "MARKER_TIME_MARKED_LAST = push_bit 1 1"

definition write_next_idp_to_skb :: "sk_buff \<Rightarrow> idp_t \<Rightarrow> idp_t \<Rightarrow> sk_buff" where
  "write_next_idp_to_skb skb from to = skb\<lparr>skb_cb := (skb_cb skb)\<lparr>idp_dst := to, idp_src := from\<rparr>\<rparr>"

definition read_next_idp_from_skb :: "sk_buff \<Rightarrow> idp_t" where
  "read_next_idp_from_skb skb = idp_dst (skb_cb skb)"

definition write_path_to_skb :: "sk_buff \<Rightarrow> path_type \<Rightarrow> sk_buff" where
  "write_path_to_skb skb dir = skb\<lparr>skb_cb := (skb_cb skb)\<lparr>sli_dir := dir\<rparr>\<rparr>"

definition read_path_from_skb :: "sk_buff \<Rightarrow> path_type" where
  "read_path_from_skb skb = sli_dir (skb_cb skb)"

definition time_mark_skb_last :: "sk_buff \<Rightarrow> sk_buff" where
  "time_mark_skb_last skb =
     skb\<lparr>skb_cb := (skb_cb skb)\<lparr>marker := marker (skb_cb skb) OR MARKER_TIME_MARKED_LAST\<rparr>\<rparr>"

definition skb_is_time_marked_last :: "sk_buff \<Rightarrow> bool" where
  "skb_is_time_marked_last skb \<longleftrightarrow>
     marker (skb_cb skb) AND MARKER_TIME_MARKED_LAST = MARKER_TIME_MARKED_LAST"

definition time_mark_skb_first :: "sk_buff \<Rightarrow> sk_buff" where
  "time_mark_skb_first skb =
     skb\<lparr>skb_cb := (skb_cb skb)\<lparr>marker := marker (skb_cb skb) OR MARKER_TIME_MARKED_FIRST\<rparr>\<rparr>"

definition skb_is_time_marked_first :: "sk_buff \<Rightarrow> bool" where
  "skb_is_time_marked_first skb \<longleftrightarrow>
     marker (skb_cb skb) AND MARKER_TIME_MARKED_FIRST = MARKER_TIME_MARKED_FIRST"

section \<open>Reading back what was written\<close>

lemma skb_accessors [simp]:
  "read_next_idp_from_skb (write_next_idp_to_skb skb from to) = to"
  "read_path_from_skb (write_next_idp_to_skb skb from to) = read_path_from_skb skb"
  "read_next_idp_from_skb (write_path_to_skb skb dir) = read_next_idp_from_skb skb"
  "read_path_from_skb (write_path_to_skb skb dir) = dir"
  "skb_id (write_next_idp_to_skb skb from to) = skb_id skb"
  "skb_data (write_next_idp_to_skb skb from to) = skb_data skb"
  "skb_id (write_path_to_skb skb dir) = skb_id skb"
  "skb_data (write_path_to_skb skb dir) = skb_data skb"
  by (simp_all add: write_next_idp_to_skb_def read_next_idp_from_skb_def write_path_to_skb_def
      read_path_from_skb_def)

text \<open>The two time marks are independent bits.\<close>

lemma and_bit_mask_iff:
  fixes m :: u32
  assumes "k < 32"
  shows "m AND push_bit k 1 = push_bit k 1 \<longleftrightarrow> bit m k"
proof
  assume "m AND push_bit k 1 = push_bit k 1"
  then have "bit (m AND push_bit k 1) k = bit (push_bit k 1 :: u32) k" by simp
  then show "bit m k" using assms by (simp add: bit_simps)
qed (rule bit_word_eqI, auto simp: bit_simps)

lemma time_mark_bits:
  "skb_is_time_marked_first skb \<longleftrightarrow> bit (marker (skb_cb skb)) 0"
  "skb_is_time_marked_last skb \<longleftrightarrow> bit (marker (skb_cb skb)) 1"
  using and_bit_mask_iff[of 0] and_bit_mask_iff[of 1]
  by (simp_all add: skb_is_time_marked_first_def skb_is_time_marked_last_def
      MARKER_TIME_MARKED_FIRST_def MARKER_TIME_MARKED_LAST_def del: push_bit_of_1)

lemma time_marks:
  "skb_is_time_marked_first (time_mark_skb_first skb)"
  "skb_is_time_marked_last (time_mark_skb_last skb)"
  "skb_is_time_marked_first (time_mark_skb_last skb) = skb_is_time_marked_first skb"
  "skb_is_time_marked_last (time_mark_skb_first skb) = skb_is_time_marked_last skb"
  "read_next_idp_from_skb (time_mark_skb_first skb) = read_next_idp_from_skb skb"
  "read_next_idp_from_skb (time_mark_skb_last skb) = read_next_idp_from_skb skb"
  by (simp_all add: time_mark_bits time_mark_skb_first_def time_mark_skb_last_def
      MARKER_TIME_MARKED_FIRST_def MARKER_TIME_MARKED_LAST_def read_next_idp_from_skb_def bit_simps)

end
