(* ===== verification/Xt_Engine.thy ===== *)
theory Xt_Engine
  imports Xt_Skb "HOL-Library.Multiset"
begin

text \<open>The packet processing engine: \<open>src/src/xt_engine.c\<close> and
  \<open>src/src/xt_engine.h\<close>.

  The state \<open>kern\<close> adds to the block registry the per-CPU data of the engine and the fate
  of the packets: \<open>freed\<close> lists the buffers given back with \<open>kfree_skb\<close> in order,
  \<open>outbox\<close> those handed over to a device or to a socket, and \<open>next_skb\<close> numbers the buffers made by copying. A packet is processed on one CPU with
  preemption disabled; \<open>cpu\<close> is that CPU. The function behind \<open>netfb_rx\<close> is a
  parameter, \<open>nrx\<close>, of the engine. The loops of \<open>process_packet\<close> end only if the
  blocks let them, so they are partial functions whose result \<^const>\<open>None\<close> also stands for a loop
  that does not end.\<close>

section \<open>State\<close>

record engine_iostats =
  bytes :: u64
  pkts :: u64
  fblocks :: u64
  timer :: u64
  timer_cpu_miss :: u64

record engine_disc =
  ppe_backlog_queue :: "sk_buff list"
  active :: int
  disc_cpu :: nat

text \<open>Where packets leave: the queue of a device or the receive queue of a socket.\<close>

datatype endpoint = NetDevice nat | SockQueue nat

record 'p kern =
  tabs :: "'p lana"
  cpu :: nat
  iostats :: "engine_iostats list"
  emdiscs :: "engine_disc list"
  freed :: "nat list"
  outbox :: "(endpoint \<times> sk_buff) list"
  next_skb :: nat

abbreviation PPE_SUCCESS :: int where "PPE_SUCCESS \<equiv> 0"
abbreviation PPE_DROPPED :: int where "PPE_DROPPED \<equiv> 1"
abbreviation PPE_ERROR :: int where "PPE_ERROR \<equiv> 2"

type_synonym 'p netrx =
  "fb_module \<Rightarrow> ptr \<Rightarrow> sk_buff \<Rightarrow> path_type \<Rightarrow> 'p kern \<Rightarrow> (int \<times> sk_buff \<times> path_type \<times> 'p kern) option"

section \<open>Per-CPU data\<close>

definition upd_stats :: "(engine_iostats \<Rightarrow> engine_iostats) \<Rightarrow> 'p kern \<Rightarrow> 'p kern" where
  "upd_stats f s = s\<lparr>iostats := (iostats s)[cpu s := f (iostats s ! cpu s)]\<rparr>"

definition upd_disc :: "nat \<Rightarrow> (engine_disc \<Rightarrow> engine_disc) \<Rightarrow> 'p kern \<Rightarrow> 'p kern" where
  "upd_disc c f s = s\<lparr>emdiscs := (emdiscs s)[c := f (emdiscs s ! c)]\<rparr>"

definition engine_inc_pkts_stats :: "'p kern \<Rightarrow> 'p kern" where
  "engine_inc_pkts_stats s = upd_stats (\<lambda>io. io\<lparr>pkts := pkts io + 1\<rparr>) s"

definition engine_inc_fblock_stats :: "'p kern \<Rightarrow> 'p kern" where
  "engine_inc_fblock_stats s = upd_stats (\<lambda>io. io\<lparr>fblocks := fblocks io + 1\<rparr>) s"

definition engine_inc_timer_stats :: "'p kern \<Rightarrow> 'p kern" where
  "engine_inc_timer_stats s = upd_stats (\<lambda>io. io\<lparr>timer := timer io + 1\<rparr>) s"

definition engine_inc_timer_cpu_miss_stats :: "'p kern \<Rightarrow> 'p kern" where
  "engine_inc_timer_cpu_miss_stats s = upd_stats (\<lambda>io. io\<lparr>timer_cpu_miss := timer_cpu_miss io + 1\<rparr>) s"

definition engine_add_bytes_stats :: "nat \<Rightarrow> 'p kern \<Rightarrow> 'p kern" where
  "engine_add_bytes_stats n s = upd_stats (\<lambda>io. io\<lparr>bytes := bytes io + of_nat n\<rparr>) s"

definition kfree_skb :: "sk_buff \<Rightarrow> 'p kern \<Rightarrow> 'p kern" where
  "kfree_skb skb s = s\<lparr>freed := freed s @ [skb_id skb]\<rparr>"

definition engine_backlog_tail :: "sk_buff \<Rightarrow> path_type \<Rightarrow> 'p kern \<Rightarrow> 'p kern" where
  "engine_backlog_tail skb dir s =
     (let skb = write_path_to_skb skb dir in
      upd_disc (cpu s) (\<lambda>d. d\<lparr>ppe_backlog_queue := ppe_backlog_queue d @ [skb]\<rparr>) s)"

definition engine_backlog_queue_test_reduce ::
    "nat \<Rightarrow> 'p kern \<Rightarrow> (sk_buff \<times> path_type \<times> 'p kern) option" where
  "engine_backlog_queue_test_reduce c s =
     (case ppe_backlog_queue (emdiscs s ! c) of
        [] \<Rightarrow> None
      | skb # q \<Rightarrow> Some (skb, read_path_from_skb skb, upd_disc c (\<lambda>d. d\<lparr>ppe_backlog_queue := q\<rparr>) s))"

definition engine_backlog_test_reduce :: "'p kern \<Rightarrow> (sk_buff \<times> path_type \<times> 'p kern) option" where
  "engine_backlog_test_reduce s = engine_backlog_queue_test_reduce (cpu s) s"

definition engine_this_cpu_set_active :: "'p kern \<Rightarrow> 'p kern" where
  "engine_this_cpu_set_active s = upd_disc (cpu s) (\<lambda>d. d\<lparr>active := 1\<rparr>) s"

definition engine_this_cpu_set_inactive :: "'p kern \<Rightarrow> 'p kern" where
  "engine_this_cpu_set_inactive s = upd_disc (cpu s) (\<lambda>d. d\<lparr>active := 0\<rparr>) s"

definition engine_this_cpu_is_active :: "'p kern \<Rightarrow> bool" where
  "engine_this_cpu_is_active s \<longleftrightarrow> active (emdiscs s ! cpu s) \<noteq> 0"

section \<open>Processing of packets\<close>

text \<open>One turn of the inner loop for a packet whose next idp is \<open>cont\<close>, after the block was
  found: the block's receive function runs with a reference held.\<close>

definition run_fblock ::
    "'p fb_ops \<Rightarrow> 'p netrx \<Rightarrow> ptr \<Rightarrow> sk_buff \<Rightarrow> path_type \<Rightarrow> 'p kern \<Rightarrow>
       (int \<times> sk_buff \<times> path_type \<times> 'p kern) option" where
  "run_fblock ops nrx p skb dir s = do {
     fb \<leftarrow> fbs (tabs s) p;
     (ret, skb, dir, s) \<leftarrow> nrx (netfb_rx fb) p skb dir s;
     t \<leftarrow> put_fblock ops p (tabs s);
     Some (ret, skb, dir, engine_inc_fblock_stats (s\<lparr>tabs := t\<rparr>))
   }"

text \<open>The \<open>while\<close> loop over the blocks of one packet.\<close>

partial_function (option) process_fblocks ::
    "'p fb_ops \<Rightarrow> 'p netrx \<Rightarrow> sk_buff \<Rightarrow> path_type \<Rightarrow> int \<Rightarrow> 'p kern \<Rightarrow> (int \<times> 'p kern) option" where
  "process_fblocks ops nrx skb dir ret s =
     (if read_next_idp_from_skb skb = 0 then Some (ret, s)
      else do {
        (fb, t) \<leftarrow> search_fblock_rcu (read_next_idp_from_skb skb) (tabs s);
        (case fb of
           None \<Rightarrow> Some (PPE_ERROR, kfree_skb skb (s\<lparr>tabs := t\<rparr>))
         | Some p \<Rightarrow> do {
             (ret, skb, dir, s) \<leftarrow> run_fblock ops nrx p skb dir (s\<lparr>tabs := t\<rparr>);
             (if ret = PPE_DROPPED then Some (PPE_DROPPED, s)
              else process_fblocks ops nrx skb dir ret s)
           })
      })"

text \<open>The code from label \<open>pkt\<close> on, once per packet until the backlog of this CPU is empty.\<close>

partial_function (option) process_pkts ::
    "'p fb_ops \<Rightarrow> 'p netrx \<Rightarrow> sk_buff \<Rightarrow> path_type \<Rightarrow> 'p kern \<Rightarrow> (int \<times> 'p kern) option" where
  "process_pkts ops nrx skb dir s = do {
     (ret, s) \<leftarrow> process_fblocks ops nrx skb dir PPE_ERROR
       (engine_add_bytes_stats (length (skb_data skb)) (engine_inc_pkts_stats (engine_this_cpu_set_active s)));
     (case engine_backlog_test_reduce s of
        None \<Rightarrow> Some (ret, engine_this_cpu_set_inactive s)
      | Some (skb, dir, s) \<Rightarrow> process_pkts ops nrx skb dir s)
   }"

definition process_packet ::
    "'p fb_ops \<Rightarrow> 'p netrx \<Rightarrow> sk_buff \<Rightarrow> path_type \<Rightarrow> 'p kern \<Rightarrow> (int \<times> 'p kern) option" where
  "process_packet ops nrx skb dir s =
     (if engine_this_cpu_is_active s then Some (0, engine_backlog_tail skb dir s)
      else process_pkts ops nrx skb dir s)"

text \<open>The timer of CPU \<open>c\<close>, which may fire on another CPU; it is always restarted.\<close>

definition engine_timer_handler :: "'p fb_ops \<Rightarrow> 'p netrx \<Rightarrow> nat \<Rightarrow> 'p kern \<Rightarrow> 'p kern option" where
  "engine_timer_handler ops nrx c s =
     (let disc = emdiscs s ! c in
      if active disc \<noteq> 0 then Some (engine_inc_timer_stats s)
      else if ppe_backlog_queue disc = [] then Some (engine_inc_timer_stats s)
      else
        let s' = (if disc_cpu disc \<noteq> cpu s then engine_inc_timer_cpu_miss_stats s else s) in
        if disc_cpu disc \<noteq> cpu s \<and> length (ppe_backlog_queue disc) \<le> 150
        then Some (engine_inc_timer_stats s')
        else do {
          (skb, dir, s) \<leftarrow> engine_backlog_queue_test_reduce c s';
          (_, s) \<leftarrow> process_packet ops nrx skb dir s;
          Some (engine_inc_timer_stats s)
        })"

section \<open>Start and stop\<close>

definition engine_procfs :: "'p kern \<Rightarrow> (nat \<times> u64 \<times> u64 \<times> u64 \<times> u64 \<times> u64 \<times> nat) list" where
  "engine_procfs s =
     map (\<lambda>c. let io = iostats s ! c in
            (c, pkts io, bytes io, fblocks io, timer io, timer_cpu_miss io,
             length (ppe_backlog_queue (emdiscs s ! c))))
       [0..<length (iostats s)]"

definition init_engine :: "nat \<Rightarrow> 'p kern \<Rightarrow> int \<times> 'p kern" where
  "init_engine online s =
     (let (fails, t) = mem_fails (tabs s); s = s\<lparr>tabs := t\<rparr> in
      if fails then (- ENOMEM, s)
      else
        let io = replicate online \<lparr>bytes = 0, pkts = 0, fblocks = 0, timer = 0, timer_cpu_miss = 0\<rparr>;
            (fails, t) = mem_fails (tabs s); s = s\<lparr>tabs := t\<rparr> in
        if fails then (- ENOMEM, s)
        else
          let ds = map (\<lambda>c. \<lparr>ppe_backlog_queue = [], active = 0, disc_cpu = c\<rparr>) [0..<online];
              (fails, t) = mem_fails (tabs s); s = s\<lparr>tabs := t\<rparr> in
          if fails then (- ENOMEM, s)
          else (0, s\<lparr>iostats := io, emdiscs := ds,
                     tabs := (tabs s)\<lparr>lana_proc_dir := proc_create (lit ''ppe'') (lana_proc_dir (tabs s))\<rparr>\<rparr>))"

definition cleanup_engine :: "'p kern \<Rightarrow> 'p kern" where
  "cleanup_engine s =
     (let s = s\<lparr>freed := freed s @ concat (map (\<lambda>d. map skb_id (ppe_backlog_queue d)) (emdiscs s))\<rparr> in
      s\<lparr>iostats := [], emdiscs := [],
        tabs := (tabs s)\<lparr>lana_proc_dir := remove_proc_entry (lit ''ppe'') (lana_proc_dir (tabs s))\<rparr>\<rparr>)"

section \<open>Frame of the per-CPU updates\<close>

lemma upt_append: "i \<le> j \<Longrightarrow> j \<le> k \<Longrightarrow> [i..<j] @ [j..<k] = [i..<k]"
  by (metis le_add_diff_inverse upt_add_eq_append)

lemma upd_stats_simps [simp]:
  "tabs (upd_stats f s) = tabs s" "cpu (upd_stats f s) = cpu s" "emdiscs (upd_stats f s) = emdiscs s"
  "freed (upd_stats f s) = freed s" "outbox (upd_stats f s) = outbox s" "next_skb (upd_stats f s) = next_skb s"
  by (simp_all add: upd_stats_def)

lemma upd_disc_simps [simp]:
  "tabs (upd_disc c f s) = tabs s" "cpu (upd_disc c f s) = cpu s" "iostats (upd_disc c f s) = iostats s"
  "freed (upd_disc c f s) = freed s" "outbox (upd_disc c f s) = outbox s" "next_skb (upd_disc c f s) = next_skb s"
  "emdiscs (upd_disc c f s) = (emdiscs s)[c := f (emdiscs s ! c)]"
  by (simp_all add: upd_disc_def)

lemmas engine_update_defs = engine_inc_pkts_stats_def engine_inc_fblock_stats_def
  engine_inc_timer_stats_def engine_inc_timer_cpu_miss_stats_def engine_add_bytes_stats_def
  engine_this_cpu_set_active_def engine_this_cpu_set_inactive_def

abbreviation backlog :: "'p kern \<Rightarrow> sk_buff list" where
  "backlog s \<equiv> ppe_backlog_queue (emdiscs s ! cpu s)"

text \<open>The packets that are out of circulation: freed, or handed over.\<close>

definition gone :: "'p kern \<Rightarrow> nat multiset" where
  "gone s = mset (freed s) + mset (map (\<lambda>(_, skb). skb_id skb) (outbox s))"

lemma gone_upds [simp]:
  "gone (upd_stats f s) = gone s" "gone (upd_disc c g s) = gone s" "gone (s\<lparr>tabs := t\<rparr>) = gone s"
  "gone (s\<lparr>next_skb := n\<rparr>) = gone s" "gone (s\<lparr>emdiscs := e\<rparr>) = gone s"
  "gone (kfree_skb skb s) = add_mset (skb_id skb) (gone s)"
  by (simp_all add: gone_def kfree_skb_def)

abbreviation live_pkts :: "sk_buff list \<Rightarrow> nat multiset" where
  "live_pkts q \<equiv> mset (map skb_id (filter (\<lambda>x. read_next_idp_from_skb x \<noteq> 0) q))"

section \<open>The interface to the modules: receive functions\<close>

text \<open>What a block's receive function does to the engine when it is given packet \<open>skb\<close>: it
  may append copies of the packet to the backlog of its CPU, at most one and only for blocks further
  down, and it either takes the packet out of circulation or hands it on to a block further down.\<close>

definition fblock_step_ok :: "(idp_t \<Rightarrow> nat) \<Rightarrow> sk_buff \<Rightarrow> 'p kern \<Rightarrow> int \<Rightarrow> sk_buff \<Rightarrow> 'p kern \<Rightarrow> sk_buff list \<Rightarrow> bool" where
  "fblock_step_ok rank skb s ret skb' s' cl \<longleftrightarrow>
     cpu s' = cpu s \<and>
     emdiscs s' = (emdiscs s)[cpu s := (emdiscs s ! cpu s)\<lparr>ppe_backlog_queue := backlog s @ cl\<rparr>] \<and>
     length cl \<le> 1 \<and>
     (\<forall>c \<in> set cl. read_next_idp_from_skb c \<noteq> 0 \<and>
        rank (read_next_idp_from_skb c) < rank (read_next_idp_from_skb skb)) \<and>
     next_skb s \<le> next_skb s' \<and> map skb_id cl = [next_skb s..<next_skb s'] \<and>
     (if ret = PPE_DROPPED then gone s' = add_mset (skb_id skb) (gone s)
      else gone s' = gone s \<and> skb_id skb' = skb_id skb \<and> read_next_idp_from_skb skb' \<noteq> 0 \<and>
           rank (read_next_idp_from_skb skb') < rank (read_next_idp_from_skb skb))"

locale packet_handlers =
  fixes ops :: "'p fb_ops" and nrx :: "'p netrx"
    and pinv :: "nat \<Rightarrow> 'p lana \<Rightarrow> bool" and rank :: "idp_t \<Rightarrow> nat"
  assumes registered: "pinv c t \<Longrightarrow> fblmap t i = Some p \<Longrightarrow> fbs t p \<noteq> None"
    and step: "pinv (cpu s) (tabs s) \<Longrightarrow> cpu s < length (emdiscs s) \<Longrightarrow>
      read_next_idp_from_skb skb = i \<Longrightarrow> i \<noteq> 0 \<Longrightarrow> fblmap (tabs s) i = Some p \<Longrightarrow>
      get_fblock p (tabs s) = Some t \<Longrightarrow>
      \<exists>ret skb' dir' s' cl. run_fblock ops nrx p skb dir (s\<lparr>tabs := t\<rparr>) = Some (ret, skb', dir', s') \<and>
        pinv (cpu s) (tabs s') \<and> fblock_step_ok rank skb s ret skb' s' cl"
begin

definition weight :: "sk_buff list \<Rightarrow> nat" where
  "weight q = (\<Sum>x\<leftarrow>q. 3 ^ rank (read_next_idp_from_skb x))"

lemma weight_simps [simp]:
  "weight [] = 0" "weight (x # q) = 3 ^ rank (read_next_idp_from_skb x) + weight q"
  "weight (q @ q') = weight q + weight q'"
  by (simp_all add: weight_def)

lemma weight_clones:
  assumes "length cl \<le> 1" "\<forall>c \<in> set cl. rank (read_next_idp_from_skb c) < r"
  shows "3 * weight cl \<le> 3 ^ r"
proof (cases cl)
  case (Cons c cl')
  with assms have c: "cl = [c]" "rank (read_next_idp_from_skb c) < r" by auto
  then have "(3 :: nat) ^ Suc (rank (read_next_idp_from_skb c)) \<le> 3 ^ r"
    by (intro power_increasing) auto
  then show ?thesis using c by simp
qed simp

lemma process_fblocks_ends:
  assumes "pinv (cpu s) (tabs s)" "cpu s < length (emdiscs s)"
  shows "\<exists>ret' s' cl. process_fblocks ops nrx skb dir ret s = Some (ret', s') \<and>
     pinv (cpu s) (tabs s') \<and> cpu s' = cpu s \<and>
     emdiscs s' = (emdiscs s)[cpu s := (emdiscs s ! cpu s)\<lparr>ppe_backlog_queue := backlog s @ cl\<rparr>] \<and>
     weight cl < 3 ^ rank (read_next_idp_from_skb skb) \<and>
     (\<forall>c \<in> set cl. read_next_idp_from_skb c \<noteq> 0) \<and>
     next_skb s \<le> next_skb s' \<and> map skb_id cl = [next_skb s..<next_skb s'] \<and>
     gone s' = gone s + live_pkts [skb]"
  using assms
proof (induction "rank (read_next_idp_from_skb skb)" arbitrary: skb dir ret s rule: less_induct)
  case less
  let ?i = "read_next_idp_from_skb skb"
  note unfold = process_fblocks.simps[of ops nrx skb dir ret s]
  consider (zero) "?i = 0" | (none) "?i \<noteq> 0" "fblmap (tabs s) ?i = None"
    | (some) p where "?i \<noteq> 0" "fblmap (tabs s) ?i = Some p" by fastforce
  then show ?case
  proof cases
    case zero
    then show ?thesis using less.prems by (intro exI[of _ ret] exI[of _ s] exI[of _ "[]"]) (simp add: unfold)
  next
    case none
    then show ?thesis using less.prems
      by (intro exI[of _ PPE_ERROR] exI[of _ "kfree_skb skb s"] exI[of _ "[]"])
        (simp add: unfold search_fblock_rcu_def, simp add: kfree_skb_def)
  next
    case some
    then obtain fb where "fbs (tabs s) p = Some fb" using registered[OF less.prems(1)] by blast
    then obtain t where t: "get_fblock p (tabs s) = Some t" by simp
    from step[OF less.prems refl some t] obtain r1 skb1 dir1 s1 cl1 where
      run: "run_fblock ops nrx p skb dir (s\<lparr>tabs := t\<rparr>) = Some (r1, skb1, dir1, s1)"
      and p1: "pinv (cpu s) (tabs s1)" and ok: "fblock_step_ok rank skb s r1 skb1 s1 cl1"
      by blast
    have eq: "process_fblocks ops nrx skb dir ret s =
        (if r1 = PPE_DROPPED then Some (PPE_DROPPED, s1) else process_fblocks ops nrx skb1 dir1 r1 s1)"
      using some t run by (simp add: unfold search_fblock_rcu_def)
    have w1: "3 * weight cl1 \<le> 3 ^ rank ?i"
      using ok by (intro weight_clones) (auto simp: fblock_step_ok_def)
    show ?thesis
    proof (cases "r1 = PPE_DROPPED")
      case True
      have "0 < (3 :: nat) ^ rank ?i" by simp
      then have "weight cl1 < 3 ^ rank ?i" using w1 by linarith
      with True ok eq p1 some show ?thesis
        by (intro exI[of _ PPE_DROPPED] exI[of _ s1] exI[of _ cl1]) (simp add: fblock_step_ok_def)
    next
      case False
      with ok have lt: "rank (read_next_idp_from_skb skb1) < rank ?i"
        and q1: "cpu s1 = cpu s" "cpu s1 < length (emdiscs s1)" "read_next_idp_from_skb skb1 \<noteq> 0"
          "gone s1 = gone s" "skb_id skb1 = skb_id skb"
        using less.prems(2) by (auto simp: fblock_step_ok_def)
      from less.hyps[OF lt _ q1(2), of dir1 r1] p1 q1(1) obtain r2 s2 cl2 where
        "process_fblocks ops nrx skb1 dir1 r1 s1 = Some (r2, s2)"
        "pinv (cpu s) (tabs s2)" "cpu s2 = cpu s"
        "emdiscs s2 = (emdiscs s1)[cpu s1 := (emdiscs s1 ! cpu s1)\<lparr>ppe_backlog_queue := backlog s1 @ cl2\<rparr>]"
        "weight cl2 < 3 ^ rank (read_next_idp_from_skb skb1)"
        "\<forall>c \<in> set cl2. read_next_idp_from_skb c \<noteq> 0"
        "next_skb s1 \<le> next_skb s2" "map skb_id cl2 = [next_skb s1..<next_skb s2]"
        "gone s2 = gone s1 + live_pkts [skb1]"
        by auto
      note s2 = this
      have "(3 :: nat) * 3 ^ rank (read_next_idp_from_skb skb1) \<le> 3 ^ rank ?i"
        using lt power_increasing[of "Suc (rank (read_next_idp_from_skb skb1))" "rank ?i" "3 :: nat"] by simp
      then have w: "weight (cl1 @ cl2) < 3 ^ rank ?i" using w1 s2(5) by simp
      have em: "emdiscs s2 = (emdiscs s)[cpu s := (emdiscs s ! cpu s)\<lparr>ppe_backlog_queue := backlog s @ (cl1 @ cl2)\<rparr>]"
        using s2(4) ok less.prems(2) q1(1) by (simp add: fblock_step_ok_def)
      have ids: "map skb_id (cl1 @ cl2) = [next_skb s..<next_skb s2]" "next_skb s \<le> next_skb s2"
        using ok s2(7,8) upt_append[of "next_skb s" "next_skb s1" "next_skb s2"]
        by (auto simp: fblock_step_ok_def)
      have nz: "\<forall>c \<in> set (cl1 @ cl2). read_next_idp_from_skb c \<noteq> 0"
        using ok s2(6) by (auto simp: fblock_step_ok_def)
      show ?thesis
        using eq False s2(1,2,3,9) em w ids nz q1 some
        by (intro exI[of _ r2] exI[of _ s2] exI[of _ "cl1 @ cl2"]) simp
    qed
  qed
qed

lemma process_pkts_ends:
  assumes "pinv (cpu s) (tabs s)" "cpu s < length (emdiscs s)"
  shows "\<exists>ret s'. process_pkts ops nrx skb dir s = Some (ret, s') \<and>
     pinv (cpu s) (tabs s') \<and> cpu s' = cpu s \<and>
     emdiscs s' = (emdiscs s)[cpu s := (emdiscs s ! cpu s)\<lparr>ppe_backlog_queue := [], active := 0\<rparr>] \<and>
     next_skb s \<le> next_skb s' \<and>
     gone s' = gone s + live_pkts (skb # backlog s) + mset [next_skb s..<next_skb s']"
  using assms
proof (induction "weight (skb # backlog s)" arbitrary: skb dir s rule: less_induct)
  case less
  let ?s0 = "engine_add_bytes_stats (length (skb_data skb)) (engine_inc_pkts_stats (engine_this_cpu_set_active s))"
  have s0: "pinv (cpu ?s0) (tabs ?s0)" "cpu ?s0 < length (emdiscs ?s0)" "cpu ?s0 = cpu s"
    "gone ?s0 = gone s" "next_skb ?s0 = next_skb s" "ppe_backlog_queue (emdiscs ?s0 ! cpu s) = backlog s"
    using less.prems by (simp_all add: engine_update_defs)
  from process_fblocks_ends[OF s0(1,2), of skb dir PPE_ERROR] obtain r1 s1 cl where
    run: "process_fblocks ops nrx skb dir PPE_ERROR ?s0 = Some (r1, s1)"
    and s1: "pinv (cpu s) (tabs s1)" "cpu s1 = cpu s"
     "emdiscs s1 = (emdiscs ?s0)[cpu s := (emdiscs ?s0 ! cpu s)\<lparr>ppe_backlog_queue := backlog s @ cl\<rparr>]"
     "weight cl < 3 ^ rank (read_next_idp_from_skb skb)"
     "\<forall>c \<in> set cl. read_next_idp_from_skb c \<noteq> 0"
     "next_skb s \<le> next_skb s1" "map skb_id cl = [next_skb s..<next_skb s1]"
     "gone s1 = gone s + live_pkts [skb]"
    unfolding s0(3-6) by blast
  have em1: "emdiscs s1 = (emdiscs s)[cpu s := (emdiscs s ! cpu s)\<lparr>active := 1, ppe_backlog_queue := backlog s @ cl\<rparr>]"
    using s1(3) less.prems(2) by (simp add: engine_update_defs)
  have cl: "live_pkts cl = mset [next_skb s..<next_skb s1]"
    using s1(5) by (simp add: filter_id_conv flip: s1(7))
  show ?case
  proof (cases "backlog s @ cl")
    case Nil
    let ?s2 = "engine_this_cpu_set_inactive s1"
    have "process_pkts ops nrx skb dir s = Some (r1, ?s2)"
      using run em1 s1(2) Nil less.prems(2)
      by (simp add: process_pkts.simps[of ops nrx skb dir s] engine_backlog_test_reduce_def
          engine_backlog_queue_test_reduce_def)
    moreover have "emdiscs ?s2 = (emdiscs s)[cpu s := (emdiscs s ! cpu s)\<lparr>ppe_backlog_queue := [], active := 0\<rparr>]"
      using em1 s1(2) Nil less.prems(2) by (simp add: engine_update_defs)
    ultimately show ?thesis
      using s1 Nil by (intro exI[of _ r1] exI[of _ ?s2]) (simp add: engine_update_defs)
  next
    case (Cons x q)
    let ?s2 = "upd_disc (cpu s) (\<lambda>d. d\<lparr>ppe_backlog_queue := q\<rparr>) s1"
    have eq: "process_pkts ops nrx skb dir s = process_pkts ops nrx x (read_path_from_skb x) ?s2"
      using run em1 s1(2) Cons less.prems(2)
      by (simp add: process_pkts.simps[of ops nrx skb dir s] engine_backlog_test_reduce_def
          engine_backlog_queue_test_reduce_def)
    have s2: "cpu ?s2 = cpu s" "pinv (cpu ?s2) (tabs ?s2)" "cpu ?s2 < length (emdiscs ?s2)" "ppe_backlog_queue (emdiscs ?s2 ! cpu s) = q"
      "gone ?s2 = gone s1" "next_skb ?s2 = next_skb s1"
      using s1(1,2) em1 less.prems(2) by simp_all
    have "weight (backlog s @ cl) < weight (skb # backlog s)" using s1(4) by simp
    then have lt: "weight (x # backlog ?s2) < weight (skb # backlog s)" unfolding s2(1,4) Cons .
    from less.hyps[OF lt s2(2,3), of "read_path_from_skb x"] obtain r3 s3 where
      s3: "process_pkts ops nrx x (read_path_from_skb x) ?s2 = Some (r3, s3)"
      "pinv (cpu s) (tabs s3)" "cpu s3 = cpu s"
      "emdiscs s3 = (emdiscs ?s2)[cpu s := (emdiscs ?s2 ! cpu s)\<lparr>ppe_backlog_queue := [], active := 0\<rparr>]"
      "next_skb s1 \<le> next_skb s3"
      "gone s3 = gone s1 + live_pkts (x # q) + mset [next_skb s1..<next_skb s3]"
      unfolding s2 by blast
    have "gone s3 = gone s + live_pkts [skb] + live_pkts (backlog s @ cl) + mset [next_skb s1..<next_skb s3]"
      unfolding s3(6) s1(8) Cons ..
    also have "\<dots> = gone s + live_pkts (skb # backlog s) +
        mset ([next_skb s..<next_skb s1] @ [next_skb s1..<next_skb s3])"
      using cl by simp
    finally have fr: "gone s3 = gone s + live_pkts (skb # backlog s) + mset [next_skb s..<next_skb s3]"
      using upt_append[OF s1(6) s3(5)] by simp
    have "emdiscs s3 = (emdiscs s)[cpu s := (emdiscs s ! cpu s)\<lparr>ppe_backlog_queue := [], active := 0\<rparr>]"
      using s3(4) em1 s1(2) less.prems(2) by simp
    then show ?thesis
      using eq s3 fr s1(6) by (intro exI[of _ r3] exI[of _ s3]) simp
  qed
qed

end

end
