(* ===== verification/Xt_Builder.thy ===== *)
theory Xt_Builder
  imports Xt_Fblock
begin

text \<open>Block types and the construction of blocks: \<open>src/src/xt_builder.c\<close>.

  The table of types is a crit-bit tree over the static factory structures of the modules, keyed by
  their first field, the type name. \<open>factory_addr\<close> gives every factory a cache-line aligned
  address. The constructor a factory points to is the parameter \<open>ctor\<close>.\<close>

section \<open>Factories\<close>

definition factories :: "fb_module list" where
  "factories = [FB_DUMMY, FB_TEE, FB_COUNTER, FB_BPF]"

fun factory_addr :: "fb_module \<Rightarrow> ptr" where
  "factory_addr FB_DUMMY = 64"
| "factory_addr FB_TEE = 128"
| "factory_addr FB_COUNTER = 192"
| "factory_addr FB_BPF = 256"
| "factory_addr _ = 0"

definition factory_at :: "ptr \<Rightarrow> fb_module option" where
  "factory_at p = List.find (\<lambda>m. factory_addr m = p) factories"

definition factory_name_at :: "ptr \<Rightarrow> cstr" where
  "factory_name_at p = (case factory_at p of None \<Rightarrow> [] | Some m \<Rightarrow> factory_type m)"

section \<open>Operations\<close>

definition register_fblock_type :: "fb_module \<Rightarrow> 'p lana \<Rightarrow> (int \<times> 'p lana) option" where
  "register_fblock_type fops s = do {
     let (nomem, s) = mem_fails s;
     (ret, t) \<leftarrow> critbit_insert factory_name_at nomem (fbmap s) (factory_addr fops);
     Some (ret, s\<lparr>fbmap := t\<rparr>)
   }"

definition unregister_fblock_type :: "fb_module \<Rightarrow> 'p lana \<Rightarrow> 'p lana" where
  "unregister_fblock_type fops s =
     s\<lparr>fbmap := snd (critbit_delete factory_name_at (fbmap s) (factory_type fops))\<rparr>"

definition build_fblock_object ::
    "(fb_module \<Rightarrow> cstr \<Rightarrow> 'p lana \<Rightarrow> (ptr option \<times> 'p lana) option) \<Rightarrow>
      cstr \<Rightarrow> cstr \<Rightarrow> 'p lana \<Rightarrow> (ptr option \<times> 'p lana) option" where
  "build_fblock_object ctor type name s =
     (case critbit_get factory_name_at (fbmap s) type of
        None \<Rightarrow> Some (None, s)
      | Some f \<Rightarrow> do {
          m \<leftarrow> factory_at f;
          (fb, s) \<leftarrow> ctor m name s;
          case fb of
            None \<Rightarrow> Some (None, s)
          | Some p \<Rightarrow> do {
              s \<leftarrow> mod_fb p (\<lambda>fb. fb\<lparr>factory := Some m\<rparr>) s;
              Some (Some p, s)
            }
        })"

definition init_fblock_builder :: "'p lana \<Rightarrow> (int \<times> 'p lana) option" where
  "init_fblock_builder s = do {
     s \<leftarrow> get_critbit_cache s;
     Some (0, s\<lparr>fbmap := None\<rparr>)
   }"

definition cleanup_fblock_builder :: "'p fb_ops \<Rightarrow> 'p lana \<Rightarrow> 'p lana option" where
  "cleanup_fblock_builder ops s = put_critbit_cache ops s"

section \<open>The table of types\<close>

definition types_inv :: "'p lana \<Rightarrow> bool" where
  "types_inv s \<longleftrightarrow>
     critbit_inv factory_name_at (fbmap s) \<and> critbit_elems (fbmap s) \<subseteq> factory_addr ` set factories"

lemma factory_facts:
  assumes "m \<in> set factories"
  shows "factory_at (factory_addr m) = Some m" "factory_name_at (factory_addr m) = factory_type m"
    "is_cstr (factory_type m)" "factory_addr m mod SMP_CACHE_BYTES = 0"
  using assms
  by (auto simp: factories_def factory_at_def factory_name_at_def factory_type_def lit_def is_cstr_def
      SMP_CACHE_BYTES_def)

lemma factory_types_differ:
  "m \<in> set factories \<Longrightarrow> m' \<in> set factories \<Longrightarrow> factory_type m = factory_type m' \<Longrightarrow> m = m'"
  by (auto simp: factories_def factory_type_def lit_def)

lemma types_get:
  assumes "types_inv s" "m \<in> set factories"
  shows "critbit_get factory_name_at (fbmap s) (factory_type m) =
     (if factory_addr m \<in> critbit_elems (fbmap s) then Some (factory_addr m) else None)"
proof -
  have inv: "critbit_inv factory_name_at (fbmap s)" using assms(1) by (simp add: types_inv_def)
  have "p = factory_addr m" if p: "p \<in> critbit_elems (fbmap s)" "factory_name_at p = factory_type m" for p
  proof -
    obtain m' where "m' \<in> set factories" "p = factory_addr m'"
      using p(1) assms(1) unfolding types_inv_def by blast
    with p(2) factory_facts[of m'] factory_types_differ[of m' m] assms(2) show ?thesis by simp
  qed
  note only = this
  show ?thesis
  proof (cases "factory_addr m \<in> critbit_elems (fbmap s)")
    case True
    then show ?thesis
      using critbit_get_iff[OF inv, of "factory_type m" "factory_addr m"] factory_facts(2)[OF assms(2)] by simp
  next
    case False
    then have "\<forall>p \<in> critbit_elems (fbmap s). factory_name_at p \<noteq> factory_type m" using only by blast
    then have "critbit_get factory_name_at (fbmap s) (factory_type m) = None"
      using cb.get_None_iff[OF inv] by simp
    with False show ?thesis by simp
  qed
qed

lemma register_type_result:
  assumes "types_inv s" "m \<in> set factories" "kmem s = []"
  obtains r s' where "register_fblock_type m s = Some (r, s')" "types_inv s'"
    "r = (if factory_addr m \<in> critbit_elems (fbmap s) then - EEXIST else 0)"
    "critbit_elems (fbmap s') = insert (factory_addr m) (critbit_elems (fbmap s))"
    "s' = s\<lparr>fbmap := fbmap s'\<rparr>"
proof -
  have inv: "critbit_inv factory_name_at (fbmap s)" using assms(1) by (simp add: types_inv_def)
  note f = factory_facts[OF assms(2)]
  obtain r t where ins: "critbit_insert factory_name_at False (fbmap s) (factory_addr m) = Some (r, t)"
    and t: "critbit_inv factory_name_at t" "r = 0 \<or> r = - ENOMEM \<or> r = - EEXIST"
    "r = 0 \<longleftrightarrow> critbit_get factory_name_at (fbmap s) (factory_name_at (factory_addr m)) = None \<and> (\<not> False \<or> fbmap s = None)"
    "critbit_elems t = (if r = 0 then insert (factory_addr m) (critbit_elems (fbmap s)) else critbit_elems (fbmap s))"
    by (rule cb.ins_result[OF inv, of "factory_addr m" False]) (use f in simp_all)
  have get: "critbit_get factory_name_at (fbmap s) (factory_type m) = None \<longleftrightarrow>
      factory_addr m \<notin> critbit_elems (fbmap s)"
    using types_get[OF assms(1,2)] by auto
  have r: "r = (if factory_addr m \<in> critbit_elems (fbmap s) then - EEXIST else 0)"
  proof (cases "factory_addr m \<in> critbit_elems (fbmap s)")
    case True
    have "critbit_insert factory_name_at False (fbmap s) (factory_addr m) = Some (- EEXIST, fbmap s)"
      by (rule critbit_insert_exists[OF inv _ _ True]) (use f in simp_all)
    with ins True show ?thesis by simp
  next
    case False
    with t(3) get f show ?thesis by simp
  qed
  have elems: "critbit_elems t = insert (factory_addr m) (critbit_elems (fbmap s))"
    using t(4) r by (auto split: if_splits)
  have "types_inv (s\<lparr>fbmap := t\<rparr>)"
    using t(1) elems assms(1,2) by (auto simp: types_inv_def)
  then show ?thesis
    using ins assms(3) r elems by (intro that[of r "s\<lparr>fbmap := t\<rparr>"]) (simp_all add: register_fblock_type_def)
qed

section \<open>Properties\<close>

text \<open>C22: Only registered types build blocks. Once a module has registered its factory (a second
  registration is refused with \<open>-EEXIST\<close>), a request for its type calls exactly that
  module's constructor, and a constructed block carries its factory; a request for the type of a
  module that has not registered yields no block and changes nothing.\<close>
theorem build_by_type:
  fixes s :: "'p lana"
  assumes "types_inv s" "m \<in> set factories" "kmem s = []"
  shows "\<exists>r s'. register_fblock_type m s = Some (r, s') \<and> types_inv s' \<and> register_fblock_type m s' = Some (- EEXIST, s') \<and>
     (\<forall>ctor name p s2 fb. ctor m name s' = Some (Some p, s2) \<and> fbs s2 p = Some fb \<longrightarrow>
        build_fblock_object ctor (factory_type m) name s' =
          Some (Some p, upd_fb p (fb\<lparr>factory := Some m\<rparr>) s2)) \<and>
     (r = 0 \<longrightarrow> (\<forall>ctor name. build_fblock_object ctor (factory_type m) name s = Some (None, s)))"
proof -
  obtain r s' where s': "register_fblock_type m s = Some (r, s')" "types_inv s'"
    "r = (if factory_addr m \<in> critbit_elems (fbmap s) then - EEXIST else 0)"
    "critbit_elems (fbmap s') = insert (factory_addr m) (critbit_elems (fbmap s))"
    "s' = s\<lparr>fbmap := fbmap s'\<rparr>"
    using register_type_result[OF assms] by metis
  note f = factory_facts[OF assms(2)]
  have "kmem (s\<lparr>fbmap := fbmap s'\<rparr>) = []" using assms(3) by simp
  then have "kmem s' = []" using s'(5) by metis
  moreover have "critbit_insert factory_name_at False (fbmap s') (factory_addr m) = Some (- EEXIST, fbmap s')"
    using s'(2,4) f by (intro critbit_insert_exists[where p = "factory_addr m"]) (simp_all add: types_inv_def)
  ultimately have again: "register_fblock_type m s' = Some (- EEXIST, s')"
    by (simp add: register_fblock_type_def)
  have get: "critbit_get factory_name_at (fbmap s') (factory_type m) = Some (factory_addr m)"
    using types_get[OF s'(2) assms(2)] s'(4) by simp
  have build: "build_fblock_object ctor (factory_type m) name s' = Some (Some p, upd_fb p (fb\<lparr>factory := Some m\<rparr>) s2)"
    if "ctor m name s' = Some (Some p, s2)" "fbs s2 p = Some fb" for ctor name p s2 fb
    using that get f by (simp add: build_fblock_object_def)
  have none: "build_fblock_object ctor (factory_type m) name s = Some (None, s)" if "r = 0" for ctor name
    using that s'(3) types_get[OF assms(1,2)] by (simp add: build_fblock_object_def split: if_splits)
  show ?thesis using s'(1,2) again build none by blast
qed

theorem build_by_type_witness:
  "\<exists>s'. register_fblock_type FB_TEE (lana_boot :: unit lana) = Some (0, s') \<and>
        register_fblock_type FB_TEE s' = Some (- EEXIST, s')"
proof -
  have "types_inv (lana_boot :: unit lana)" "FB_TEE \<in> set factories" "kmem (lana_boot :: unit lana) = []"
    by (simp_all add: types_inv_def lana_boot_def critbit_inv_def critbit_elems_def factories_def)
  from build_by_type[OF this] show ?thesis
    by (auto simp: register_fblock_type_def lana_boot_def critbit_insert_def SMP_CACHE_BYTES_def)
qed

end
