(* ===== verification/Lana_Text.thy ===== *)
theory Lana_Text
  imports Lana_Prelude
begin

text \<open>Numbers as text, which the proc files of the kernel modules and the tools write and read: the digits of
  \<open>snprintf\<close>, the scan of \<open>strtoul\<close>, and that one inverts the other.\<close>

section \<open>Writing and reading\<close>

text \<open>Numbers as \<open>snprintf\<close> writes them in base 10 and 16.\<close>

definition digit_char :: "nat \<Rightarrow> u8" where
  "digit_char v = (if v < 10 then of_nat (48 + v) else of_nat (87 + v))"

fun num_text :: "nat \<Rightarrow> nat \<Rightarrow> cstr" where
  "num_text b n =
     (if b \<le> 1 \<or> n < b then [digit_char n] else num_text b (n div b) @ [digit_char (n mod b)])"

declare num_text.simps [simp del]

lemma unat_digit_char: "v < 16 \<Longrightarrow> unat (digit_char v) = (if v < 10 then 48 + v else 87 + v)"
  by (simp add: digit_char_def unsigned_of_nat take_bit_nat_def del: of_nat_add)

definition xdigit_val :: "u8 \<Rightarrow> nat option" where
  "xdigit_val c =
     (let v = unat c in
      if 48 \<le> v \<and> v \<le> 57 then Some (v - 48)
      else if 97 \<le> v \<and> v \<le> 102 then Some (v - 87)
      else if 65 \<le> v \<and> v \<le> 70 then Some (v - 55)
      else None)"

fun strtoul_digits :: "nat \<Rightarrow> nat \<Rightarrow> cstr \<Rightarrow> (nat \<times> cstr) option" where
  "strtoul_digits base acc [] = None"
| "strtoul_digits base acc (c # cs) =
     (case xdigit_val c of
        Some v \<Rightarrow> if v < base then strtoul_digits base (acc * base + v) cs else Some (acc, c # cs)
      | None \<Rightarrow> Some (acc, c # cs))"

section \<open>Reading back\<close>

lemma xdigit_val_digit_char: "v < 16 \<Longrightarrow> xdigit_val (digit_char v) = Some v"
  by (auto simp: xdigit_val_def unat_digit_char Let_def)

lemma strtoul_digits_num_text:
  "2 \<le> b \<Longrightarrow> b \<le> 16 \<Longrightarrow>
     strtoul_digits b acc (num_text b n @ r) = strtoul_digits b (acc * b ^ length (num_text b n) + n) r"
proof (induction b n arbitrary: acc r rule: num_text.induct)
  case (1 b n)
  show ?case
  proof (cases "n < b")
    case True
    then have "num_text b n = [digit_char n]" by (simp add: num_text.simps[of b n])
    with True 1(2,3) show ?thesis by (simp add: xdigit_val_digit_char)
  next
    case False
    then have eq: "num_text b n = num_text b (n div b) @ [digit_char (n mod b)]"
      using 1(2) by (simp add: num_text.simps[of b n])
    have d: "n mod b < b" "n mod b < 16" using 1(2,3) by (simp_all add: less_le_trans[of "n mod b" b])
    have "strtoul_digits b acc (num_text b n @ r) =
        strtoul_digits b (acc * b ^ length (num_text b (n div b)) + n div b) (digit_char (n mod b) # r)"
      using 1(1)[OF _ 1(2,3), of acc "digit_char (n mod b) # r"] False 1(2) by (simp add: eq)
    also have "\<dots> = strtoul_digits b (acc * b ^ length (num_text b n) + n) r"
      using d by (simp add: xdigit_val_digit_char eq algebra_simps)
    finally show ?thesis .
  qed
qed

lemma num_text_first: "\<exists>v ds. num_text b n = digit_char v # ds \<and> (2 \<le> b \<longrightarrow> v < b)"
proof (induction b n rule: num_text.induct)
  case (1 b n)
  show ?case
  proof (cases "b \<le> 1 \<or> n < b")
    case True
    then show ?thesis by (auto simp: num_text.simps[of b n])
  next
    case False
    with 1 show ?thesis by (auto simp: num_text.simps[of b n])
  qed
qed

lemma length_num_text:
  "2 \<le> b \<Longrightarrow> n < b ^ Suc k \<Longrightarrow> length (num_text b n) \<le> Suc k"
proof (induction k arbitrary: n)
  case 0
  then show ?case by (simp add: num_text.simps[of b n])
next
  case (Suc k)
  show ?case
  proof (cases "n < b")
    case False
    have "n div b < b ^ Suc k" using Suc.prems by (simp add: less_mult_imp_div_less mult.commute)
    from Suc.IH[OF Suc.prems(1) this] False Suc.prems(1) show ?thesis by (simp add: num_text.simps[of b n])
  qed (simp add: num_text.simps[of b n])
qed

end
