(* ===== verification/Fb_Common.thy ===== *)
theory Fb_Common
  imports Xt_Engine Xt_Builder Lana_Text
begin

text \<open>What the modules of functional blocks share: the layout of their private data and the patterns
  their code repeats.

  The private data of a block is per-CPU memory: a list with one entry for every online CPU. The
  \<open>void *\<close> that points to it is the type \<open>fb_priv\<close>; reading it as the data of another
  module is undefined behaviour (\<^const>\<open>None\<close>). An array \<open>port[2]\<close> indexed by the path
  is a function of the path.\<close>

section \<open>Private data\<close>

record fb_dummy_priv =
  dummy_port :: "path_type \<Rightarrow> idp_t"

record fb_tee_priv =
  tee_port :: "path_type \<Rightarrow> idp_t"
  port_clone :: idp_t

record fb_counter_priv =
  counter_port :: "path_type \<Rightarrow> idp_t"
  packets :: u64
  cbytes :: u64

text \<open>An instruction of the kernel's packet filter, \<open>struct sock_filter\<close>.\<close>

record sock_filter =
  bf_code :: u16
  bf_jt :: u8
  bf_jf :: u8
  bf_k :: u32

record fb_bpf_priv =
  bpf_port :: "path_type \<Rightarrow> idp_t"
  bpf_filter :: "sock_filter list option"

text \<open>Devices and sockets are known by a number.\<close>

record fb_eth_priv =
  eth_port :: "path_type \<Rightarrow> idp_t"
  eth_dev :: nat

record fb_pflana_priv =
  pflana_port :: "path_type \<Rightarrow> idp_t"
  sock_self :: "nat option"

datatype fb_priv =
    NullPriv
  | DummyPriv "fb_dummy_priv list"
  | TeePriv "fb_tee_priv list"
  | CounterPriv "fb_counter_priv list"
  | BpfPriv "fb_bpf_priv list"
  | EthPriv "fb_eth_priv list"
  | PflanaPriv "fb_pflana_priv list"

section \<open>Devices\<close>

text \<open>What the modules use of a network device: its name, its public and private flags, the handler of
  received frames, its reference count, its maximal packet size and its hardware type.\<close>

record net_device =
  nd_name :: cstr
  nd_flags :: u32
  priv_flags :: u32
  rx_handler :: "fb_module option"
  nd_refs :: int
  nd_mtu :: nat
  nd_type :: u16

definition IFF_UP :: u32 where
  "IFF_UP = 1"

definition IFF_RUNNING :: u32 where
  "IFF_RUNNING = 0x40"

section \<open>Addresses as text\<close>

text \<open>\<open>%p\<close>: the 16 digits of a 64-bit address.\<close>

definition ptr_text :: "ptr \<Rightarrow> cstr" where
  "ptr_text a = map (\<lambda>i. digit_char (a div 16 ^ (15 - i) mod 16)) [0..<16]"

section \<open>Loops over the online CPUs\<close>

text \<open>The loop of the bind and unbind events: it goes over the CPUs and stops (\<open>break\<close>) at the
  first whose data refuses the change; the CPUs before keep theirs.\<close>

fun for_each_online_cpu :: "('c \<Rightarrow> 'c option) \<Rightarrow> 'c list \<Rightarrow> bool \<times> 'c list" where
  "for_each_online_cpu f [] = (True, [])"
| "for_each_online_cpu f (c # cs) =
     (case f c of
        None \<Rightarrow> (False, c # cs)
      | Some c' \<Rightarrow> (let (ok, cs') = for_each_online_cpu f cs in (ok, c' # cs')))"

definition notify_result :: "bool \<Rightarrow> int" where
  "notify_result ok = (if ok then NOTIFY_OK else NOTIFY_BAD)"

lemma for_each_all:
  "(\<And>c. c \<in> set cs \<Longrightarrow> f c = Some (g c)) \<Longrightarrow> for_each_online_cpu f cs = (True, map g cs)"
  by (induction cs) simp_all

lemma for_each_none:
  "(\<And>c. c \<in> set cs \<Longrightarrow> f c = None) \<Longrightarrow> cs \<noteq> [] \<Longrightarrow> for_each_online_cpu f cs = (False, cs)"
  by (cases cs) simp_all

lemma for_each_True:
  "for_each_online_cpu f cs = (True, cs') \<Longrightarrow> list_all2 (\<lambda>c c'. f c = Some c') cs cs'"
  by (induction cs arbitrary: cs') (auto split: option.splits prod.splits)

lemma for_each_undo:
  assumes "for_each_online_cpu f cs = (True, cs')"
    and "\<And>c c'. c \<in> set cs \<Longrightarrow> f c = Some c' \<Longrightarrow> g c' = Some c"
  shows "for_each_online_cpu g cs' = (True, cs)"
  using assms
proof (induction cs arbitrary: cs')
  case (Cons c cs)
  then obtain c1 cs1 where "f c = Some c1" "for_each_online_cpu f cs = (True, cs1)" "cs' = c1 # cs1"
    by (auto split: option.splits prod.splits)
  moreover from this Cons.prems(2)[of c c1] have "g c1 = Some c" by simp
  moreover from calculation Cons.IH[of cs1] Cons.prems(2) have "for_each_online_cpu g cs1 = (True, cs)" by simp
  ultimately show ?case by simp
qed simp

text \<open>When all CPUs hold the same ports, the loop changes all of them or none.\<close>

lemma for_each_uniform:
  assumes "\<And>c c'. c \<in> set cs \<Longrightarrow> c' \<in> set cs \<Longrightarrow> f c = None \<longleftrightarrow> f c' = None"
  shows "\<exists>ok cs'. for_each_online_cpu f cs = (ok, cs') \<and>
           (if ok then list_all2 (\<lambda>c c'. f c = Some c') cs cs' else cs' = cs)"
proof (cases "\<exists>c \<in> set cs. f c = None")
  case True
  then have "f c = None" if "c \<in> set cs" for c using assms that by blast
  with True for_each_none[of cs f] show ?thesis by (metis empty_iff empty_set)
next
  case False
  then have "f c = Some (the (f c))" if "c \<in> set cs" for c using that by auto
  from for_each_all[OF this] have "for_each_online_cpu f cs = (True, map (\<lambda>c. the (f c)) cs)" by simp
  with for_each_True[OF this] show ?thesis by auto
qed

text \<open>A change that depends only on the old ports keeps them equal on all CPUs.\<close>

lemma list_all2_uniform:
  assumes "list_all2 (\<lambda>c c'. g c' = h (g c)) cs cs'" "\<forall>c \<in> set cs. \<forall>c' \<in> set cs. g c = g c'"
  shows "\<forall>c \<in> set cs'. \<forall>c' \<in> set cs'. g c = g c'"
proof (intro ballI)
  fix a b assume ab: "a \<in> set cs'" "b \<in> set cs'"
  have "\<exists>c \<in> set cs. g x = h (g c)" if "x \<in> set cs'" for x
    using assms(1) that by (induction rule: list_all2_induct) auto
  from this[OF ab(1)] this[OF ab(2)] obtain c c' where
    "c \<in> set cs" "c' \<in> set cs" "g a = h (g c)" "g b = h (g c')" by blast
  with assms(2) show "g a = g b" by metis
qed

definition uniform :: "('c \<Rightarrow> 'g) \<Rightarrow> 'c list \<Rightarrow> bool" where
  "uniform g cs \<longleftrightarrow> (\<forall>c \<in> set cs. \<forall>c' \<in> set cs. g c = g c')"

lemma uniformD: "uniform g cs \<Longrightarrow> c \<in> set cs \<Longrightarrow> c' \<in> set cs \<Longrightarrow> g c = g c'"
  unfolding uniform_def by blast

lemma uniform_replicate [simp]: "uniform g (replicate n c)"
  by (auto simp: uniform_def)

lemma for_each_keeps_uniform:
  assumes u: "uniform g cs"
    and refuse: "\<And>c. f c = None \<longleftrightarrow> bad (g c)"
    and change: "\<And>c c'. f c = Some c' \<Longrightarrow> g c' = h (g c)"
  obtains ok cs' where "for_each_online_cpu f cs = (ok, cs')" "uniform g cs'" "ok \<or> cs' = cs"
proof -
  have "\<exists>ok cs'. for_each_online_cpu f cs = (ok, cs') \<and>
           (if ok then list_all2 (\<lambda>c c'. f c = Some c') cs cs' else cs' = cs)"
    by (rule for_each_uniform) (metis refuse uniformD[OF u])
  then obtain ok cs' where f: "for_each_online_cpu f cs = (ok, cs')"
    "if ok then list_all2 (\<lambda>c c'. f c = Some c') cs cs' else cs' = cs" by blast
  have "uniform g cs'"
  proof (cases ok)
    case True
    with f(2) have "list_all2 (\<lambda>c c'. g c' = h (g c)) cs cs'"
      by (auto elim!: list_all2_mono dest: change)
    then show ?thesis using u unfolding uniform_def by (rule list_all2_uniform)
  qed (use f u in simp)
  with f show ?thesis by (intro that[of ok cs']) (auto split: if_splits)
qed

section \<open>The interface to blocks with two ports\<close>

text \<open>Most modules keep an array of two ports per CPU and treat bind and unbind events alike: a port
  that is free takes the idp, a port that holds the idp gives it up, and everything else refuses.
  What that means for the loops over all CPUs is proved once.\<close>

locale port_array =
  fixes port :: "'c \<Rightarrow> path_type \<Rightarrow> idp_t" and set_port :: "(path_type \<Rightarrow> idp_t) \<Rightarrow> 'c \<Rightarrow> 'c"
    and bind_cpu unbind_cpu :: "path_type \<Rightarrow> idp_t \<Rightarrow> 'c \<Rightarrow> 'c option"
  assumes port_set: "port (set_port f c) = f"
    and set_set: "set_port g (set_port f c) = set_port g c"
    and set_same: "set_port (port c) c = c"
    and bind_cpu: "bind_cpu d i c = (if port c d = IDP_UNKNOWN then Some (set_port ((port c)(d := i)) c) else None)"
    and unbind_cpu: "unbind_cpu d i c = (if port c d = i then Some (set_port ((port c)(d := IDP_UNKNOWN)) c) else None)"
begin

lemma bind_loop:
  assumes "uniform port cs"
  obtains ok cs' where "for_each_online_cpu (bind_cpu d i) cs = (ok, cs')" "uniform port cs'" "ok \<or> cs' = cs"
  by (rule for_each_keeps_uniform[OF assms, of "bind_cpu d i" "\<lambda>p. p d \<noteq> IDP_UNKNOWN" "\<lambda>p. p(d := i)"])
    (auto simp: bind_cpu port_set split: if_splits)

lemma unbind_loop:
  assumes "for_each_online_cpu (bind_cpu d i) cs = (True, cs')"
  shows "for_each_online_cpu (unbind_cpu d i) cs' = (True, cs)"
proof (rule for_each_undo[OF assms])
  fix c c' assume "bind_cpu d i c = Some c'"
  then have c: "port c d = IDP_UNKNOWN" "c' = set_port ((port c)(d := i)) c" by (auto simp: bind_cpu split: if_splits)
  then have "(port c)(d := IDP_UNKNOWN) = port c" by (metis fun_upd_triv)
  then show "unbind_cpu d i c' = Some c" using c(2) by (simp add: unbind_cpu port_set set_set set_same)
qed

end

text \<open>The two events of such a module, on the data of all CPUs.\<close>

definition port_event ::
    "(path_type \<Rightarrow> idp_t \<Rightarrow> 'c \<Rightarrow> 'c option) \<Rightarrow> (path_type \<Rightarrow> idp_t \<Rightarrow> 'c \<Rightarrow> 'c option) \<Rightarrow>
     fblock_event \<Rightarrow> 'c list \<Rightarrow> int \<times> 'c list" where
  "port_event bind_cpu unbind_cpu e cs =
     (case e of
        FBLOCK_BIND_IDP dir idp \<Rightarrow> (let (ok, cs') = for_each_online_cpu (bind_cpu dir idp) cs in (notify_result ok, cs'))
      | FBLOCK_UNBIND_IDP dir idp \<Rightarrow> (let (ok, cs') = for_each_online_cpu (unbind_cpu dir idp) cs in (notify_result ok, cs'))
      | _ \<Rightarrow> (NOTIFY_OK, cs))"

context port_array
begin

lemma bind_event:
  assumes "uniform port cs"
  obtains r cs' where "port_event bind_cpu unbind_cpu (FBLOCK_BIND_IDP d i) cs = (r, cs')"
    "uniform port cs'" "r = NOTIFY_OK \<or> cs' = cs"
proof -
  obtain ok cs' where "for_each_online_cpu (bind_cpu d i) cs = (ok, cs')" "uniform port cs'" "ok \<or> cs' = cs"
    by (rule bind_loop[OF assms])
  then show ?thesis by (intro that[of "notify_result ok" cs']) (auto simp: port_event_def notify_result_def)
qed

lemma unbind_event:
  assumes "port_event bind_cpu unbind_cpu (FBLOCK_BIND_IDP d i) cs = (NOTIFY_OK, cs')"
  shows "port_event bind_cpu unbind_cpu (FBLOCK_UNBIND_IDP d i) cs' = (NOTIFY_OK, cs)"
proof -
  have "for_each_online_cpu (bind_cpu d i) cs = (True, cs')"
    using assms by (auto simp: port_event_def notify_result_def split: prod.splits if_splits)
  from unbind_loop[OF this] show ?thesis by (simp add: port_event_def notify_result_def)
qed

lemma other_event [simp]: "port_event bind_cpu unbind_cpu (FBLOCK_DOWN j) cs = (NOTIFY_OK, cs)"
  by (simp add: port_event_def)

end

section \<open>Construction and destruction\<close>

text \<open>The constructors of the modules: allocate the block and its per-CPU data, initialise it, create
  the proc entry if the module has one, and register the block; every failure undoes the steps
  before it and returns NULL. \<open>register_fblock_namespace\<close> is not undone when it fails half
  way.\<close>

definition block_ctor ::
    "fb_module \<Rightarrow> bool \<Rightarrow> fb_priv \<Rightarrow> cstr \<Rightarrow> fb_priv lana \<Rightarrow> (ptr option \<times> fb_priv lana) option" where
  "block_ctor m has_proc priv name s =
     (case alloc_fblock NullPriv s of
        (None, s) \<Rightarrow> Some (None, s)
      | (Some p, s) \<Rightarrow>
          (let (fails, s) = mem_fails s in
           if fails then do { s \<leftarrow> kfree_fblock p s; Some (None, s) }
           else do {
             (ret, s) \<leftarrow> init_fblock p name priv s;
             if ret \<noteq> 0 then do { s \<leftarrow> kfree_fblock p s; Some (None, s) }
             else do {
               s \<leftarrow> mod_fb p (\<lambda>fb. fb\<lparr>netfb_rx := m, event_rx := m\<rparr>) s;
               fb \<leftarrow> fbs s p;
               let (fails, s) = (if has_proc then mem_fails s else (False, s));
               if fails then do {
                 s \<leftarrow> cleanup_fblock_ctor p s;
                 s \<leftarrow> kfree_fblock p s;
                 Some (None, s)
               } else do {
                 let s = (if has_proc then s\<lparr>fblock_proc_dir := proc_create (fb_name fb) (fblock_proc_dir s)\<rparr> else s);
                 (ret, s) \<leftarrow> register_fblock_namespace p s;
                 if ret \<noteq> 0 then do {
                   let s = (if has_proc then s\<lparr>fblock_proc_dir := remove_proc_entry (fb_name fb) (fblock_proc_dir s)\<rparr> else s);
                   s \<leftarrow> cleanup_fblock_ctor p s;
                   s \<leftarrow> kfree_fblock p s;
                   Some (None, s)
                 } else Some (Some p, s)
               }
             }
           }))"

text \<open>A constructor ends by taking a reference to its module.\<close>

definition percpu_ctor ::
    "fb_module \<Rightarrow> bool \<Rightarrow> fb_priv \<Rightarrow> cstr \<Rightarrow> fb_priv lana \<Rightarrow> (ptr option \<times> fb_priv lana) option" where
  "percpu_ctor m has_proc priv name s = do {
     (r, s) \<leftarrow> block_ctor m has_proc priv name s;
     Some (r, if r = None then s else module_get m s)
   }"

text \<open>Blocks without a factory (those of devices and sockets) are taken down by their module.\<close>

definition destroy_block :: "fb_priv fb_ops \<Rightarrow> fb_module \<Rightarrow> ptr \<Rightarrow> fb_priv lana \<Rightarrow> fb_priv lana option" where
  "destroy_block ops m p s = do {
     s \<leftarrow> unregister_fblock_namespace_no_rcu ops p s;
     s \<leftarrow> cleanup_fblock ops p s;
     s \<leftarrow> kfree_fblock p s;
     Some (module_put m s)
   }"

text \<open>The block a successful construction leaves behind.\<close>

definition new_block :: "fb_module \<Rightarrow> fb_priv \<Rightarrow> cstr \<Rightarrow> idp_t \<Rightarrow> fb_priv fblock" where
  "new_block m priv name idp =
     \<lparr>fb_name = name, private_data = priv, netfb_rx = m, event_rx = m, factory = None, notifiers = [],
      others = Some [], refcnt = 1, fb_idp = idp\<rparr>"

lemma new_block_simps [simp]:
  "fb_name (new_block m priv name idp) = name" "private_data (new_block m priv name idp) = priv"
  "netfb_rx (new_block m priv name idp) = m" "event_rx (new_block m priv name idp) = m"
  "factory (new_block m priv name idp) = None" "notifiers (new_block m priv name idp) = []"
  "others (new_block m priv name idp) = Some []" "refcnt (new_block m priv name idp) = 1"
  "fb_idp (new_block m priv name idp) = idp"
  "(new_block m priv name idp)\<lparr>fb_idp := j\<rparr> = new_block m priv name j"
  "(new_block m priv name idp)\<lparr>private_data := v\<rparr> = new_block m v name idp"
  by (simp_all add: new_block_def)

lemma heap_inv_alloc:
  assumes "heap_inv s" "fbs s' = (fbs s)(slab_addr (heap_top s) \<mapsto> fb)" "idp_elems s' = idp_elems s" "nots s' = nots s"
    "heap_top s < heap_top s'"
  shows "heap_inv s'"
  using assms slab_addr_less[of "heap_top s" "heap_top s'"]
  by (auto simp: heap_inv_def SMP_CACHE_BYTES_def)

lemma block_ctor_ok:
  assumes inv: "heap_inv s" "names_inv s" "registry_inv s" and mem: "kmem s = []"
    and cnt: "unat (idp_counter s) < 2 ^ 32 - 1"
    and name: "is_cstr name" "length name < FBNAMSIZ"
    and new: "critbit_get (elem_name_at s) (idpmap s) name = None"
  defines "p \<equiv> slab_addr (heap_top s)" and "idp \<equiv> ucast (idp_counter s + 1) :: idp_t"
  obtains s' where "block_ctor m False priv name s = Some (Some p, s')" "heap_inv s'" "names_inv s'" "registry_inv s'"
    "kmem s' = []" "fblmap s' = (fblmap s)(idp \<mapsto> p)" "fbs s' = (fbs s)(p \<mapsto> new_block m priv name idp)"
    "nots s' = nots s" "rcu s' = rcu s" "modrefs s' = (modrefs s)(LANA_CORE := modrefs s LANA_CORE + 1)"
    "\<And>u. get_fblock_namespace_mapping u s' = (if u = name then idp else get_fblock_namespace_mapping u s)"
    "critbit_delete (elem_name_at s') (idpmap s') name = (0, idpmap s)"
proof -
  let ?fb = "new_block m priv name IDP_UNKNOWN"
  let ?s = "module_get LANA_CORE (upd_fb p ?fb (s\<lparr>heap_top := Suc (Suc (heap_top s))\<rparr>))"
  have ctor: "alloc_fblock NullPriv s = (Some p, module_get LANA_CORE (upd_fb p (ctor_fblock NullPriv) (s\<lparr>heap_top := Suc (heap_top s)\<rparr>)))"
    using mem by (simp add: alloc_fblock_def kmalloc_Nil p_def)
  have old: "fbs s p = None" unfolding p_def by (rule slab_addr_fresh[OF inv(1)]) simp
  have map: "get_fblock_namespace_mapping u ?s = get_fblock_namespace_mapping u s" for u
    by (rule mapping_cong) (simp_all add: module_get_def)
  have "heap_inv ?s" by (rule heap_inv_alloc[OF inv(1)]) (simp_all add: module_get_def p_def)
  moreover have "names_inv ?s" using inv(2) names_inv_cong[of ?s s] by (simp add: module_get_def)
  moreover have "registry_inv ?s"
    by (rule registry_inv_same[OF inv(3)]) (use old map in \<open>auto simp: module_get_def\<close>)
  ultimately have i: "heap_inv ?s" "names_inv ?s" "registry_inv ?s" "kmem ?s = []" "fbs ?s p = Some ?fb"
    "unat (idp_counter ?s) < 2 ^ 32 - 1"
    using mem cnt by (simp_all add: module_get_def)
  have "fblmap s i \<noteq> Some p" for i using registry_idpD[OF inv(3), of i p] old by fastforce
  then have "p \<notin> ran (fblmap ?s)" by (auto simp: ran_def module_get_def)
  note ran = this
  have nm: "is_cstr (fb_name ?fb)" "length (fb_name ?fb) < FBNAMSIZ"
    "critbit_get (elem_name_at ?s) (idpmap ?s) (fb_name ?fb) = None"
    using name new elem_name_at_cong[of ?s s] by (simp_all add: module_get_def)
  let ?i = "ucast (idp_counter ?s + 1) :: idp_t"
  obtain s' where s': "register_fblock_namespace p ?s = Some (0, s')"
      "heap_inv s'" "names_inv s'" "registry_inv s'" "kmem s' = []"
      "fblmap s' = (fblmap ?s)(?i \<mapsto> p)" "fbs s' = (fbs ?s)(p \<mapsto> ?fb\<lparr>fb_idp := ?i\<rparr>)"
      "nots s' = nots ?s" "rcu s' = rcu ?s" "modrefs s' = modrefs ?s"
      "\<And>u. get_fblock_namespace_mapping u s' = (if u = fb_name ?fb then ?i else get_fblock_namespace_mapping u ?s)"
      "critbit_delete (elem_name_at s') (idpmap s') (fb_name ?fb) = (0, idpmap ?s)"
    by (rule register_fblock_namespace_new[OF i(1-4,6,5) ran nm]) blast
  have "?i = idp" by (simp add: idp_def module_get_def)
  note s' = s'[unfolded this]
  let ?a = "module_get LANA_CORE (upd_fb p (ctor_fblock NullPriv) (s\<lparr>heap_top := Suc (heap_top s)\<rparr>))"
  let ?b = "?s\<lparr>fbs := (fbs s)(p \<mapsto> ?fb\<lparr>netfb_rx := LANA_CORE, event_rx := LANA_CORE\<rparr>)\<rparr>"
  have "mem_fails ?a = (False, ?a)" using mem by (simp add: module_get_def)
  moreover have "init_fblock p name priv ?a = Some (0, ?b)"
    using mem name(2) by (simp add: init_fblock_def kmalloc_Nil module_get_def upd_fb_def mod_fb_def new_block_def
        ctor_fblock_def strlcpy_def)
  moreover have "mod_fb p (\<lambda>fb. fb\<lparr>netfb_rx := m, event_rx := m\<rparr>) ?b = Some ?s"
    by (simp add: mod_fb_def module_get_def upd_fb_def new_block_def)
  ultimately have "block_ctor m False priv name s = Some (Some p, s')"
    using s'(1) ctor i(5) by (simp add: block_ctor_def)
  then show ?thesis
    by (rule that) (use s' map in \<open>simp_all add: module_get_def\<close>)
qed

lemma destroy_block_ok:
  assumes inv: "names_inv s" "registry_inv s"
    and fb: "fblmap s (fb_idp fb) = Some p" "fbs s p = Some fb" "others fb = Some []" "factory fb = None"
  obtains s' e where "destroy_block ops m p s = Some s'" "fblmap s' = (fblmap s)(fb_idp fb := None)"
    "fbs s' = (fbs s)(p := None)" "nots s' = nots s" "rcu s' = rcu s @ [FreeElem e]" "kmem s' = kmem s"
    "modrefs s' = (let r = (modrefs s)(LANA_CORE := modrefs s LANA_CORE - 1) in r(m := r m - 1))"
    "critbit_delete (elem_name_at s) (idpmap s) (fb_name fb) = (0, idpmap s')"
    "\<And>u. get_fblock_namespace_mapping u s' = (if u = fb_name fb then IDP_UNKNOWN else get_fblock_namespace_mapping u s)"
proof -
  obtain t e where t: "unregister_fblock_namespace_no_rcu ops p s =
      Some (s\<lparr>idpmap := t, fblmap := (fblmap s)(fb_idp fb := None), rcu := rcu s @ [FreeElem e]\<rparr>)"
    "critbit_delete (elem_name_at s) (idpmap s) (fb_name fb) = (0, t)"
    "\<forall>u. get_fblock_namespace_mapping u (s\<lparr>idpmap := t\<rparr>) =
       (if u = fb_name fb then IDP_UNKNOWN else get_fblock_namespace_mapping u s)"
    by (rule unregister_fblock_namespace_no_rcu_known[OF inv fb(1,2)])
  let ?s1 = "s\<lparr>idpmap := t, fblmap := (fblmap s)(fb_idp fb := None), rcu := rcu s @ [FreeElem e]\<rparr>"
  let ?s2 = "module_put m (module_put LANA_CORE (?s1\<lparr>fbs := (fbs s)(p := None)\<rparr>))"
  have d: "destroy_block ops m p s = Some ?s2"
    using t(1) fb
    by (simp add: destroy_block_def cleanup_fblock_def notify_fblock_subscribers_def kfree_fblock_def upd_fb_def module_put_def)
  have "get_fblock_namespace_mapping u ?s2 = get_fblock_namespace_mapping u (s\<lparr>idpmap := t\<rparr>)" for u
    by (rule mapping_cong) (simp_all add: module_put_def)
  then have "get_fblock_namespace_mapping u ?s2 =
      (if u = fb_name fb then IDP_UNKNOWN else get_fblock_namespace_mapping u s)" for u
    using t(3) by simp
  with d show ?thesis
    by (intro that[of ?s2 e]) (use t(2) in \<open>simp_all add: module_put_def Let_def\<close>)
qed

text \<open>A block's life from construction to destruction leaves the tables as they were, whatever became of
  its private data meanwhile.\<close>

lemma block_life:
  assumes "heap_inv s" "names_inv s" "registry_inv s" "kmem s = []" "unat (idp_counter s) < 2 ^ 32 - 1"
    and "is_cstr name" "length name < FBNAMSIZ" "critbit_get (elem_name_at s) (idpmap s) name = None" "m \<noteq> LANA_CORE"
  defines "p \<equiv> slab_addr (heap_top s)" and "idp \<equiv> ucast (idp_counter s + 1) :: idp_t"
  obtains t t' where "block_ctor m False priv name s = Some (Some p, t)"
    "fbs (module_get m t) p = Some (new_block m priv name idp)"
    "fblmap (module_get m t) (get_fblock_namespace_mapping name (module_get m t)) = Some p"
    "fblmap (module_get m t) = (fblmap s)(idp \<mapsto> p)" "registry_inv (module_get m t)"
    "destroy_block ops m p (upd_fb p (new_block m v name idp) (module_get m t)) = Some t'"
    "fbs t' = fbs s" "fblmap t' = fblmap s" "idpmap t' = idpmap s" "modrefs t' = modrefs s" "nots t' = nots s"
proof -
  let ?fb = "new_block m v name idp"
  have fresh: "fbs s p = None" unfolding p_def by (rule slab_addr_fresh[OF assms(1)]) simp
  have free: "fblmap s idp = None" using new_idp_unused[OF assms(3,5)] by (simp add: idp_def)
  obtain t where t: "block_ctor m False priv name s = Some (Some p, t)" "names_inv t"
    "registry_inv t" "fblmap t = (fblmap s)(idp \<mapsto> p)" "fbs t = (fbs s)(p \<mapsto> new_block m priv name idp)" "nots t = nots s"
    "modrefs t = (modrefs s)(LANA_CORE := modrefs s LANA_CORE + 1)"
    "\<And>u. get_fblock_namespace_mapping u t = (if u = name then idp else get_fblock_namespace_mapping u s)"
    "critbit_delete (elem_name_at t) (idpmap t) name = (0, idpmap s)"
    by (rule block_ctor_ok[OF assms(1-8), where m = m and priv = priv]) (unfold p_def idp_def, blast)
  let ?got = "module_get m t"
  let ?t = "upd_fb p ?fb ?got"
  have map: "get_fblock_namespace_mapping u ?t = get_fblock_namespace_mapping u t"
    "get_fblock_namespace_mapping u ?got = get_fblock_namespace_mapping u t" for u
    by (rule mapping_cong; simp add: module_get_def)+
  have reg: "registry_inv ?t" "registry_inv ?got"
    by (rule registry_inv_same[OF t(3)]; use t(5) map in \<open>auto simp: module_get_def split: if_splits\<close>)+
  have it: "names_inv ?t" "registry_inv ?t" "fblmap ?t (fb_idp ?fb) = Some p" "fbs ?t p = Some ?fb" "registry_inv ?got"
    using t(2-5) names_inv_cong[of ?t t] reg by (simp_all add: module_get_def)
  obtain t2 where t2: "destroy_block ops m p ?t = Some t2" "fblmap t2 = (fblmap ?t)(idp := None)"
    "fbs t2 = (fbs ?t)(p := None)" "nots t2 = nots ?t"
    "modrefs t2 = (let r = (modrefs ?t)(LANA_CORE := modrefs ?t LANA_CORE - 1) in r(m := r m - 1))"
    "critbit_delete (elem_name_at ?t) (idpmap ?t) name = (0, idpmap t2)"
    by (rule destroy_block_ok[OF it(1-4), of ops m]) simp_all
  have "fblmap ?got (get_fblock_namespace_mapping name ?got) = Some p"
    unfolding map t(8) by (simp add: module_get_def t(4))
  moreover have "idpmap t2 = idpmap s" using t2(6) t(9) elem_name_at_cong[of ?t t] by (simp add: module_get_def)
  moreover have "fbs t2 = fbs s" "fblmap t2 = fblmap s" "modrefs t2 = modrefs s" "nots t2 = nots s"
    using t2(2-5) t(4-7) fresh free assms(9) by (auto simp: module_get_def Let_def fun_eq_iff)
  moreover have "fblmap ?got = (fblmap s)(idp \<mapsto> p)" "fbs ?got p = Some (new_block m priv name idp)"
    by (simp_all add: module_get_def t(4,5))
  ultimately show ?thesis using t(1) it(5) t2(1) by (intro that[of t t2])
qed

text \<open>A block's name is cut to 15 characters.\<close>

lemma block_ctor_cut: "block_ctor m has_proc priv name s = block_ctor m has_proc priv (take 15 name) s"
proof -
  have cut: "init_fblock p name priv = init_fblock p (take 15 name) priv" for p
    by (simp add: fun_eq_iff init_fblock_def strlcpy_def FBNAMSIZ_def)
  show ?thesis unfolding block_ctor_def by (simp only: cut)
qed

lemma ptr_text_name: "is_cstr (take n (ptr_text a))" "length (ptr_text a) = 16"
proof -
  have "digit_char (v mod 16) \<noteq> 0" for v
  proof
    assume "digit_char (v mod 16) = 0"
    with unat_digit_char[of "v mod 16"] show False by (simp split: if_splits)
  qed
  then have "0 \<notin> set (ptr_text a)" by (auto simp: ptr_text_def)
  then show "is_cstr (take n (ptr_text a))" "length (ptr_text a) = 16"
    by (auto simp: is_cstr_def ptr_text_def dest: in_set_takeD)
qed

end
