(* ===== verification/Fb_Dummy.thy ===== *)
theory Fb_Dummy
  imports Fb_Common
begin

text \<open>The block that only forwards packets: \<open>src/src/fb_dummy.c\<close>. The receive function reads
  its port under a sequence lock; the model is a read that no writer disturbs.\<close>

definition fb_dummy_bind_cpu :: "path_type \<Rightarrow> idp_t \<Rightarrow> fb_dummy_priv \<Rightarrow> fb_dummy_priv option" where
  "fb_dummy_bind_cpu dir idp c =
     (if dummy_port c dir = IDP_UNKNOWN then Some (c\<lparr>dummy_port := (dummy_port c)(dir := idp)\<rparr>) else None)"

definition fb_dummy_unbind_cpu :: "path_type \<Rightarrow> idp_t \<Rightarrow> fb_dummy_priv \<Rightarrow> fb_dummy_priv option" where
  "fb_dummy_unbind_cpu dir idp c =
     (if dummy_port c dir = idp then Some (c\<lparr>dummy_port := (dummy_port c)(dir := IDP_UNKNOWN)\<rparr>) else None)"

fun fb_dummy_event :: "fblock_event \<Rightarrow> fb_priv \<Rightarrow> (int \<times> fb_priv) option" where
  "fb_dummy_event e (DummyPriv cs) =
     (case e of
        FBLOCK_BIND_IDP dir idp \<Rightarrow>
          (let (ok, cs') = for_each_online_cpu (fb_dummy_bind_cpu dir idp) cs
           in Some (notify_result ok, DummyPriv cs'))
      | FBLOCK_UNBIND_IDP dir idp \<Rightarrow>
          (let (ok, cs') = for_each_online_cpu (fb_dummy_unbind_cpu dir idp) cs
           in Some (notify_result ok, DummyPriv cs'))
      | _ \<Rightarrow> Some (NOTIFY_OK, DummyPriv cs))"
| "fb_dummy_event e _ = None"

definition fb_dummy_netrx ::
    "ptr \<Rightarrow> sk_buff \<Rightarrow> path_type \<Rightarrow> fb_priv kern \<Rightarrow> (int \<times> sk_buff \<times> path_type \<times> fb_priv kern) option" where
  "fb_dummy_netrx p skb dir s = do {
     fb \<leftarrow> fbs (tabs s) p;
     (case private_data fb of
        DummyPriv cs \<Rightarrow>
          (let port = dummy_port (cs ! cpu s) dir;
               skb = write_next_idp_to_skb skb (fb_idp fb) port
           in if port = IDP_UNKNOWN then Some (PPE_DROPPED, skb, dir, kfree_skb skb s)
              else Some (PPE_SUCCESS, skb, dir, s))
      | _ \<Rightarrow> None)
   }"

definition fb_dummy_ctor :: "nat \<Rightarrow> cstr \<Rightarrow> fb_priv lana \<Rightarrow> (ptr option \<times> fb_priv lana) option" where
  "fb_dummy_ctor online name s =
     percpu_ctor FB_DUMMY False (DummyPriv (replicate online \<lparr>dummy_port = (\<lambda>_. IDP_UNKNOWN)\<rparr>)) name s"

definition fb_dummy_dtor :: "fb_priv fblock \<Rightarrow> fb_priv lana \<Rightarrow> fb_priv lana" where
  "fb_dummy_dtor fb s = module_put FB_DUMMY s"

definition init_fb_dummy_module :: "fb_priv lana \<Rightarrow> (int \<times> fb_priv lana) option" where
  "init_fb_dummy_module s = register_fblock_type FB_DUMMY s"

definition cleanup_fb_dummy_module :: "fb_priv lana \<Rightarrow> fb_priv lana" where
  "cleanup_fb_dummy_module s = unregister_fblock_type FB_DUMMY s"

section \<open>Events\<close>

interpretation dummy: port_array dummy_port "\<lambda>f c. c\<lparr>dummy_port := f\<rparr>" fb_dummy_bind_cpu fb_dummy_unbind_cpu
  by unfold_locales (simp_all add: fb_dummy_bind_cpu_def fb_dummy_unbind_cpu_def)

lemma fb_dummy_event_ports:
  "fb_dummy_event e (DummyPriv cs) =
     (let (r, cs') = port_event fb_dummy_bind_cpu fb_dummy_unbind_cpu e cs in Some (r, DummyPriv cs'))"
  by (simp add: port_event_def split: fblock_event.split prod.split)

end
