(* ===== verification/Fb_Tee.thy ===== *)
theory Fb_Tee
  imports Fb_Common
begin

text \<open>The block that copies packets to a second port: \<open>src/src/fb_tee.c\<close>. A bind event takes
  the port of its path if that is free and the clone port otherwise.\<close>

definition fb_tee_bind_cpu :: "path_type \<Rightarrow> idp_t \<Rightarrow> fb_tee_priv \<Rightarrow> fb_tee_priv option" where
  "fb_tee_bind_cpu dir idp c =
     (if tee_port c dir = IDP_UNKNOWN then Some (c\<lparr>tee_port := (tee_port c)(dir := idp)\<rparr>)
      else if port_clone c = IDP_UNKNOWN then Some (c\<lparr>port_clone := idp\<rparr>)
      else None)"

definition fb_tee_unbind_cpu :: "path_type \<Rightarrow> idp_t \<Rightarrow> fb_tee_priv \<Rightarrow> fb_tee_priv option" where
  "fb_tee_unbind_cpu dir idp c =
     (if tee_port c dir = idp then Some (c\<lparr>tee_port := (tee_port c)(dir := IDP_UNKNOWN)\<rparr>)
      else if port_clone c = idp then Some (c\<lparr>port_clone := IDP_UNKNOWN\<rparr>)
      else None)"

fun fb_tee_event :: "fblock_event \<Rightarrow> fb_priv \<Rightarrow> (int \<times> fb_priv) option" where
  "fb_tee_event e (TeePriv cs) =
     (case e of
        FBLOCK_BIND_IDP dir idp \<Rightarrow>
          (let (ok, cs') = for_each_online_cpu (fb_tee_bind_cpu dir idp) cs
           in Some (notify_result ok, TeePriv cs'))
      | FBLOCK_UNBIND_IDP dir idp \<Rightarrow>
          (let (ok, cs') = for_each_online_cpu (fb_tee_unbind_cpu dir idp) cs
           in Some (notify_result ok, TeePriv cs'))
      | _ \<Rightarrow> Some (NOTIFY_OK, TeePriv cs))"
| "fb_tee_event e _ = None"

text \<open>\<open>skb_copy\<close>: a new buffer with the same data and control block, or NULL without memory.\<close>

definition skb_copy :: "sk_buff \<Rightarrow> fb_priv kern \<Rightarrow> sk_buff option \<times> fb_priv kern" where
  "skb_copy skb s =
     (let (fails, t) = mem_fails (tabs s); s = s\<lparr>tabs := t\<rparr> in
      if fails then (None, s)
      else (Some (skb\<lparr>skb_id := next_skb s\<rparr>), s\<lparr>next_skb := Suc (next_skb s)\<rparr>))"

definition fb_tee_clone :: "fb_priv fblock \<Rightarrow> idp_t \<Rightarrow> sk_buff \<Rightarrow> path_type \<Rightarrow> fb_priv kern \<Rightarrow> fb_priv kern" where
  "fb_tee_clone fb clone skb dir s =
     (if clone \<noteq> 0 then
        (case skb_copy skb s of
           (None, s) \<Rightarrow> s
         | (Some cloned_skb, s) \<Rightarrow>
             engine_backlog_tail (write_next_idp_to_skb cloned_skb (fb_idp fb) clone) dir s)
      else s)"

definition fb_tee_netrx ::
    "ptr \<Rightarrow> sk_buff \<Rightarrow> path_type \<Rightarrow> fb_priv kern \<Rightarrow> (int \<times> sk_buff \<times> path_type \<times> fb_priv kern) option" where
  "fb_tee_netrx p skb dir s = do {
     fb \<leftarrow> fbs (tabs s) p;
     (case private_data fb of
        TeePriv cs \<Rightarrow>
          (let c = cs ! cpu s;
               skb = write_next_idp_to_skb skb (fb_idp fb) (tee_port c dir);
               s = fb_tee_clone fb (port_clone c) skb dir s
           in if tee_port c dir = IDP_UNKNOWN then Some (PPE_DROPPED, skb, dir, kfree_skb skb s)
              else Some (PPE_SUCCESS, skb, dir, s))
      | _ \<Rightarrow> None)
   }"

definition fb_tee_ctor :: "nat \<Rightarrow> cstr \<Rightarrow> fb_priv lana \<Rightarrow> (ptr option \<times> fb_priv lana) option" where
  "fb_tee_ctor online name s =
     percpu_ctor FB_TEE False
       (TeePriv (replicate online \<lparr>tee_port = (\<lambda>_. IDP_UNKNOWN), port_clone = IDP_UNKNOWN\<rparr>)) name s"

definition fb_tee_dtor :: "fb_priv fblock \<Rightarrow> fb_priv lana \<Rightarrow> fb_priv lana" where
  "fb_tee_dtor fb s = module_put FB_TEE s"

definition init_fb_tee_module :: "fb_priv lana \<Rightarrow> (int \<times> fb_priv lana) option" where
  "init_fb_tee_module s = register_fblock_type FB_TEE s"

definition cleanup_fb_tee_module :: "fb_priv lana \<Rightarrow> fb_priv lana" where
  "cleanup_fb_tee_module s = unregister_fblock_type FB_TEE s"

section \<open>Events\<close>

abbreviation tee_ports :: "fb_tee_priv \<Rightarrow> (path_type \<Rightarrow> idp_t) \<times> idp_t" where
  "tee_ports c \<equiv> (tee_port c, port_clone c)"

lemma tee_bind:
  assumes "uniform tee_ports cs"
  obtains r cs' where "fb_tee_event (FBLOCK_BIND_IDP d i) (TeePriv cs) = Some (r, TeePriv cs')"
    "uniform tee_ports cs'" "r = NOTIFY_OK \<or> cs' = cs"
proof -
  obtain ok cs' where "for_each_online_cpu (fb_tee_bind_cpu d i) cs = (ok, cs')"
    "uniform tee_ports cs'" "ok \<or> cs' = cs"
    by (rule for_each_keeps_uniform[OF assms, of "fb_tee_bind_cpu d i"
          "\<lambda>(p, c). p d \<noteq> IDP_UNKNOWN \<and> c \<noteq> IDP_UNKNOWN"
          "\<lambda>(p, c). if p d = IDP_UNKNOWN then (p(d := i), c) else (p, i)"])
      (auto simp: fb_tee_bind_cpu_def split: if_splits)
  then show ?thesis by (intro that[of "notify_result ok" cs']) (auto simp: notify_result_def)
qed

text \<open>Unbinding undoes a binding to a block that no port of the tee led to before. (Bound twice to
  the same block, it would clear the wrong one of the two ports.)\<close>

lemma tee_unbind:
  assumes "fb_tee_event (FBLOCK_BIND_IDP d i) (TeePriv cs) = Some (NOTIFY_OK, v')"
    and "\<forall>c \<in> set cs. tee_port c d \<noteq> i"
  shows "fb_tee_event (FBLOCK_UNBIND_IDP d i) v' = Some (NOTIFY_OK, TeePriv cs)"
proof -
  obtain cs' where f: "for_each_online_cpu (fb_tee_bind_cpu d i) cs = (True, cs')" "v' = TeePriv cs'"
    using assms(1) by (auto simp: notify_result_def split: prod.splits if_splits)
  have "for_each_online_cpu (fb_tee_unbind_cpu d i) cs' = (True, cs)"
    by (rule for_each_undo[OF f(1)])
      (use assms(2) in \<open>auto simp: fb_tee_bind_cpu_def fb_tee_unbind_cpu_def fun_upd_idem split: if_splits\<close>)
  then show ?thesis by (simp add: f(2) notify_result_def)
qed

end
