(* ===== verification/Fb_Counter.thy ===== *)
theory Fb_Counter
  imports Fb_Common
begin

text \<open>The block that counts packets: \<open>src/src/fb_counter.c\<close>. Its counters are per CPU, 64 bits
  wide and wrap around; \<open>fb_counter_proc_show\<close> adds them up.\<close>

definition fb_counter_bind_cpu :: "path_type \<Rightarrow> idp_t \<Rightarrow> fb_counter_priv \<Rightarrow> fb_counter_priv option" where
  "fb_counter_bind_cpu dir idp c =
     (if counter_port c dir = IDP_UNKNOWN then Some (c\<lparr>counter_port := (counter_port c)(dir := idp)\<rparr>) else None)"

definition fb_counter_unbind_cpu :: "path_type \<Rightarrow> idp_t \<Rightarrow> fb_counter_priv \<Rightarrow> fb_counter_priv option" where
  "fb_counter_unbind_cpu dir idp c =
     (if counter_port c dir = idp then Some (c\<lparr>counter_port := (counter_port c)(dir := IDP_UNKNOWN)\<rparr>) else None)"

fun fb_counter_event :: "fblock_event \<Rightarrow> fb_priv \<Rightarrow> (int \<times> fb_priv) option" where
  "fb_counter_event e (CounterPriv cs) =
     (case e of
        FBLOCK_BIND_IDP dir idp \<Rightarrow>
          (let (ok, cs') = for_each_online_cpu (fb_counter_bind_cpu dir idp) cs
           in Some (notify_result ok, CounterPriv cs'))
      | FBLOCK_UNBIND_IDP dir idp \<Rightarrow>
          (let (ok, cs') = for_each_online_cpu (fb_counter_unbind_cpu dir idp) cs
           in Some (notify_result ok, CounterPriv cs'))
      | _ \<Rightarrow> Some (NOTIFY_OK, CounterPriv cs))"
| "fb_counter_event e _ = None"

definition fb_counter_count :: "nat \<Rightarrow> fb_counter_priv \<Rightarrow> fb_counter_priv" where
  "fb_counter_count len c = c\<lparr>packets := packets c + 1, cbytes := cbytes c + of_nat len\<rparr>"

definition fb_counter_netrx ::
    "ptr \<Rightarrow> sk_buff \<Rightarrow> path_type \<Rightarrow> fb_priv kern \<Rightarrow> (int \<times> sk_buff \<times> path_type \<times> fb_priv kern) option" where
  "fb_counter_netrx p skb dir s = do {
     fb \<leftarrow> fbs (tabs s) p;
     (case private_data fb of
        CounterPriv cs \<Rightarrow>
          (let c = cs ! cpu s;
               skb = write_next_idp_to_skb skb (fb_idp fb) (counter_port c dir);
               cs' = cs[cpu s := fb_counter_count (length (skb_data skb)) c];
               s = s\<lparr>tabs := upd_fb p (fb\<lparr>private_data := CounterPriv cs'\<rparr>) (tabs s)\<rparr>
           in if counter_port c dir = IDP_UNKNOWN then Some (PPE_DROPPED, skb, dir, kfree_skb skb s)
              else Some (PPE_SUCCESS, skb, dir, s))
      | _ \<Rightarrow> None)
   }"

fun fb_counter_proc_show :: "fb_priv \<Rightarrow> (u64 \<times> u64) option" where
  "fb_counter_proc_show (CounterPriv cs) = Some (sum_list (map packets cs), sum_list (map cbytes cs))"
| "fb_counter_proc_show _ = None"

definition fb_counter_ctor :: "nat \<Rightarrow> cstr \<Rightarrow> fb_priv lana \<Rightarrow> (ptr option \<times> fb_priv lana) option" where
  "fb_counter_ctor online name s =
     percpu_ctor FB_COUNTER True
       (CounterPriv (replicate online \<lparr>counter_port = (\<lambda>_. IDP_UNKNOWN), packets = 0, cbytes = 0\<rparr>)) name s"

definition fb_counter_dtor :: "fb_priv fblock \<Rightarrow> fb_priv lana \<Rightarrow> fb_priv lana" where
  "fb_counter_dtor fb s =
     module_put FB_COUNTER (s\<lparr>fblock_proc_dir := remove_proc_entry (fb_name fb) (fblock_proc_dir s)\<rparr>)"

definition init_fb_counter_module :: "fb_priv lana \<Rightarrow> (int \<times> fb_priv lana) option" where
  "init_fb_counter_module s = register_fblock_type FB_COUNTER s"

definition cleanup_fb_counter_module :: "fb_priv lana \<Rightarrow> fb_priv lana" where
  "cleanup_fb_counter_module s = unregister_fblock_type FB_COUNTER s"

section \<open>Events\<close>

interpretation counter: port_array counter_port "\<lambda>f c. c\<lparr>counter_port := f\<rparr>" fb_counter_bind_cpu fb_counter_unbind_cpu
  by unfold_locales (simp_all add: fb_counter_bind_cpu_def fb_counter_unbind_cpu_def)

lemma fb_counter_event_ports:
  "fb_counter_event e (CounterPriv cs) =
     (let (r, cs') = port_event fb_counter_bind_cpu fb_counter_unbind_cpu e cs in Some (r, CounterPriv cs'))"
  by (simp add: port_event_def split: fblock_event.split prod.split)

section \<open>Counting\<close>

lemma sum_list_map_update:
  fixes f :: "'c \<Rightarrow> u64"
  assumes "k < length cs"
  shows "sum_list ((map f cs)[k := f (cs ! k) + d]) = sum_list (map f cs) + d"
  using assms
proof (induction cs arbitrary: k)
  case (Cons c cs)
  then show ?case by (cases k) (simp_all add: algebra_simps)
qed simp

text \<open>C23: Counting. Whatever CPU a packet arrives on, and whether it is forwarded or dropped, the
  counter block adds exactly one packet and the length of the packet to the totals it shows
  (modulo \<open>2 ^ 64\<close>), keeps its ports, and forwards the packet along its port or, if that is
  unbound, drops and frees it.\<close>
theorem counter_counts_every_packet:
  assumes "fbs (tabs s) p = Some fb" "private_data fb = CounterPriv cs" "cpu s < length cs"
    and "fb_counter_proc_show (private_data fb) = Some (n, b)"
  shows "\<exists>ret skb' s' cs'. fb_counter_netrx p skb dir s = Some (ret, skb', dir, s') \<and>
     fbs (tabs s') p = Some (fb\<lparr>private_data := CounterPriv cs'\<rparr>) \<and>
     fb_counter_proc_show (CounterPriv cs') = Some (n + 1, b + of_nat (length (skb_data skb))) \<and>
     map counter_port cs' = map counter_port cs \<and>
     read_next_idp_from_skb skb' = counter_port (cs ! cpu s) dir \<and>
     (if counter_port (cs ! cpu s) dir = IDP_UNKNOWN
      then ret = PPE_DROPPED \<and> freed s' = freed s @ [skb_id skb]
      else ret = PPE_SUCCESS \<and> freed s' = freed s)"
proof -
  let ?c = "cs ! cpu s"
  let ?cs = "cs[cpu s := fb_counter_count (length (skb_data skb)) ?c]"
  have sums: "fb_counter_proc_show (CounterPriv ?cs) = Some (n + 1, b + of_nat (length (skb_data skb)))"
    using assms(2-4) by (simp add: map_update fb_counter_count_def sum_list_map_update)
  have ports: "map counter_port ?cs = map counter_port cs"
    using assms(3) by (simp add: map_update fb_counter_count_def list_update_same_conv)
  show ?thesis
    using assms(1,2) sums ports
    by (simp add: fb_counter_netrx_def kfree_skb_def Let_def del: fb_counter_proc_show.simps)
      (rule exI[of _ ?cs], simp del: fb_counter_proc_show.simps)
qed

theorem counter_counts_every_packet_witness:
  "\<exists>ret skb' s'. fb_counter_netrx (slab_addr 0) (new_skb 7 [1, 2, 3] 5) TYPE_EGRESS
      \<lparr>tabs = boot_with ((ctor_fblock NullPriv)\<lparr>private_data :=
                CounterPriv [\<lparr>counter_port = (\<lambda>_. 9), packets = 0, cbytes = 0\<rparr>]\<rparr>),
       cpu = 0, iostats = [], emdiscs = [], freed = [], outbox = [], next_skb = 0\<rparr> = Some (ret, skb', TYPE_EGRESS, s') \<and>
     fb_counter_proc_show (private_data (the (fbs (tabs s') (slab_addr 0)))) = Some (1, 3) \<and> ret = PPE_SUCCESS"
  using counter_counts_every_packet[of "\<lparr>tabs = boot_with ((ctor_fblock NullPriv)\<lparr>private_data :=
                CounterPriv [\<lparr>counter_port = (\<lambda>_. 9), packets = 0, cbytes = 0\<rparr>]\<rparr>),
       cpu = 0, iostats = [], emdiscs = [], freed = [], outbox = [], next_skb = 0\<rparr>" "slab_addr 0"
      "(ctor_fblock NullPriv)\<lparr>private_data := CounterPriv [\<lparr>counter_port = (\<lambda>_. 9), packets = 0, cbytes = 0\<rparr>]\<rparr>"
      "[\<lparr>counter_port = (\<lambda>_. 9), packets = 0, cbytes = 0\<rparr>]" 0 0
      "new_skb 7 [1, 2, 3] 5" TYPE_EGRESS]
  by (auto simp: boot_with_inv IDP_UNKNOWN_def new_skb_def)

end
