(* ===== verification/Fb_Bpf.thy ===== *)
theory Fb_Bpf
  imports Fb_Common
begin

text \<open>The block that filters packets: \<open>src/src/fb_bpf.c\<close>. Its filter program is written as text
  into the proc file of the block, parsed, checked by the kernel and installed on every CPU; a packet
  passes if the program accepts at least its length.

  The kernel's checker and interpreter of filter programs are parameters, \<open>chk\<close> and
  \<open>run\<close>. The parser works on the bytes of a buffer with no terminator and looks at the bytes
  behind it: the buffer is a list \<open>code @ slack\<close>, where \<open>slack\<close> is what happens to follow
  it in memory, and a walk past the end of \<open>slack\<close> has no result.\<close>

section \<open>Filters\<close>

definition fb_bpf_init_filter ::
    "(sock_filter list \<Rightarrow> int) \<Rightarrow> sock_filter list \<Rightarrow> fb_bpf_priv \<Rightarrow> fb_priv lana \<Rightarrow> int \<times> fb_bpf_priv \<times> fb_priv lana" where
  "fb_bpf_init_filter chk prog c s =
     (let (fails, s) = mem_fails s in
      if fails then (- ENOMEM, c, s)
      else let err = chk prog in
        if err \<noteq> 0 then (err, c, s) else (0, c\<lparr>bpf_filter := Some prog\<rparr>, s))"

fun init_filters ::
    "(sock_filter list \<Rightarrow> int) \<Rightarrow> sock_filter list \<Rightarrow> fb_bpf_priv list \<Rightarrow> fb_priv lana \<Rightarrow>
     int \<times> fb_bpf_priv list \<times> fb_priv lana" where
  "init_filters chk prog [] s = (0, [], s)"
| "init_filters chk prog (c # cs) s =
     (let (err, c, s) = fb_bpf_init_filter chk prog c s in
      if err \<noteq> 0 then (err, c # cs, s)
      else let (err, cs, s) = init_filters chk prog cs s in (err, c # cs, s))"

definition fb_bpf_init_filter_cpus ::
    "(sock_filter list \<Rightarrow> int) \<Rightarrow> ptr \<Rightarrow> sock_filter list \<Rightarrow> fb_priv lana \<Rightarrow> (int \<times> fb_priv lana) option" where
  "fb_bpf_init_filter_cpus chk p prog s = do {
     fb \<leftarrow> fbs s p;
     (case private_data fb of
        BpfPriv cs \<Rightarrow>
          (let (err, cs, s) = init_filters chk prog cs s
           in Some (err, upd_fb p (fb\<lparr>private_data := BpfPriv cs\<rparr>) s))
      | _ \<Rightarrow> None)
   }"

definition fb_bpf_cleanup_filter :: "fb_bpf_priv \<Rightarrow> fb_bpf_priv" where
  "fb_bpf_cleanup_filter c = c\<lparr>bpf_filter := None\<rparr>"

definition fb_bpf_cleanup_filter_cpus :: "ptr \<Rightarrow> fb_priv lana \<Rightarrow> fb_priv lana option" where
  "fb_bpf_cleanup_filter_cpus p s = do {
     fb \<leftarrow> fbs s p;
     (case private_data fb of
        BpfPriv cs \<Rightarrow> Some (upd_fb p (fb\<lparr>private_data := BpfPriv (map fb_bpf_cleanup_filter cs)\<rparr>) s)
      | _ \<Rightarrow> None)
   }"

section \<open>Packets and events\<close>

definition fb_bpf_netrx ::
    "(sock_filter list \<Rightarrow> sk_buff \<Rightarrow> nat) \<Rightarrow> ptr \<Rightarrow> sk_buff \<Rightarrow> path_type \<Rightarrow> fb_priv kern \<Rightarrow>
     (int \<times> sk_buff \<times> path_type \<times> fb_priv kern) option" where
  "fb_bpf_netrx run p skb dir s = do {
     fb \<leftarrow> fbs (tabs s) p;
     (case private_data fb of
        BpfPriv cs \<Rightarrow>
          (let c = cs ! cpu s in
           if (case bpf_filter c of None \<Rightarrow> False | Some prog \<Rightarrow> run prog skb < length (skb_data skb))
           then Some (PPE_DROPPED, skb, dir, kfree_skb skb s)
           else
             let port = bpf_port c dir; skb = write_next_idp_to_skb skb (fb_idp fb) port
             in if port = IDP_UNKNOWN then Some (PPE_DROPPED, skb, dir, kfree_skb skb s)
                else Some (PPE_SUCCESS, skb, dir, s))
      | _ \<Rightarrow> None)
   }"

definition fb_bpf_bind_cpu :: "path_type \<Rightarrow> idp_t \<Rightarrow> fb_bpf_priv \<Rightarrow> fb_bpf_priv option" where
  "fb_bpf_bind_cpu dir idp c =
     (if bpf_port c dir = IDP_UNKNOWN then Some (c\<lparr>bpf_port := (bpf_port c)(dir := idp)\<rparr>) else None)"

definition fb_bpf_unbind_cpu :: "path_type \<Rightarrow> idp_t \<Rightarrow> fb_bpf_priv \<Rightarrow> fb_bpf_priv option" where
  "fb_bpf_unbind_cpu dir idp c =
     (if bpf_port c dir = idp then Some (c\<lparr>bpf_port := (bpf_port c)(dir := IDP_UNKNOWN)\<rparr>) else None)"

fun fb_bpf_event :: "fblock_event \<Rightarrow> fb_priv \<Rightarrow> (int \<times> fb_priv) option" where
  "fb_bpf_event e (BpfPriv cs) =
     (case e of
        FBLOCK_BIND_IDP dir idp \<Rightarrow>
          (let (ok, cs') = for_each_online_cpu (fb_bpf_bind_cpu dir idp) cs
           in Some (notify_result ok, BpfPriv cs'))
      | FBLOCK_UNBIND_IDP dir idp \<Rightarrow>
          (let (ok, cs') = for_each_online_cpu (fb_bpf_unbind_cpu dir idp) cs
           in Some (notify_result ok, BpfPriv cs'))
      | _ \<Rightarrow> Some (NOTIFY_OK, BpfPriv cs))"
| "fb_bpf_event e _ = None"

section \<open>The proc file\<close>

text \<open>One line of the listing, in a buffer of 32 bytes.\<close>

definition insn_line :: "sock_filter \<Rightarrow> cstr" where
  "insn_line x =
     take 31 (lit ''{ 0x'' @ num_text 16 (unat (bf_code x)) @ lit '', '' @ num_text 10 (unat (bf_jt x)) @ lit '', '' @
        num_text 10 (unat (bf_jf x)) @ lit '', 0x'' @ num_text 16 (unat (bf_k x)) @ lit '' }'' @ [0x0A])"

text \<open>The interpreter is always the kernel's own: the block has no just-in-time compiler.\<close>

definition fb_bpf_proc_show_filter :: "nat \<Rightarrow> fb_priv \<Rightarrow> cstr option" where
  "fb_bpf_proc_show_filter c priv =
     (case priv of
        BpfPriv cs \<Rightarrow>
          Some (case bpf_filter (cs ! c) of
             None \<Rightarrow> []
           | Some prog \<Rightarrow> lit ''bpf jit: 0'' @ [0x0A] @ lit ''code:'' @ [0x0A] @ concat (map insn_line prog))
      | _ \<Rightarrow> None)"

definition MAX_BUFF_SIZ :: nat where
  "MAX_BUFF_SIZ = 16384"

definition MAX_INSTR_SIZ :: nat where
  "MAX_INSTR_SIZ = 512"

text \<open>The kernel's \<open>simple_strtoul\<close>: no leading blanks, an optional \<open>0x\<close> in base 16.\<close>

definition simple_strtoul :: "nat \<Rightarrow> cstr \<Rightarrow> (nat \<times> cstr) option" where
  "simple_strtoul base s =
     (if base = 16 \<and> length s \<ge> 2 \<and> s ! 0 = 0x30 \<and> (s ! 1 = 0x78 \<or> s ! 1 = 0x58)
      then strtoul_digits base 0 (drop 2 s) else strtoul_digits base 0 s)"

fun skip_chars :: "u8 list \<Rightarrow> cstr \<Rightarrow> cstr option" where
  "skip_chars cs [] = None"
| "skip_chars cs (c # s) = (if c \<in> set cs then skip_chars cs s else Some (c # s))"

text \<open>The body of the parser's loop; the characters are blank, opening brace, comma, closing brace and
  newline.\<close>

definition parse_insn :: "cstr \<Rightarrow> (sock_filter \<times> cstr) option" where
  "parse_insn ptr1 = do {
     ptr1 \<leftarrow> skip_chars [0x20, 0x7B] ptr1;
     (code, ptr2) \<leftarrow> simple_strtoul 16 ptr1;
     ptr2 \<leftarrow> skip_chars [0x20, 0x2C] ptr2;
     (jt, ptr1) \<leftarrow> simple_strtoul 10 ptr2;
     ptr1 \<leftarrow> skip_chars [0x20, 0x2C] ptr1;
     (jf, ptr2) \<leftarrow> simple_strtoul 10 ptr1;
     ptr2 \<leftarrow> skip_chars [0x20, 0x2C] ptr2;
     (k, ptr1) \<leftarrow> simple_strtoul 16 ptr2;
     ptr1 \<leftarrow> skip_chars [0x20, 0x2C, 0x7D, 0x0A] ptr1;
     Some (\<lparr>bf_code = of_nat code, bf_jt = of_nat jt, bf_jf = of_nat jf, bf_k = of_nat k\<rparr>, ptr1)
   }"

text \<open>The loop, with room for \<open>n\<close> more instructions, until the pointer has passed the end of the
  buffer.\<close>

fun parse_prog :: "nat \<Rightarrow> nat \<Rightarrow> cstr \<Rightarrow> sock_filter list option" where
  "parse_prog 0 slack ptr1 = Some []"
| "parse_prog (Suc n) slack ptr1 =
     (if length ptr1 > slack then do {
        (x, ptr1) \<leftarrow> parse_insn ptr1;
        xs \<leftarrow> parse_prog n slack ptr1;
        Some (x # xs)
      } else Some [])"

definition fb_bpf_inject ::
    "(sock_filter list \<Rightarrow> int) \<Rightarrow> ptr \<Rightarrow> sock_filter list \<Rightarrow> fb_priv lana \<Rightarrow> (int \<times> fb_priv lana) option" where
  "fb_bpf_inject chk p prog s = do {
     s \<leftarrow> fb_bpf_cleanup_filter_cpus p s;
     (ret, s) \<leftarrow> fb_bpf_init_filter_cpus chk p prog s;
     s \<leftarrow> (if ret = 0 then Some s else fb_bpf_cleanup_filter_cpus p s);
     Some (ret, s)
   }"

text \<open>\<open>copied\<close> tells whether the kernel could read the user's buffer \<open>ubuff\<close>.\<close>

definition fb_bpf_proc_write ::
    "(sock_filter list \<Rightarrow> int) \<Rightarrow> ptr \<Rightarrow> bool \<Rightarrow> cstr \<Rightarrow> cstr \<Rightarrow> fb_priv lana \<Rightarrow> (int \<times> fb_priv lana) option" where
  "fb_bpf_proc_write chk p copied ubuff slack s =
     (if length ubuff > MAX_BUFF_SIZ then Some (- EINVAL, s)
      else
        let (f1, s) = mem_fails s in
        if f1 then Some (- ENOMEM, s)
        else let (f2, s) = mem_fails s in
        if f2 then Some (- ENOMEM, s)
        else let (f3, s) = mem_fails s in
        if f3 then Some (- ENOMEM, s)
        else if \<not> copied then Some (- EFAULT, s)
        else do {
          prog \<leftarrow> parse_prog MAX_INSTR_SIZ (length slack) (ubuff @ slack);
          (if length prog = MAX_INSTR_SIZ then Some (- ENOMEM, s)
           else do {
             (ret, s) \<leftarrow> fb_bpf_inject chk p prog s;
             Some (int (length ubuff), s)
           })
        })"

section \<open>Construction and destruction\<close>

definition fb_bpf_ctor :: "nat \<Rightarrow> cstr \<Rightarrow> fb_priv lana \<Rightarrow> (ptr option \<times> fb_priv lana) option" where
  "fb_bpf_ctor online name s =
     percpu_ctor FB_BPF True
       (BpfPriv (replicate online \<lparr>bpf_port = (\<lambda>_. IDP_UNKNOWN), bpf_filter = None\<rparr>)) name s"

definition fb_bpf_dtor :: "fb_priv fblock \<Rightarrow> fb_priv lana \<Rightarrow> fb_priv lana" where
  "fb_bpf_dtor fb s =
     module_put FB_BPF (s\<lparr>fblock_proc_dir := remove_proc_entry (fb_name fb) (fblock_proc_dir s)\<rparr>)"

fun fb_bpf_dtor_outside_rcu :: "fb_priv \<Rightarrow> fb_priv" where
  "fb_bpf_dtor_outside_rcu (BpfPriv cs) = BpfPriv (map fb_bpf_cleanup_filter cs)"
| "fb_bpf_dtor_outside_rcu v = v"

definition init_fb_bpf_module :: "fb_priv lana \<Rightarrow> (int \<times> fb_priv lana) option" where
  "init_fb_bpf_module s = register_fblock_type FB_BPF s"

definition cleanup_fb_bpf_module :: "fb_priv lana \<Rightarrow> fb_priv lana" where
  "cleanup_fb_bpf_module s = unregister_fblock_type FB_BPF s"

section \<open>Events\<close>

interpretation bpf: port_array bpf_port "\<lambda>f c. c\<lparr>bpf_port := f\<rparr>" fb_bpf_bind_cpu fb_bpf_unbind_cpu
  by unfold_locales (simp_all add: fb_bpf_bind_cpu_def fb_bpf_unbind_cpu_def)

lemma fb_bpf_event_ports:
  "fb_bpf_event e (BpfPriv cs) =
     (let (r, cs') = port_event fb_bpf_bind_cpu fb_bpf_unbind_cpu e cs in Some (r, BpfPriv cs'))"
  by (simp add: port_event_def split: fblock_event.split prod.split)

section \<open>Injection\<close>

lemma init_filters_spec:
  "init_filters chk prog cs s = (err, cs', s') \<Longrightarrow>
     fbs s' = fbs s \<and> map bpf_port cs' = map bpf_port cs \<and>
     (err = 0 \<longrightarrow> cs' = map (\<lambda>c. c\<lparr>bpf_filter := Some prog\<rparr>) cs \<and> (cs \<noteq> [] \<longrightarrow> chk prog = 0))"
proof (induction cs arbitrary: s err cs' s')
  case (Cons c cs)
  obtain e1 c1 s1 where one: "fb_bpf_init_filter chk prog c s = (e1, c1, s1)" by (metis prod_cases3)
  then have c1: "fbs s1 = fbs s" "bpf_port c1 = bpf_port c"
    "e1 = 0 \<Longrightarrow> c1 = c\<lparr>bpf_filter := Some prog\<rparr> \<and> chk prog = 0"
    by (auto simp: fb_bpf_init_filter_def mem_fails_eq Let_def split: if_splits)
  obtain e2 cs2 s2 where rest: "init_filters chk prog cs s1 = (e2, cs2, s2)" by (metis prod_cases3)
  show ?case
    using Cons.prems one rest c1 Cons.IH[OF rest] by (auto simp: Let_def split: if_splits)
qed simp

lemma init_filters_ok:
  "kmem s = [] \<Longrightarrow> chk prog = 0 \<Longrightarrow>
     init_filters chk prog cs s = (0, map (\<lambda>c. c\<lparr>bpf_filter := Some prog\<rparr>) cs, s)"
  by (induction cs) (simp_all add: fb_bpf_init_filter_def mem_fails_def)

abbreviation cleared :: "fb_bpf_priv list \<Rightarrow> fb_bpf_priv list" where
  "cleared cs \<equiv> map fb_bpf_cleanup_filter cs"

lemma fb_bpf_inject_spec:
  assumes "fbs s p = Some fb" "private_data fb = BpfPriv cs"
  obtains ret s' where "fb_bpf_inject chk p prog s = Some (ret, s')"
    "fbs s' = (fbs s)(p \<mapsto> fb\<lparr>private_data :=
       BpfPriv (if ret = 0 then map (\<lambda>c. c\<lparr>bpf_filter := Some prog\<rparr>) cs else cleared cs)\<rparr>)"
    "ret = 0 \<Longrightarrow> cs \<noteq> [] \<Longrightarrow> chk prog = 0"
proof -
  let ?s = "upd_fb p (fb\<lparr>private_data := BpfPriv (cleared cs)\<rparr>) s"
  obtain err cs' s' where i: "init_filters chk prog (cleared cs) ?s = (err, cs', s')" by (metis prod_cases3)
  have refill: "(\<lambda>c. c\<lparr>bpf_filter := Some prog\<rparr>) \<circ> fb_bpf_cleanup_filter = (\<lambda>c. c\<lparr>bpf_filter := Some prog\<rparr>)"
    by (simp add: fb_bpf_cleanup_filter_def fun_eq_iff)
  have clear: "cleared cs' = cleared cs" if "map bpf_port cs' = map bpf_port (cleared cs)" for cs'
  proof -
    have all: "cleared xs = map (\<lambda>f. \<lparr>bpf_port = f, bpf_filter = None\<rparr>) (map bpf_port xs)" for xs
      by (simp add: fb_bpf_cleanup_filter_def)
    have "map bpf_port cs' = map bpf_port cs" using that by (simp add: fb_bpf_cleanup_filter_def o_def)
    then show ?thesis by (simp only: all)
  qed
  show ?thesis
  proof (cases "err = 0")
    case True
    with init_filters_spec[OF i] refill show ?thesis
      by (intro that[of 0 "upd_fb p (fb\<lparr>private_data := BpfPriv cs'\<rparr>) s'"])
        (use i assms in \<open>simp_all add: fb_bpf_inject_def fb_bpf_cleanup_filter_cpus_def fb_bpf_init_filter_cpus_def\<close>)
  next
    case False
    with init_filters_spec[OF i] clear[of cs'] show ?thesis
      by (intro that[of err "upd_fb p (fb\<lparr>private_data := BpfPriv (cleared cs')\<rparr>) (upd_fb p (fb\<lparr>private_data := BpfPriv cs'\<rparr>) s')"])
        (use i assms in \<open>simp_all add: fb_bpf_inject_def fb_bpf_cleanup_filter_cpus_def fb_bpf_init_filter_cpus_def\<close>)
  qed
qed

lemma fb_bpf_inject_ok:
  assumes "fbs s p = Some fb" "private_data fb = BpfPriv cs" "kmem s = []" "chk prog = 0"
  shows "fb_bpf_inject chk p prog s =
    Some (0, upd_fb p (fb\<lparr>private_data := BpfPriv (map (\<lambda>c. c\<lparr>bpf_filter := Some prog\<rparr>) cs)\<rparr>) s)"
  using assms init_filters_ok[of "upd_fb p (fb\<lparr>private_data := BpfPriv (cleared cs)\<rparr>) s" chk prog "cleared cs"]
  by (simp add: fb_bpf_inject_def fb_bpf_cleanup_filter_cpus_def fb_bpf_init_filter_cpus_def
      fb_bpf_cleanup_filter_def o_def)

section \<open>Parsing a listing\<close>

lemma simple_strtoul_hex:
  "xdigit_val c = None \<Longrightarrow> simple_strtoul 16 (0x30 # 0x78 # num_text 16 n @ c # r) = Some (n, c # r)"
  by (simp add: simple_strtoul_def strtoul_digits_num_text)

lemma simple_strtoul_dec:
  "xdigit_val c = None \<Longrightarrow> simple_strtoul 10 (num_text 10 n @ c # r) = Some (n, c # r)"
  by (simp add: simple_strtoul_def strtoul_digits_num_text)

text \<open>A skip over separators stops at a digit.\<close>

lemma digit_char_not_separator:
  "v < 16 \<Longrightarrow> digit_char v \<notin> {0x20, 0x2C, 0x7B, 0x7D, 0x0A}"
  using xdigit_val_digit_char[of v] by (auto simp: xdigit_val_def)

lemma skip_to_number:
  assumes "2 \<le> b" "b \<le> 16" "set cs \<subseteq> {0x20, 0x2C, 0x7B, 0x7D, 0x0A}"
  shows "skip_chars cs (num_text b n @ r) = Some (num_text b n @ r)"
proof -
  obtain v ds where v: "num_text b n = digit_char v # ds" "v < b" using num_text_first[of b n] assms(1) by auto
  with assms(2) have "digit_char v \<notin> {0x20, 0x2C, 0x7B, 0x7D, 0x0A}" by (intro digit_char_not_separator) simp
  with assms(3) v(1) show ?thesis by auto
qed

text \<open>A line fits into its buffer if the operation code has at most two digits.\<close>

lemma insn_line_text:
  assumes "unat (bf_code x) < 256"
  shows "insn_line x = [0x7B, 0x20, 0x30, 0x78] @ num_text 16 (unat (bf_code x)) @ [0x2C, 0x20] @
    num_text 10 (unat (bf_jt x)) @ [0x2C, 0x20] @ num_text 10 (unat (bf_jf x)) @ [0x2C, 0x20, 0x30, 0x78] @
    num_text 16 (unat (bf_k x)) @ [0x20, 0x7D, 0x0A]"
proof -
  have "unat (bf_code x) < 16 ^ Suc 1" using assms by simp
  note code = length_num_text[OF _ this]
  have "unat (bf_jt x) < 10 ^ Suc 2" "unat (bf_jf x) < 10 ^ Suc 2"
    using unsigned_less[of "bf_jt x", where 'a = nat] unsigned_less[of "bf_jf x", where 'a = nat] by simp_all
  note jumps = this[THEN length_num_text[rotated]]
  have "unat (bf_k x) < 16 ^ Suc 7" using unsigned_less[of "bf_k x", where 'a = nat] by simp
  note k = length_num_text[OF _ this]
  have "length (num_text 16 (unat (bf_code x))) \<le> 2" "length (num_text 10 (unat (bf_jt x))) \<le> 3"
    "length (num_text 10 (unat (bf_jf x))) \<le> 3" "length (num_text 16 (unat (bf_k x))) \<le> 8"
    using code jumps k by simp_all
  then show ?thesis by (simp add: insn_line_def lit_def)
qed

lemma length_insn_line: "length (insn_line x) \<le> 31"
  unfolding insn_line_def length_take by (rule min.cobounded2)

lemma parse_insn_line:
  assumes "unat (bf_code x) < 256" "skip_chars [0x20, 0x2C, 0x7D, 0x0A] r = Some r'"
  shows "parse_insn (insn_line x @ r) = Some (x, r')"
proof -
  have sep: "xdigit_val 0x2C = None" "xdigit_val 0x20 = None" by (simp_all add: xdigit_val_def)
  show ?thesis
    using assms(2)
    by (simp add: parse_insn_def insn_line_text[OF assms(1)] simple_strtoul_hex[OF sep(1)] simple_strtoul_hex[OF sep(2)]
        simple_strtoul_dec[OF sep(1)] skip_to_number)
qed

lemma skip_chars_ends:
  "\<exists>z \<in> set s. z \<notin> set cs \<Longrightarrow> \<exists>r. skip_chars cs s = Some r \<and> length r \<le> length s"
  by (induction s) (auto intro: le_SucI)

lemma parse_prog_listing:
  assumes "\<forall>x \<in> set prog. unat (bf_code x) < 256" "length prog \<le> n"
    and slack: "\<exists>z \<in> set slack. z \<notin> {0x20, 0x2C, 0x7D, 0x0A}"
  shows "parse_prog n (length slack) (concat (map insn_line prog) @ slack) = Some prog"
  using assms(1,2)
proof (induction prog arbitrary: n)
  case Nil
  then show ?case by (cases n) simp_all
next
  case (Cons x prog)
  then obtain m where n: "n = Suc m" "length prog \<le> m" by (cases n) auto
  have x: "unat (bf_code x) < 256" using Cons.prems by simp
  have long: "0 < length (insn_line x)" by (simp add: insn_line_text[OF x])
  show ?case
  proof (cases prog)
    case Nil
    obtain r where r: "skip_chars [0x20, 0x2C, 0x7D, 0x0A] slack = Some r" "length r \<le> length slack"
      using skip_chars_ends[of slack "[0x20, 0x2C, 0x7D, 0x0A]"] slack by auto
    have "parse_prog m (length slack) r = Some []" using r(2) by (cases m) simp_all
    with Nil n long parse_insn_line[OF x r(1)] show ?thesis by simp
  next
    case (Cons y prog')
    then have "unat (bf_code y) < 256" using Cons.prems by simp
    then have "skip_chars [0x20, 0x2C, 0x7D, 0x0A] (concat (map insn_line prog) @ slack) = Some (concat (map insn_line prog) @ slack)"
      by (simp add: Cons insn_line_text)
    from parse_insn_line[OF x this] Cons.IH[of m] Cons.prems n long show ?thesis by simp
  qed
qed

lemma length_listing: "length (concat (map insn_line prog)) \<le> 31 * length prog"
proof (induction prog)
  case (Cons x prog)
  then show ?case using length_insn_line[of x] by simp
qed simp

section \<open>What a write to the proc file does\<close>

lemma mem_fails_none: "kmem s = [] \<Longrightarrow> mem_fails s = (False, s)"
  by (simp add: mem_fails_def)


definition ret_insn :: sock_filter where
  "ret_insn = \<lparr>bf_code = 6, bf_jt = 0, bf_jf = 0, bf_k = 65535\<rparr>"

definition one_bpf :: "fb_priv fblock" where
  "one_bpf = (ctor_fblock NullPriv)\<lparr>private_data := BpfPriv [\<lparr>bpf_port = (\<lambda>_. 9), bpf_filter = None\<rparr>],
     netfb_rx := FB_BPF, event_rx := FB_BPF, refcnt := 1, fb_idp := 1\<rparr>"

lemma one_bpf_boot:
  "fbs (boot_with one_bpf) (slab_addr 0) = Some one_bpf" "kmem (boot_with one_bpf) = []"
  "private_data one_bpf = BpfPriv [\<lparr>bpf_port = (\<lambda>_. 9), bpf_filter = None\<rparr>]"
  by (simp_all add: boot_with_def lana_boot_def one_bpf_def)


lemma mem_fails_fbs: "mem_fails s = (b, s') \<Longrightarrow> fbs s' = fbs s"
  by (auto simp: mem_fails_eq)

lemma proc_write_cases:
  assumes w: "fb_bpf_proc_write chk p copied ubuff slack s = Some (ret, s')"
  obtains (failed) "ret < 0" "fbs s' = fbs s"
    | (injected) s3 prog r where "fbs s3 = fbs s" "fb_bpf_inject chk p prog s3 = Some (r, s')"
        "ret = int (length ubuff)" "parse_prog MAX_INSTR_SIZ (length slack) (ubuff @ slack) = Some prog"
proof -
  obtain f1 s1 where 1: "mem_fails s = (f1, s1)" by fastforce
  obtain f2 s2 where 2: "mem_fails s1 = (f2, s2)" by fastforce
  obtain f3 s3 where 3: "mem_fails s2 = (f3, s3)" by fastforce
  have fbs: "fbs s1 = fbs s" "fbs s2 = fbs s" "fbs s3 = fbs s"
    using mem_fails_fbs[OF 1] mem_fails_fbs[OF 2] mem_fails_fbs[OF 3] by simp_all
  show ?thesis
  proof (cases "length ubuff \<le> MAX_BUFF_SIZ \<and> \<not> f1 \<and> \<not> f2 \<and> \<not> f3 \<and> copied")
    case False
    with w 1 2 3 fbs show ?thesis by (intro failed) (auto simp: fb_bpf_proc_write_def split: if_splits)
  next
    case True
    with w 1 2 3 obtain prog where prog: "parse_prog MAX_INSTR_SIZ (length slack) (ubuff @ slack) = Some prog"
      by (auto simp: fb_bpf_proc_write_def split: bind_splits)
    show ?thesis
    proof (cases "length prog = MAX_INSTR_SIZ")
      case full: True
      with True w 1 2 3 prog fbs show ?thesis by (intro failed) (simp_all add: fb_bpf_proc_write_def)
    next
      case False
      with True w 1 2 3 prog obtain r where "fb_bpf_inject chk p prog s3 = Some (r, s')" "ret = int (length ubuff)"
        by (auto simp: fb_bpf_proc_write_def split: bind_splits)
      with fbs(3) prog show ?thesis by (intro injected) simp_all
    qed
  qed
qed

text \<open>C25: One filter for all CPUs. After any write to the proc file that has a result, either the
  block is as it was (the write failed with an error code), or all CPUs have the same program, which the
  checker has accepted, or no CPU has one. The ports never change, nor does any other block.\<close>
theorem filter_write_uniform:
  assumes "fbs s p = Some fb" "private_data fb = BpfPriv cs"
    and "fb_bpf_proc_write chk p copied ubuff slack s = Some (ret, s')"
  shows "\<exists>cs'. fbs s' = (fbs s)(p \<mapsto> fb\<lparr>private_data := BpfPriv cs'\<rparr>) \<and> map bpf_port cs' = map bpf_port cs \<and>
     (if ret < 0 then cs' = cs
      else ret = int (length ubuff) \<and>
        ((\<forall>c \<in> set cs'. bpf_filter c = None) \<or> (\<exists>prog. chk prog = 0 \<and> (\<forall>c \<in> set cs'. bpf_filter c = Some prog))))"
proof -
  have same: "fb\<lparr>private_data := BpfPriv cs\<rparr> = fb" using assms(2) by simp
  from assms(3) show ?thesis
  proof (cases rule: proc_write_cases)
    case failed
    with same assms(1) show ?thesis by (intro exI[of _ cs]) (simp add: fun_upd_idem)
  next
    case (injected s1 prog r)
    have fb1: "fbs s1 p = Some fb" using injected(1) assms(1) by simp
    show ?thesis
    proof (rule fb_bpf_inject_spec[OF fb1 assms(2), of chk prog])
      fix r2 :: int and s2
      let ?cs = "if r2 = 0 then map (\<lambda>c. c\<lparr>bpf_filter := Some prog\<rparr>) cs else cleared cs"
      assume i: "fb_bpf_inject chk p prog s1 = Some (r2, s2)" "fbs s2 = (fbs s1)(p \<mapsto> fb\<lparr>private_data := BpfPriv ?cs\<rparr>)"
        "r2 = 0 \<Longrightarrow> cs \<noteq> [] \<Longrightarrow> chk prog = 0"
      then show ?thesis using injected
        by (intro exI[of _ ?cs]) (auto simp: fb_bpf_cleanup_filter_def)
    qed
  qed
qed

theorem filter_write_uniform_witness:
  "\<exists>ret s' cs'. fb_bpf_proc_write (\<lambda>_. 0) (slab_addr 0) True [] [0] (boot_with one_bpf) = Some (ret, s') \<and>
     fbs s' (slab_addr 0) = Some (one_bpf\<lparr>private_data := BpfPriv cs'\<rparr>) \<and> map bpf_port cs' = [\<lambda>_. 9]"
proof -
  have "parse_prog MAX_INSTR_SIZ 1 [0] = Some []" by (simp add: MAX_INSTR_SIZ_def eval_nat_numeral)
  moreover obtain r s' where "fb_bpf_inject (\<lambda>_. 0) (slab_addr 0) [] (boot_with one_bpf) = Some (r, s')"
    using fb_bpf_inject_ok[OF one_bpf_boot(1,3,2), of "\<lambda>_. 0" "[]"] by auto
  ultimately have w: "fb_bpf_proc_write (\<lambda>_. 0) (slab_addr 0) True [] [0] (boot_with one_bpf) = Some (0, s')"
    by (simp add: fb_bpf_proc_write_def mem_fails_none one_bpf_boot MAX_INSTR_SIZ_def)
  from filter_write_uniform[OF one_bpf_boot(1,3) w] show ?thesis using w by auto
qed

text \<open>C26: A rejected filter opens the block. When the checker refuses the program that was written, the
  write still reports success (it returns the number of bytes), and the filter that was installed
  before is gone: from then on the block forwards every packet along its bound port.\<close>
theorem rejected_filter_opens:
  assumes "fbs (tabs k) p = Some fb" "private_data fb = BpfPriv cs" "cpu k < length cs" "kmem (tabs k) = []"
    and "parse_prog MAX_INSTR_SIZ (length slack) (ubuff @ slack) = Some prog" "chk prog \<noteq> 0"
    and "length ubuff \<le> MAX_BUFF_SIZ" "length prog < MAX_INSTR_SIZ"
    and "bpf_port (cs ! cpu k) dir \<noteq> IDP_UNKNOWN"
  shows "\<exists>t. fb_bpf_proc_write chk p True ubuff slack (tabs k) = Some (int (length ubuff), t) \<and>
     fb_bpf_netrx run p skb dir (k\<lparr>tabs := t\<rparr>) =
       Some (PPE_SUCCESS, write_next_idp_to_skb skb (fb_idp fb) (bpf_port (cs ! cpu k) dir), dir, k\<lparr>tabs := t\<rparr>)"
proof (rule fb_bpf_inject_spec[OF assms(1,2), of chk prog])
  fix r t
  assume i: "fb_bpf_inject chk p prog (tabs k) = Some (r, t)" "fbs t = (fbs (tabs k))(p \<mapsto> fb\<lparr>private_data :=
       BpfPriv (if r = 0 then map (\<lambda>c. c\<lparr>bpf_filter := Some prog\<rparr>) cs else cleared cs)\<rparr>)"
    "r = 0 \<Longrightarrow> cs \<noteq> [] \<Longrightarrow> chk prog = 0"
  have "cs \<noteq> []" using assms(3) by auto
  with i assms(6) have "fbs t p = Some (fb\<lparr>private_data := BpfPriv (cleared cs)\<rparr>)" by auto
  moreover have "fb_bpf_proc_write chk p True ubuff slack (tabs k) = Some (int (length ubuff), t)"
    using i(1) assms(5,7,8) by (simp add: fb_bpf_proc_write_def mem_fails_none[OF assms(4)])
  ultimately show ?thesis
    using assms(3,9) by (simp add: fb_bpf_netrx_def fb_bpf_cleanup_filter_def)
qed

theorem rejected_filter_opens_witness:
  "\<exists>t skb'. fb_bpf_proc_write (\<lambda>_. - EINVAL) (slab_addr 0) True [] [0] (boot_with one_bpf) = Some (0, t) \<and>
     fb_bpf_netrx (\<lambda>_ _. 0) (slab_addr 0) (new_skb 7 [1, 2] 1) TYPE_EGRESS
       \<lparr>tabs = t, cpu = 0, iostats = [], emdiscs = [], freed = [], outbox = [], next_skb = 0\<rparr> =
     Some (PPE_SUCCESS, skb', TYPE_EGRESS, \<lparr>tabs = t, cpu = 0, iostats = [], emdiscs = [], freed = [], outbox = [], next_skb = 0\<rparr>)"
proof -
  have p: "parse_prog MAX_INSTR_SIZ 1 [0] = Some []" by (simp add: MAX_INSTR_SIZ_def eval_nat_numeral)
  let ?k = "\<lparr>tabs = boot_with one_bpf, cpu = 0, iostats = [], emdiscs = [], freed = [], outbox = [], next_skb = 0\<rparr> :: fb_priv kern"
  have "fbs (tabs ?k) (slab_addr 0) = Some one_bpf" by (simp add: one_bpf_boot)
  from rejected_filter_opens[OF this one_bpf_boot(3), of "[0]" "[]" "[]" "\<lambda>_. - EINVAL" TYPE_EGRESS "\<lambda>_ _. 0" "new_skb 7 [1, 2] 1"]
  show ?thesis using p by (simp add: one_bpf_boot MAX_INSTR_SIZ_def IDP_UNKNOWN_def) blast
qed

end
