(* ===== verification/Xt_Vlink.thy ===== *)
theory Xt_Vlink
  imports Xt_Fblock "HOL-Library.Multiset"
begin

text \<open>The virtual link layer, \<open>src/src/xt_vlink.c\<close> and \<open>src/src/xt_vlink.h\<close>: a table
  of link types (subsystems), each with a list of callbacks that is ordered by priority, and the
  dispatch of the messages of the tool \<open>vlink\<close> to them.

  Subsystems and callbacks are static objects of the modules that provide them. They live in two
  stores, and the list of callbacks is linked through their \<open>next\<close> fields as in the source: the
  predicate \<open>chain\<close> relates such a list to the sequence of its addresses, and the loops are
  proved against operations on that sequence. A walk over a cyclic list does not end; it has the
  result \<^const>\<open>None\<close>, like an access to an object that does not exist.\<close>

section \<open>Data\<close>

abbreviation NETLINK_VLINK_RX_OK :: int where "NETLINK_VLINK_RX_OK \<equiv> 0"
abbreviation NETLINK_VLINK_RX_NXT :: int where "NETLINK_VLINK_RX_NXT \<equiv> 1"
abbreviation NETLINK_VLINK_RX_BAD :: int where "NETLINK_VLINK_RX_BAD \<equiv> 2"
abbreviation NETLINK_VLINK_RX_EMERG :: int where "NETLINK_VLINK_RX_EMERG \<equiv> 3"
abbreviation NETLINK_VLINK_RX_STOP :: int where "NETLINK_VLINK_RX_STOP \<equiv> 4"

abbreviation NETLINK_VLINK_PRIO_LOW :: int where "NETLINK_VLINK_PRIO_LOW \<equiv> 0"
abbreviation NETLINK_VLINK_PRIO_NORM :: int where "NETLINK_VLINK_PRIO_NORM \<equiv> 1"
abbreviation NETLINK_VLINK_PRIO_HIGH :: int where "NETLINK_VLINK_PRIO_HIGH \<equiv> 2"

text \<open>\<open>enum vlink_groups\<close> starts at \<open>NLMSG_MIN_TYPE\<close>, which is 16.\<close>

datatype vlink_groups =
  VLINKNLGRP_NONE | VLINKNLGRP_ETHERNET | VLINKNLGRP_BLUETOOTH | VLINKNLGRP_INFINIBAND | VLINKNLGRP_I2C

primrec group_type :: "vlink_groups \<Rightarrow> u16" where
  "group_type VLINKNLGRP_NONE = 16"
| "group_type VLINKNLGRP_ETHERNET = 17"
| "group_type VLINKNLGRP_BLUETOOTH = 18"
| "group_type VLINKNLGRP_INFINIBAND = 19"
| "group_type VLINKNLGRP_I2C = 20"

abbreviation VLINKNLCMD_ADD_DEVICE :: u8 where "VLINKNLCMD_ADD_DEVICE \<equiv> 0"
abbreviation VLINKNLCMD_RM_DEVICE :: u8 where "VLINKNLCMD_RM_DEVICE \<equiv> 1"
abbreviation VLINKNLCMD_START_HOOK_DEVICE :: u8 where "VLINKNLCMD_START_HOOK_DEVICE \<equiv> 2"
abbreviation VLINKNLCMD_STOP_HOOK_DEVICE :: u8 where "VLINKNLCMD_STOP_HOOK_DEVICE \<equiv> 3"

record vlinknlmsg =
  vm_cmd :: u8
  vm_flags :: u16
  vm_type :: u16
  vm_port :: u16
  virt_name :: "u8 list"
  real_name :: "u8 list"

definition MAX_VLINK_SUBSYSTEMS :: nat where
  "MAX_VLINK_SUBSYSTEMS = 256"

record 'r vlink_callback =
  cb_priority :: int
  cb_rx :: 'r
  cb_next :: "ptr option"

record vlink_subsys =
  vs_name :: cstr
  vs_type :: u16
  vs_id :: u16
  vs_owner :: fb_module
  vs_head :: "ptr option"

text \<open>\<open>vlink_subsystem_table\<close> is \<^const>\<open>None\<close> while it is not allocated.\<close>

record 'r vlink_system =
  vlink_subsystem_table :: "ptr option list option"
  subsystems :: "ptr \<rightharpoonup> vlink_subsys"
  callbacks :: "ptr \<rightharpoonup> 'r vlink_callback"
  vlink_modrefs :: "fb_module \<Rightarrow> int"
  vlink_sock :: bool
  vlink_proc :: bool

definition vlink_module_get :: "fb_module \<Rightarrow> 'r vlink_system \<Rightarrow> 'r vlink_system" where
  "vlink_module_get m v = v\<lparr>vlink_modrefs := (vlink_modrefs v)(m := vlink_modrefs v m + 1)\<rparr>"

definition vlink_module_put :: "fb_module \<Rightarrow> 'r vlink_system \<Rightarrow> 'r vlink_system" where
  "vlink_module_put m v = v\<lparr>vlink_modrefs := (vlink_modrefs v)(m := vlink_modrefs v m - 1)\<rparr>"

section \<open>The table of subsystems\<close>

text \<open>The scan of \<open>vlink_subsys_register\<close>: from index \<open>i\<close> on, with the first free slot
  seen so far. \<open>Inl\<close> is the early return because the type is taken.\<close>

fun register_scan :: "(ptr \<rightharpoonup> vlink_subsys) \<Rightarrow> u16 \<Rightarrow> nat \<Rightarrow> nat option \<Rightarrow> ptr option list \<Rightarrow> (int + nat option) option" where
  "register_scan subs ty i slot [] = Some (Inr slot)"
| "register_scan subs ty i slot (None # es) =
     register_scan subs ty (Suc i) (if slot = None then Some i else slot) es"
| "register_scan subs ty i slot (Some vs # es) = do {
     x \<leftarrow> subs vs;
     (if vs_type x = ty then Some (Inl (- EBUSY)) else register_scan subs ty (Suc i) slot es)
   }"

definition vlink_subsys_register :: "ptr option \<Rightarrow> 'r vlink_system \<Rightarrow> (int \<times> 'r vlink_system) option" where
  "vlink_subsys_register n v =
     (case n of None \<Rightarrow> Some (- EINVAL, v)
      | Some n \<Rightarrow> do {
          tab \<leftarrow> vlink_subsystem_table v;
          x \<leftarrow> subsystems v n;
          r \<leftarrow> register_scan (subsystems v) (vs_type x) 0 None tab;
          (case r of
             Inl e \<Rightarrow> Some (e, v)
           | Inr None \<Rightarrow> Some (- ENOMEM, v)
           | Inr (Some slot) \<Rightarrow>
               Some (0, vlink_module_get LANA_CORE
                  (v\<lparr>subsystems := (subsystems v)(n \<mapsto> x\<lparr>vs_id := of_nat slot\<rparr>),
                     vlink_subsystem_table := Some (tab[slot := Some n])\<rparr>)))
        })"

text \<open>The scan of \<open>vlink_subsys_unregister\<close> for the slot \<open>i\<close> that holds \<open>n\<close> and
  agrees with its \<open>id\<close>.\<close>

fun unregister_scan :: "ptr \<Rightarrow> nat \<Rightarrow> nat \<Rightarrow> ptr option list \<Rightarrow> nat option" where
  "unregister_scan n ident i [] = None"
| "unregister_scan n ident i (e # es) =
     (if e = Some n \<and> i = ident then Some i else unregister_scan n ident (Suc i) es)"

definition vlink_subsys_unregister :: "ptr option \<Rightarrow> 'r vlink_system \<Rightarrow> 'r vlink_system option" where
  "vlink_subsys_unregister n v =
     (case n of None \<Rightarrow> Some v
      | Some n \<Rightarrow> do {
          tab \<leftarrow> vlink_subsystem_table v;
          x \<leftarrow> subsystems v n;
          (case unregister_scan n (unat (vs_id x)) 0 tab of
             None \<Rightarrow> Some v
           | Some i \<Rightarrow>
               Some (vlink_module_put LANA_CORE
                  (v\<lparr>subsystems := (subsystems v)(n \<mapsto> x\<lparr>vs_id := 0\<rparr>),
                     vlink_subsystem_table := Some (tab[i := None])\<rparr>)))
        })"

fun find_scan :: "(ptr \<rightharpoonup> vlink_subsys) \<Rightarrow> u16 \<Rightarrow> ptr option list \<Rightarrow> ptr option option" where
  "find_scan subs ty [] = Some None"
| "find_scan subs ty (None # es) = find_scan subs ty es"
| "find_scan subs ty (Some vs # es) = do {
     x \<leftarrow> subs vs;
     (if vs_type x = ty then Some (Some vs) else find_scan subs ty es)
   }"

definition vlink_subsys_find :: "u16 \<Rightarrow> 'r vlink_system \<Rightarrow> ptr option option" where
  "vlink_subsys_find ty v = do { tab \<leftarrow> vlink_subsystem_table v; find_scan (subsystems v) ty tab }"

section \<open>Callbacks\<close>

text \<open>\<open>hb\<close> is the address of a pointer: of the head of the subsystem, or of the \<open>next\<close>
  field of a callback.\<close>

datatype link = Head | Next ptr

fun deref :: "ptr option \<Rightarrow> (ptr \<rightharpoonup> 'r vlink_callback) \<Rightarrow> link \<Rightarrow> ptr option option" where
  "deref hp h Head = Some hp"
| "deref hp h (Next p) = map_option cb_next (h p)"

fun assign :: "link \<Rightarrow> ptr option \<Rightarrow> ptr \<Rightarrow> 'r vlink_system \<Rightarrow> 'r vlink_system option" where
  "assign Head q n v = do { x \<leftarrow> subsystems v n; Some (v\<lparr>subsystems := (subsystems v)(n \<mapsto> x\<lparr>vs_head := q\<rparr>)\<rparr>) }"
| "assign (Next p) q n v = do { c \<leftarrow> callbacks v p; Some (v\<lparr>callbacks := (callbacks v)(p \<mapsto> c\<lparr>cb_next := q\<rparr>)\<rparr>) }"

partial_function (option) add_position ::
    "ptr option \<Rightarrow> (ptr \<rightharpoonup> 'r vlink_callback) \<Rightarrow> int \<Rightarrow> link \<Rightarrow> link option" where
  "add_position hp h prio hb = do {
     cur \<leftarrow> deref hp h hb;
     (case cur of
        None \<Rightarrow> Some hb
      | Some q \<Rightarrow> do {
          c \<leftarrow> h q;
          (if prio > cb_priority c then Some hb else add_position hp h prio (Next q))
        })
   }"

definition vlink_add_callback_locked :: "ptr \<Rightarrow> ptr option \<Rightarrow> 'r vlink_system \<Rightarrow> (int \<times> 'r vlink_system) option" where
  "vlink_add_callback_locked n cb v =
     (case cb of None \<Rightarrow> Some (- EINVAL, v)
      | Some cb \<Rightarrow> do {
          x \<leftarrow> subsystems v n;
          c \<leftarrow> callbacks v cb;
          hb \<leftarrow> add_position (vs_head x) (callbacks v) (cb_priority c) Head;
          cur \<leftarrow> deref (vs_head x) (callbacks v) hb;
          v \<leftarrow> Some (v\<lparr>callbacks := (callbacks v)(cb \<mapsto> c\<lparr>cb_next := cur\<rparr>)\<rparr>);
          v \<leftarrow> assign hb (Some cb) n v;
          Some (0, v)
        })"

definition vlink_add_callback :: "ptr option \<Rightarrow> ptr option \<Rightarrow> 'r vlink_system \<Rightarrow> (int \<times> 'r vlink_system) option" where
  "vlink_add_callback n cb v = (case n of None \<Rightarrow> Some (- EINVAL, v) | Some n \<Rightarrow> vlink_add_callback_locked n cb v)"

text \<open>The argument list up to its terminating NULL.\<close>

fun vlink_add_callbacks_va :: "ptr option \<Rightarrow> ptr list \<Rightarrow> 'r vlink_system \<Rightarrow> (int \<times> 'r vlink_system) option" where
  "vlink_add_callbacks_va n [] v = Some (0, v)"
| "vlink_add_callbacks_va n (arg # ap) v = do {
     (ret, v) \<leftarrow> vlink_add_callback n (Some arg) v;
     (if ret \<noteq> 0 then Some (ret, v) else vlink_add_callbacks_va n ap v)
   }"

definition vlink_add_callbacks :: "ptr option \<Rightarrow> ptr list \<Rightarrow> 'r vlink_system \<Rightarrow> (int \<times> 'r vlink_system) option" where
  "vlink_add_callbacks n cbs v = vlink_add_callbacks_va n cbs v"

partial_function (option) rm_position ::
    "ptr option \<Rightarrow> (ptr \<rightharpoonup> 'r vlink_callback) \<Rightarrow> ptr \<Rightarrow> link \<Rightarrow> link option option" where
  "rm_position hp h cb hb = do {
     cur \<leftarrow> deref hp h hb;
     (case cur of
        None \<Rightarrow> Some None
      | Some q \<Rightarrow> if q = cb then Some (Some hb) else rm_position hp h cb (Next q))
   }"

definition vlink_rm_callback_locked :: "ptr \<Rightarrow> ptr option \<Rightarrow> 'r vlink_system \<Rightarrow> (int \<times> 'r vlink_system) option" where
  "vlink_rm_callback_locked n cb v =
     (case cb of None \<Rightarrow> Some (- EINVAL, v)
      | Some cb \<Rightarrow> do {
          x \<leftarrow> subsystems v n;
          r \<leftarrow> rm_position (vs_head x) (callbacks v) cb Head;
          (case r of
             None \<Rightarrow> Some (- ENOENT, v)
           | Some hb \<Rightarrow> do {
               c \<leftarrow> callbacks v cb;
               v \<leftarrow> assign hb (cb_next c) n v;
               Some (0, v)
             })
        })"

definition vlink_rm_callback :: "ptr option \<Rightarrow> ptr option \<Rightarrow> 'r vlink_system \<Rightarrow> (int \<times> 'r vlink_system) option" where
  "vlink_rm_callback n cb v = (case n of None \<Rightarrow> Some (- EINVAL, v) | Some n \<Rightarrow> vlink_rm_callback_locked n cb v)"

partial_function (option) rm_all_callbacks :: "ptr \<Rightarrow> 'r vlink_system \<Rightarrow> 'r vlink_system option" where
  "rm_all_callbacks n v = do {
     x \<leftarrow> subsystems v n;
     (if vs_head x = None then Some v
      else do {
        (ret, v) \<leftarrow> vlink_rm_callback (Some n) (vs_head x) v;
        rm_all_callbacks n v
      })
   }"

definition vlink_subsys_unregister_batch :: "ptr option \<Rightarrow> 'r vlink_system \<Rightarrow> 'r vlink_system option" where
  "vlink_subsys_unregister_batch n v =
     (case n of None \<Rightarrow> Some v
      | Some n \<Rightarrow> do {
          v \<leftarrow> vlink_subsys_unregister (Some n) v;
          rm_all_callbacks n v
        })"

section \<open>Messages\<close>

text \<open>A callback works on the message and on the state \<open>'e\<close> of its module; the modules
  give the functions behind the pointers \<open>rx\<close>.\<close>

type_synonym ('r, 'e) vlink_rx = "'r \<Rightarrow> vlinknlmsg \<Rightarrow> 'e \<Rightarrow> (int \<times> 'e) option"

definition rx_emerg :: "int \<Rightarrow> bool" where
  "rx_emerg ret \<longleftrightarrow> ret AND NETLINK_VLINK_RX_EMERG = NETLINK_VLINK_RX_EMERG"

definition rx_stop :: "int \<Rightarrow> bool" where
  "rx_stop ret \<longleftrightarrow> ret AND NETLINK_VLINK_RX_STOP = NETLINK_VLINK_RX_STOP"

text \<open>What \<open>__vlink_invoke\<close> does with the owner of the subsystem when a callback ends the
  walk. The test for \<open>RX_STOP\<close>, whose value is \<open>nret\<close>, is not reached after
  \<open>RX_EMERG\<close>.\<close>

definition invoke_stop :: "fb_module \<Rightarrow> u8 \<Rightarrow> int \<Rightarrow> 'r vlink_system \<Rightarrow> 'r vlink_system" where
  "invoke_stop owner cmd ret v =
     (let nret = (\<not> rx_emerg ret \<and> rx_stop ret);
          v = (if cmd = VLINKNLCMD_START_HOOK_DEVICE \<and> nret then vlink_module_get owner v else v)
      in if cmd = VLINKNLCMD_STOP_HOOK_DEVICE \<and> nret then vlink_module_put owner v else v)"

partial_function (option) invoke_from ::
    "('r, 'e) vlink_rx \<Rightarrow> fb_module \<Rightarrow> vlinknlmsg \<Rightarrow> ptr option \<Rightarrow> int \<Rightarrow> 'r vlink_system \<times> 'e \<Rightarrow>
     (int \<times> 'r vlink_system \<times> 'e) option" where
  "invoke_from rx owner vmsg hb ret s =
     (case hb of
        None \<Rightarrow> Some (ret, s)
      | Some p \<Rightarrow> do {
          c \<leftarrow> callbacks (fst s) p;
          (ret, e) \<leftarrow> rx (cb_rx c) vmsg (snd s);
          (if rx_emerg ret \<or> rx_stop ret then Some (ret, invoke_stop owner (vm_cmd vmsg) ret (fst s), e)
           else invoke_from rx owner vmsg (cb_next c) ret (fst s, e))
        })"

definition vlink_invoke ::
    "('r, 'e) vlink_rx \<Rightarrow> ptr \<Rightarrow> vlinknlmsg \<Rightarrow> 'r vlink_system \<times> 'e \<Rightarrow> (int \<times> 'r vlink_system \<times> 'e) option" where
  "vlink_invoke rx n vmsg s = do {
     x \<leftarrow> subsystems (fst s) n;
     invoke_from rx (vs_owner x) vmsg (vs_head x) 0 s
   }"

text \<open>A netlink message: the fields of its header that the handlers read, and its data.\<close>

record nlmsghdr =
  nlmsg_len :: u32
  nlmsg_type :: u16
  nlmsg_data :: "u8 list"

definition NLMSG_LENGTH :: "u32 \<Rightarrow> u32" where
  "NLMSG_LENGTH len = len + 16"

text \<open>The fields of \<open>struct vlinknlmsg\<close> in the data of a message: 40 bytes, with the bit
  fields of its first two words in little-endian order.\<close>

definition sizeof_vlinknlmsg :: u32 where
  "sizeof_vlinknlmsg = 40"

definition le16 :: "u8 \<Rightarrow> u8 \<Rightarrow> u16" where
  "le16 lo hi = ucast lo OR push_bit 8 (ucast hi)"

definition vlinknlmsg_of :: "u8 list \<Rightarrow> vlinknlmsg option" where
  "vlinknlmsg_of d =
     (if length d < 40 then None
      else Some \<lparr>vm_cmd = d ! 0, vm_flags = le16 (d ! 1) (d ! 2),
                 vm_type = le16 (d ! 4) (d ! 5), vm_port = le16 (d ! 6) (d ! 7),
                 virt_name = take 16 (drop 8 d), real_name = take 16 (drop 24 d)\<rparr>)"

text \<open>\<open>denied\<close> is the verdict of the kernel's \<open>security_netlink_recv\<close> on the sender.\<close>

definition vlink_rcv_msg ::
    "('r, 'e) vlink_rx \<Rightarrow> bool \<Rightarrow> nlmsghdr \<Rightarrow> 'r vlink_system \<times> 'e \<Rightarrow> (int \<times> 'r vlink_system \<times> 'e) option" where
  "vlink_rcv_msg rx denied nlh s =
     (if denied then Some (- EPERM, s)
      else if nlmsg_len nlh < NLMSG_LENGTH sizeof_vlinknlmsg then Some (0, s)
      else do {
        sys \<leftarrow> vlink_subsys_find (nlmsg_type nlh) (fst s);
        (case sys of
           None \<Rightarrow> Some (- EINVAL, s)
         | Some n \<Rightarrow> do {
             vmsg \<leftarrow> vlinknlmsg_of (nlmsg_data nlh);
             vlink_invoke rx n vmsg s
           })
      })"

text \<open>The kernel's \<open>netlink_rcv_skb\<close>, which calls the handler for the messages of a buffer, is
  a parameter.\<close>

definition vlink_rcv ::
    "('skb \<Rightarrow> (nlmsghdr \<Rightarrow> 'r vlink_system \<times> 'e \<Rightarrow> (int \<times> 'r vlink_system \<times> 'e) option) \<Rightarrow>
        'r vlink_system \<times> 'e \<Rightarrow> ('r vlink_system \<times> 'e) option) \<Rightarrow>
     ('r, 'e) vlink_rx \<Rightarrow> bool \<Rightarrow> 'skb \<Rightarrow> 'r vlink_system \<times> 'e \<Rightarrow> ('r vlink_system \<times> 'e) option" where
  "vlink_rcv netlink_rcv_skb rx denied skb s = netlink_rcv_skb skb (vlink_rcv_msg rx denied) s"

section \<open>Start and stop\<close>

text \<open>The lines of \<open>/proc/net/lana/vlink\<close>: name, type and slot of every subsystem.\<close>

fun procfs_lines :: "(ptr \<rightharpoonup> vlink_subsys) \<Rightarrow> ptr option list \<Rightarrow> (cstr \<times> u16 \<times> u16) list option" where
  "procfs_lines subs [] = Some []"
| "procfs_lines subs (None # es) = procfs_lines subs es"
| "procfs_lines subs (Some vs # es) = do {
     x \<leftarrow> subs vs;
     ls \<leftarrow> procfs_lines subs es;
     Some ((vs_name x, vs_type x, vs_id x) # ls)
   }"

definition vlink_procfs :: "'r vlink_system \<Rightarrow> (cstr \<times> u16 \<times> u16) list option" where
  "vlink_procfs v = do { tab \<leftarrow> vlink_subsystem_table v; procfs_lines (subsystems v) tab }"

text \<open>The three requests of \<open>init_vlink_system\<close> succeed or not. \<open>junk\<close> is the value the
  variable \<open>ret\<close> happens to have: on the last error path it is returned without having been
  set.\<close>

definition init_vlink_system :: "int \<Rightarrow> bool \<Rightarrow> bool \<Rightarrow> bool \<Rightarrow> 'r vlink_system \<Rightarrow> int \<times> 'r vlink_system" where
  "init_vlink_system junk kzalloc_ok create_ok proc_ok v =
     (if \<not> kzalloc_ok then (- ENOMEM, v\<lparr>vlink_subsystem_table := None\<rparr>)
      else
        let v = v\<lparr>vlink_subsystem_table := Some (replicate MAX_VLINK_SUBSYSTEMS None)\<rparr> in
        if \<not> create_ok then (- ENOMEM, v\<lparr>vlink_subsystem_table := None\<rparr>)
        else
          let v = v\<lparr>vlink_sock := True\<rparr> in
          if \<not> proc_ok then (junk, v\<lparr>vlink_sock := False, vlink_subsystem_table := None\<rparr>)
          else (0, v\<lparr>vlink_proc := True\<rparr>))"

definition cleanup_vlink_system :: "'r vlink_system \<Rightarrow> 'r vlink_system" where
  "cleanup_vlink_system v = v\<lparr>vlink_proc := False, vlink_sock := False, vlink_subsystem_table := None\<rparr>"

section \<open>The lists of callbacks\<close>

primrec chain :: "(ptr \<rightharpoonup> 'r vlink_callback) \<Rightarrow> ptr option \<Rightarrow> ptr list \<Rightarrow> bool" where
  "chain h hp [] \<longleftrightarrow> hp = None"
| "chain h hp (p # ps) \<longleftrightarrow> hp = Some p \<and> (\<exists>c. h p = Some c \<and> chain h (cb_next c) ps)"

definition cb_chain :: "'r vlink_system \<Rightarrow> ptr \<Rightarrow> ptr list \<Rightarrow> bool" where
  "cb_chain v n ps \<longleftrightarrow> (\<exists>x. subsystems v n = Some x \<and> chain (callbacks v) (vs_head x) ps)"

text \<open>What linking does not touch: priority and function of the callbacks, and everything of the
  subsystems but their heads.\<close>

definition cb_static :: "'r vlink_system \<Rightarrow> ptr \<rightharpoonup> int \<times> 'r" where
  "cb_static v = (\<lambda>p. map_option (\<lambda>c. (cb_priority c, cb_rx c)) (callbacks v p))"

definition relinked :: "ptr \<Rightarrow> 'r vlink_system \<Rightarrow> 'r vlink_system \<Rightarrow> bool" where
  "relinked n v v' \<longleftrightarrow> cb_static v' = cb_static v \<and>
     (\<exists>x q. subsystems v n = Some x \<and> subsystems v' = (subsystems v)(n \<mapsto> x\<lparr>vs_head := q\<rparr>)) \<and>
     vlink_subsystem_table v' = vlink_subsystem_table v \<and> vlink_modrefs v' = vlink_modrefs v"

definition prio :: "'r vlink_system \<Rightarrow> ptr \<Rightarrow> int" where
  "prio v p = cb_priority (the (callbacks v p))"

definition first_of :: "ptr list \<Rightarrow> ptr option" where
  "first_of ps = (case ps of [] \<Rightarrow> None | p # _ \<Rightarrow> Some p)"

definition link_after :: "ptr list \<Rightarrow> link" where
  "link_after ps = (if ps = [] then Head else Next (last ps))"

lemma chain_unique: "chain h hp ps \<Longrightarrow> chain h hp qs \<Longrightarrow> ps = qs"
proof (induction ps arbitrary: hp qs)
  case Nil
  then show ?case by (cases qs) auto
next
  case (Cons p ps)
  then show ?case by (cases qs) auto
qed

lemma chain_split: "chain h hp (ps @ qs) \<Longrightarrow> \<exists>hp'. chain h hp' qs"
  by (induction ps arbitrary: hp) auto

lemma chain_first: "chain h hp ps \<Longrightarrow> hp = first_of ps"
  by (cases ps) (simp_all add: first_of_def)

lemma chain_distinct: "chain h hp ps \<Longrightarrow> distinct ps"
proof (induction ps arbitrary: hp)
  case (Cons p ps)
  have "p \<notin> set ps"
  proof
    assume "p \<in> set ps"
    then obtain us vs where "ps = us @ p # vs" by (auto dest: split_list)
    moreover obtain c where "h p = Some c" "chain h (Some p) (p # ps)" "chain h (cb_next c) ps"
      using Cons.prems by auto
    ultimately have "chain h (Some p) (p # us @ p # vs)" "chain h (Some p) (p # vs)"
      using chain_split[of h "cb_next c" us "p # vs"] by auto
    from chain_unique[OF this] show False by simp
  qed
  with Cons show ?case by auto
qed simp

lemma chain_upd_other [simp]: "p \<notin> set ps \<Longrightarrow> chain (h(p := y)) hp ps = chain h hp ps"
  by (induction ps arbitrary: hp) auto

lemma chain_in_dom: "chain h hp ps \<Longrightarrow> p \<in> set ps \<Longrightarrow> \<exists>c. h p = Some c"
  by (induction ps arbitrary: hp) auto

lemma deref_after: "chain h hp (rs @ qs) \<Longrightarrow> deref hp h (link_after rs) = Some (first_of qs)"
proof (induction rs arbitrary: hp)
  case Nil
  then show ?case by (simp add: link_after_def chain_first)
next
  case (Cons r rs)
  then obtain c where "h r = Some c" "chain h (cb_next c) (rs @ qs)" by auto
  with Cons.IH[of "cb_next c"] show ?case
    by (cases rs) (auto simp: link_after_def chain_first)
qed

lemma chain_replace_tail:
  assumes "chain h hp (rs @ qs)" "rs \<noteq> []" "chain h q qs'" "set rs \<inter> set qs' = {}" "h (last rs) = Some c"
  shows "chain (h(last rs \<mapsto> c\<lparr>cb_next := q\<rparr>)) hp (rs @ qs')"
  using assms
proof (induction rs arbitrary: hp)
  case (Cons r rs)
  show ?case
  proof (cases "rs = []")
    case True
    with Cons.prems show ?thesis by (simp add: fun_upd_same del: fun_upd_apply)
  next
    case False
    have "r \<noteq> last rs" using chain_distinct[OF Cons.prems(1)] False by auto
    with False Cons show ?thesis by auto
  qed
qed simp

lemma assign_after:
  assumes "cb_chain v n (rs @ qs)" "chain (callbacks v) q qs'" "set rs \<inter> set qs' = {}"
  shows "\<exists>v'. assign (link_after rs) q n v = Some v' \<and> cb_chain v' n (rs @ qs') \<and> relinked n v v'"
proof -
  obtain x where x: "subsystems v n = Some x" "chain (callbacks v) (vs_head x) (rs @ qs)"
    using assms(1) by (auto simp: cb_chain_def)
  show ?thesis
  proof (cases "rs = []")
    case True
    with x assms show ?thesis by (auto simp: link_after_def cb_chain_def relinked_def cb_static_def)
  next
    case False
    then obtain c where c: "callbacks v (last rs) = Some c" using chain_in_dom[OF x(2), of "last rs"] by auto
    moreover have "\<exists>y q. x = y\<lparr>vs_head := q\<rparr> \<and> y = x"
      by (rule exI[of _ x], rule exI[of _ "vs_head x"]) simp
    ultimately show ?thesis
      using False x chain_replace_tail[OF x(2) False assms(2,3) c]
      by (auto simp: link_after_def cb_chain_def relinked_def cb_static_def fun_upd_idem intro!: ext exI[of _ "vs_head x"])
  qed
qed

subsection \<open>Adding\<close>

text \<open>The reference: a new element goes behind all elements of its own or a higher priority.\<close>

definition insert_prio :: "('k \<Rightarrow> int) \<Rightarrow> 'k \<Rightarrow> 'k list \<Rightarrow> 'k list" where
  "insert_prio f x xs = takeWhile (\<lambda>y. f x \<le> f y) xs @ x # dropWhile (\<lambda>y. f x \<le> f y) xs"

definition descending :: "('k \<Rightarrow> int) \<Rightarrow> 'k list \<Rightarrow> bool" where
  "descending f xs \<longleftrightarrow> sorted_wrt (\<lambda>x y. f y \<le> f x) xs"

lemma insert_prio_Cons: "insert_prio f x (y # ys) = (if f x \<le> f y then y # insert_prio f x ys else x # y # ys)"
  by (simp add: insert_prio_def)

lemma insert_prio_mset: "mset (insert_prio f x xs) = add_mset x (mset xs)"
  by (induction xs) (simp_all add: insert_prio_Cons, simp add: insert_prio_def)

lemma insert_prio_set: "set (insert_prio f x xs) = insert x (set xs)"
  using arg_cong[OF insert_prio_mset, of set_mset] by simp

lemma insert_prio_descending: "descending f xs \<Longrightarrow> descending f (insert_prio f x xs)"
proof (induction xs)
  case Nil
  then show ?case by (simp add: insert_prio_def descending_def)
next
  case (Cons y ys)
  then show ?case by (fastforce simp: insert_prio_Cons descending_def insert_prio_set)
qed

lemma insert_prio_stable:
  "descending f xs \<Longrightarrow> filter (\<lambda>y. f y = k) (insert_prio f x xs) = filter (\<lambda>y. f y = k) xs @ (if f x = k then [x] else [])"
proof (induction xs)
  case Nil
  then show ?case by (simp add: insert_prio_def)
next
  case (Cons y ys)
  have "\<not> f x \<le> f y \<Longrightarrow> \<forall>z \<in> set (y # ys). f z < f x"
    using Cons.prems by (force simp: descending_def)
  then have "\<not> f x \<le> f y \<Longrightarrow> k = f x \<Longrightarrow> filter (\<lambda>y. f y = k) (y # ys) = []"
    by (auto simp: filter_empty_conv)
  with Cons show ?case by (auto simp: insert_prio_Cons descending_def)
qed

lemma add_position_chain:
  assumes "chain h hp (rs @ ps)" and "\<And>p. p \<in> set ps \<Longrightarrow> f p = cb_priority (the (h p))"
  shows "add_position hp h k (link_after rs) = Some (link_after (rs @ takeWhile (\<lambda>p. k \<le> f p) ps))"
  using assms
proof (induction ps arbitrary: rs)
  case Nil
  then show ?case using deref_after[OF Nil(1)] by (subst add_position.simps) (simp add: first_of_def)
next
  case (Cons p ps)
  obtain c where c: "h p = Some c" using chain_in_dom[OF Cons.prems(1), of p] by auto
  have f: "f p = cb_priority c" using Cons.prems(2)[of p] c by simp
  have d: "deref hp h (link_after rs) = Some (Some p)"
    using deref_after[OF Cons.prems(1)] by (simp add: first_of_def)
  have IH: "add_position hp h k (Next p) = Some (link_after (rs @ p # takeWhile (\<lambda>p. k \<le> f p) ps))"
    using Cons.IH[of "rs @ [p]"] Cons.prems by (simp add: link_after_def)
  show ?case
    using d c f IH by (subst add_position.simps) auto
qed

lemma vlink_add_callback_chain:
  assumes ch: "cb_chain v n ps" and c: "callbacks v cb = Some c" and new: "cb \<notin> set ps"
  shows "\<exists>v'. vlink_add_callback (Some n) (Some cb) v = Some (0, v') \<and>
     cb_chain v' n (insert_prio (prio v) cb ps) \<and> relinked n v v'"
proof -
  let ?rs = "takeWhile (\<lambda>p. prio v cb \<le> prio v p) ps"
  let ?qs = "dropWhile (\<lambda>p. prio v cb \<le> prio v p) ps"
  obtain x where x: "subsystems v n = Some x" "chain (callbacks v) (vs_head x) (?rs @ ?qs)"
    using ch by (auto simp: cb_chain_def)
  have pos: "add_position (vs_head x) (callbacks v) (cb_priority c) Head = Some (link_after ?rs)"
    using add_position_chain[of "callbacks v" "vs_head x" "[]" ps "prio v" "cb_priority c"] x(2) c
    by (simp add: prio_def link_after_def)
  define v1 where "v1 = v\<lparr>callbacks := (callbacks v)(cb \<mapsto> c\<lparr>cb_next := first_of ?qs\<rparr>)\<rparr>"
  have notin: "cb \<notin> set ?rs" "cb \<notin> set ?qs" using new by (auto dest: set_takeWhileD set_dropWhileD)
  obtain hp' where "chain (callbacks v) hp' ?qs" using chain_split[OF x(2)] by blast
  then have tl: "chain (callbacks v1) (Some cb) (cb # ?qs)"
    using notin chain_first[of "callbacks v" hp' ?qs] by (simp add: v1_def fun_upd_same del: fun_upd_apply)
  have ch1: "cb_chain v1 n (?rs @ ?qs)"
    using x notin by (simp add: v1_def cb_chain_def del: fun_upd_apply takeWhile_dropWhile_id)
  have dist: "set ?rs \<inter> set (cb # ?qs) = {}"
    using chain_distinct[OF x(2)] notin by (auto simp del: takeWhile_dropWhile_id)
  from assign_after[OF ch1 tl dist] obtain v' where v': "assign (link_after ?rs) (Some cb) n v1 = Some v'"
    "cb_chain v' n (?rs @ cb # ?qs)" "relinked n v1 v'" by blast
  have "relinked n v v'" using v'(3) c by (auto simp: relinked_def v1_def cb_static_def fun_eq_iff)
  with v' deref_after[OF x(2)] show ?thesis
    using x(1) c pos by (simp add: vlink_add_callback_def vlink_add_callback_locked_def v1_def insert_prio_def)
qed

subsection \<open>Removing\<close>

lemma rm_position_chain:
  assumes "chain h hp (rs @ ps)"
  shows "rm_position hp h cb (link_after rs) =
     Some (if cb \<in> set ps then Some (link_after (rs @ takeWhile (\<lambda>p. p \<noteq> cb) ps)) else None)"
  using assms
proof (induction ps arbitrary: rs)
  case Nil
  then show ?case using deref_after[OF Nil(1)] by (subst rm_position.simps) (simp add: first_of_def)
next
  case (Cons p ps)
  have d: "deref hp h (link_after rs) = Some (Some p)"
    using deref_after[OF Cons.prems(1)] by (simp add: first_of_def)
  have "rm_position hp h cb (Next p) =
      Some (if cb \<in> set ps then Some (link_after (rs @ p # takeWhile (\<lambda>p. p \<noteq> cb) ps)) else None)"
    using Cons.IH[of "rs @ [p]"] Cons.prems by (simp add: link_after_def)
  then show ?case using d by (subst rm_position.simps) auto
qed

lemma relinked_refl: "subsystems v n = Some x \<Longrightarrow> relinked n v v"
  by (auto simp: relinked_def fun_upd_idem intro!: exI[of _ "vs_head x"])

lemma vlink_rm_callback_chain:
  assumes ch: "cb_chain v n ps"
  shows "\<exists>v'. vlink_rm_callback (Some n) (Some cb) v = Some (if cb \<in> set ps then 0 else - ENOENT, v') \<and>
     cb_chain v' n (remove1 cb ps) \<and> relinked n v v' \<and> (cb \<notin> set ps \<longrightarrow> v' = v)"
proof -
  obtain x where x: "subsystems v n = Some x" "chain (callbacks v) (vs_head x) ps"
    using ch by (auto simp: cb_chain_def)
  have pos: "rm_position (vs_head x) (callbacks v) cb Head =
      Some (if cb \<in> set ps then Some (link_after (takeWhile (\<lambda>p. p \<noteq> cb) ps)) else None)"
    using rm_position_chain[of "callbacks v" "vs_head x" "[]" ps cb] x(2) by (simp add: link_after_def[of "[]"])
  show ?thesis
  proof (cases "cb \<in> set ps")
    case True
    then obtain us vs where ps: "ps = us @ cb # vs" "cb \<notin> set us" by (metis split_list_first)
    then have tw: "takeWhile (\<lambda>p. p \<noteq> cb) ps = us" by (auto simp: takeWhile_tail)
    obtain c where c: "callbacks v cb = Some c" "chain (callbacks v) (cb_next c) vs"
      using chain_split[of "callbacks v" "vs_head x" us "cb # vs"] x(2) ps by auto
    have "set us \<inter> set vs = {}" using chain_distinct[OF x(2)] ps by auto
    from assign_after[of v n us "cb # vs", OF _ c(2) this] ch ps obtain v' where
      "assign (link_after us) (cb_next c) n v = Some v'" "cb_chain v' n (us @ vs)" "relinked n v v'" by auto
    then show ?thesis
      using x(1) pos[unfolded tw] True c ps(2)
      by (simp add: vlink_rm_callback_def vlink_rm_callback_locked_def ps(1) remove1_append)
  next
    case False
    with x pos ch relinked_refl[OF x(1)] show ?thesis
      by (simp add: vlink_rm_callback_def vlink_rm_callback_locked_def remove1_idem)
  qed
qed

lemma relinked_trans: "relinked n v v' \<Longrightarrow> relinked n v' v'' \<Longrightarrow> relinked n v v''"
  by (fastforce simp: relinked_def)

lemma rm_all_callbacks_chain:
  "cb_chain v n ps \<Longrightarrow> \<exists>v'. rm_all_callbacks n v = Some v' \<and> cb_chain v' n [] \<and> relinked n v v'"
proof (induction ps arbitrary: v)
  case Nil
  then obtain x where "subsystems v n = Some x" "vs_head x = None" by (auto simp: cb_chain_def)
  with Nil relinked_refl show ?case by (subst rm_all_callbacks.simps) auto
next
  case (Cons p ps)
  obtain x where x: "subsystems v n = Some x" "vs_head x = Some p" using Cons.prems by (auto simp: cb_chain_def)
  obtain v' where v': "vlink_rm_callback (Some n) (Some p) v = Some (0, v')" "cb_chain v' n ps" "relinked n v v'"
    using vlink_rm_callback_chain[OF Cons.prems, of p] by auto
  with Cons.IH[OF v'(2)] relinked_trans[OF v'(3)] show ?case
    using x by (subst rm_all_callbacks.simps) auto
qed

section \<open>Consulting the callbacks\<close>

text \<open>The reference for \<open>__vlink_invoke\<close>: the functions in order, up to the first that ends
  the walk.\<close>

fun consult :: "('r, 'e) vlink_rx \<Rightarrow> vlinknlmsg \<Rightarrow> 'r list \<Rightarrow> int \<Rightarrow> 'e \<Rightarrow> (int \<times> bool \<times> 'e) option" where
  "consult rx vmsg [] ret e = Some (ret, False, e)"
| "consult rx vmsg (f # fs) ret e = do {
     (ret, e) \<leftarrow> rx f vmsg e;
     (if rx_emerg ret \<or> rx_stop ret then Some (ret, True, e) else consult rx vmsg fs ret e)
   }"

lemma invoke_from_chain:
  "chain (callbacks v) hp ps \<Longrightarrow>
   invoke_from rx owner vmsg hp ret (v, e) =
     map_option (\<lambda>(ret, stopped, e). (ret, if stopped then invoke_stop owner (vm_cmd vmsg) ret v else v, e))
       (consult rx vmsg (map (\<lambda>p. cb_rx (the (callbacks v p))) ps) ret e)"
proof (induction ps arbitrary: hp ret e)
  case Nil
  then show ?case by (subst invoke_from.simps) simp
next
  case (Cons p ps)
  then obtain c where c: "hp = Some p" "callbacks v p = Some c" "chain (callbacks v) (cb_next c) ps" by auto
  show ?case
    using c Cons.IH[OF c(3)]
    by (subst invoke_from.simps) (cases "rx (cb_rx c) vmsg e", auto)
qed

definition vlink_example :: "nat vlink_system" where
  "vlink_example =
     \<lparr>vlink_subsystem_table = Some (replicate MAX_VLINK_SUBSYSTEMS None),
      subsystems = [1 \<mapsto> \<lparr>vs_name = lit ''eth'', vs_type = 17, vs_id = 0, vs_owner = FB_ETH, vs_head = Some 10\<rparr>],
      callbacks = [10 \<mapsto> \<lparr>cb_priority = NETLINK_VLINK_PRIO_NORM, cb_rx = 0, cb_next = None\<rparr>,
                   11 \<mapsto> \<lparr>cb_priority = NETLINK_VLINK_PRIO_HIGH, cb_rx = 1, cb_next = None\<rparr>],
      vlink_modrefs = (\<lambda>_. 0), vlink_sock = True, vlink_proc = True\<rparr>"

lemma vlink_example_simps:
  "cb_chain vlink_example 1 [10]" "callbacks vlink_example 11 \<noteq> None"
  "prio vlink_example 10 = 1" "prio vlink_example 11 = 2"
  by (simp_all add: vlink_example_def cb_chain_def prio_def)

text \<open>C3: Callbacks are kept by priority. Adding a callback that is not in the list of a subsystem yet
  succeeds, and the new list has the old callbacks and the new one; if the old list was ordered by
  descending priority so is the new one, and among the callbacks of one priority the order is that of
  their registration. Priorities, functions, other subsystems and the table stay as they were.\<close>
theorem add_callback_by_priority:
  assumes "cb_chain v n ps" "callbacks v cb \<noteq> None" "cb \<notin> set ps" "descending (prio v) ps"
  shows "\<exists>v' ps'. vlink_add_callback (Some n) (Some cb) v = Some (0, v') \<and> cb_chain v' n ps' \<and>
     mset ps' = add_mset cb (mset ps) \<and> descending (prio v') ps' \<and>
     (\<forall>k. filter (\<lambda>p. prio v' p = k) ps' = filter (\<lambda>p. prio v p = k) ps @ (if prio v cb = k then [cb] else [])) \<and>
     relinked n v v'"
proof -
  obtain c where c: "callbacks v cb = Some c" using assms(2) by blast
  obtain v' where v': "vlink_add_callback (Some n) (Some cb) v = Some (0, v')"
    "cb_chain v' n (insert_prio (prio v) cb ps)" "relinked n v v'"
    using vlink_add_callback_chain[OF assms(1) c assms(3)] by blast
  have same: "prio v' p = prio v p" if "p \<in> set (insert_prio (prio v) cb ps)" for p
  proof -
    obtain hp where "chain (callbacks v') hp (insert_prio (prio v) cb ps)"
      using v'(2) by (auto simp: cb_chain_def)
    with that obtain d where d: "callbacks v' p = Some d" by (auto dest: chain_in_dom)
    have "cb_static v' p = cb_static v p" using v'(3) by (simp add: relinked_def)
    with d show ?thesis by (cases "callbacks v p") (simp_all add: cb_static_def prio_def)
  qed
  have f: "filter (\<lambda>p. prio v' p = k) (insert_prio (prio v) cb ps) =
      filter (\<lambda>p. prio v p = k) (insert_prio (prio v) cb ps)" for k
    using same by (auto intro!: filter_cong)
  have "descending (prio v') (insert_prio (prio v) cb ps)"
    using insert_prio_descending[OF assms(4), of cb] same unfolding descending_def
    by (auto intro: sorted_wrt_mono_rel[of "insert_prio (prio v) cb ps" "\<lambda>x y. prio v y \<le> prio v x"])
  with v' show ?thesis
    by (intro exI[of _ v'] exI[of _ "insert_prio (prio v) cb ps"])
      (simp add: f insert_prio_mset insert_prio_stable[OF assms(4)])
qed

theorem add_callback_by_priority_witness:
  "\<exists>v' ps'. vlink_add_callback (Some 1) (Some 11) vlink_example = Some (0, v') \<and> cb_chain v' 1 ps' \<and>
     mset ps' = {#10, 11#} \<and> descending (prio v') ps' \<and> filter (\<lambda>p. prio v' p = 2) ps' = [11]"
proof -
  obtain v' ps' where v': "vlink_add_callback (Some 1) (Some 11) vlink_example = Some (0, v')" "cb_chain v' 1 ps'"
    "mset ps' = add_mset 11 (mset [10])" "descending (prio v') ps'"
    "\<forall>k. filter (\<lambda>p. prio v' p = k) ps' =
       filter (\<lambda>p. prio vlink_example p = k) [10] @ (if prio vlink_example 11 = k then [11] else [])"
    using add_callback_by_priority[OF vlink_example_simps(1,2)] by (auto simp: descending_def)
  from spec[OF v'(5), of 2] have "filter (\<lambda>p. prio v' p = 2) ps' = [11]" by (simp add: vlink_example_simps)
  with v'(1-4) show ?thesis by (intro exI[of _ v'] exI[of _ ps']) (simp add: add_mset_commute)
qed

text \<open>C32: Removing a callback. \<open>vlink_rm_callback\<close> takes exactly the given callback out of the
  list and returns 0, or returns \<open>-ENOENT\<close> and changes nothing if it is not in the list; in
  particular removing a callback that was just added gives the old list back.\<close>
theorem rm_callback_removes:
  assumes "cb_chain v n ps"
  shows "\<exists>v'. vlink_rm_callback (Some n) (Some cb) v = Some (if cb \<in> set ps then 0 else - ENOENT, v') \<and>
     cb_chain v' n (remove1 cb ps) \<and> relinked n v v' \<and> (cb \<notin> set ps \<longrightarrow> v' = v) \<and>
     (cb \<notin> set ps \<and> callbacks v cb \<noteq> None \<longrightarrow>
        (\<exists>w w'. vlink_add_callback (Some n) (Some cb) v = Some (0, w) \<and>
                vlink_rm_callback (Some n) (Some cb) w = Some (0, w') \<and> cb_chain w' n ps))"
proof -
  have "\<exists>w w'. vlink_add_callback (Some n) (Some cb) v = Some (0, w) \<and>
      vlink_rm_callback (Some n) (Some cb) w = Some (0, w') \<and> cb_chain w' n ps"
    if new: "cb \<notin> set ps" "callbacks v cb \<noteq> None"
  proof -
    obtain w where w: "vlink_add_callback (Some n) (Some cb) v = Some (0, w)" "cb_chain w n (insert_prio (prio v) cb ps)"
      using vlink_add_callback_chain[OF assms] new by blast
    have "remove1 cb (insert_prio (prio v) cb ps) = ps"
      using new(1) by (auto simp: insert_prio_def remove1_append dest: set_takeWhileD)
    with vlink_rm_callback_chain[OF w(2), of cb] w(1) show ?thesis by (auto simp: insert_prio_set)
  qed
  with vlink_rm_callback_chain[OF assms, of cb] show ?thesis by blast
qed

theorem rm_callback_removes_witness:
  "\<exists>v' w w'. vlink_rm_callback (Some 1) (Some 11) vlink_example = Some (- ENOENT, v') \<and>
     vlink_add_callback (Some 1) (Some 11) vlink_example = Some (0, w) \<and>
     vlink_rm_callback (Some 1) (Some 11) w = Some (0, w') \<and> cb_chain w' 1 [10]"
  using rm_callback_removes[OF vlink_example_simps(1), of 11] vlink_example_simps(2) by auto



section \<open>The subsystems\<close>

text \<open>Every entry of the table is a subsystem that knows its slot, and no type occurs twice.\<close>

definition table_ok :: "(ptr \<rightharpoonup> vlink_subsys) \<Rightarrow> ptr option list \<Rightarrow> bool" where
  "table_ok subs tab \<longleftrightarrow> length tab = MAX_VLINK_SUBSYSTEMS \<and>
     (\<forall>i n. i < length tab \<longrightarrow> tab ! i = Some n \<longrightarrow> (\<exists>x. subs n = Some x \<and> unat (vs_id x) = i)) \<and>
     (\<forall>n m x y. Some n \<in> set tab \<longrightarrow> Some m \<in> set tab \<longrightarrow> subs n = Some x \<longrightarrow> subs m = Some y \<longrightarrow>
        vs_type x = vs_type y \<longrightarrow> n = m)"

definition vlink_inv :: "'r vlink_system \<Rightarrow> bool" where
  "vlink_inv v \<longleftrightarrow> (\<exists>tab. vlink_subsystem_table v = Some tab \<and> table_ok (subsystems v) tab)"

definition known :: "(ptr \<rightharpoonup> vlink_subsys) \<Rightarrow> ptr option list \<Rightarrow> bool" where
  "known subs tab \<longleftrightarrow> (\<forall>n. Some n \<in> set tab \<longrightarrow> subs n \<noteq> None)"

definition taken :: "(ptr \<rightharpoonup> vlink_subsys) \<Rightarrow> u16 \<Rightarrow> ptr option list \<Rightarrow> bool" where
  "taken subs ty tab \<longleftrightarrow> (\<exists>n x. Some n \<in> set tab \<and> subs n = Some x \<and> vs_type x = ty)"

lemma known_taken_simps [simp]:
  "known subs []" "known subs (None # es) = known subs es"
  "known subs (Some n # es) \<longleftrightarrow> subs n \<noteq> None \<and> known subs es"
  "\<not> taken subs ty []" "taken subs ty (None # es) = taken subs ty es"
  "subs n = Some x \<Longrightarrow> taken subs ty (Some n # es) \<longleftrightarrow> vs_type x = ty \<or> taken subs ty es"
  by (auto simp: known_def taken_def)

lemma table_ok_known: "table_ok subs tab \<Longrightarrow> known subs tab"
  by (fastforce simp: table_ok_def known_def in_set_conv_nth)

text \<open>The first free slot.\<close>

definition free_slot :: "ptr option list \<Rightarrow> nat option" where
  "free_slot tab = (if None \<in> set tab then Some (length (takeWhile (\<lambda>e. e \<noteq> None) tab)) else None)"

lemma free_slotD: "free_slot tab = Some i \<Longrightarrow> i < length tab \<and> tab ! i = None"
proof (induction tab arbitrary: i)
  case (Cons e es)
  show ?case
  proof (cases e)
    case (Some n)
    with Cons.prems obtain k where "free_slot es = Some k" "i = Suc k" by (auto simp: free_slot_def split: if_splits)
    with Cons.IH show ?thesis by simp
  qed (use Cons.prems in \<open>auto simp: free_slot_def\<close>)
qed (simp add: free_slot_def)

lemma register_scan_spec:
  "known subs tab \<Longrightarrow> register_scan subs ty i slot tab =
     Some (if taken subs ty tab then Inl (- EBUSY)
           else Inr (case slot of Some k \<Rightarrow> Some k | None \<Rightarrow> map_option ((+) i) (free_slot tab)))"
proof (induction subs ty i slot tab rule: register_scan.induct)
  case (1 subs ty i slot)
  then show ?case by (simp add: free_slot_def split: option.splits)
next
  case (2 subs ty i slot es)
  then show ?case by (simp add: free_slot_def split: option.splits)
next
  case (3 subs ty i slot vs es)
  then show ?case by (auto simp: free_slot_def split: option.splits)
qed

lemma find_scan_spec:
  "known subs tab \<Longrightarrow> \<exists>r. find_scan subs ty tab = Some r \<and> (r = None \<longleftrightarrow> \<not> taken subs ty tab) \<and>
     (\<forall>n. r = Some n \<longrightarrow> Some n \<in> set tab \<and> (\<exists>x. subs n = Some x \<and> vs_type x = ty))"
  by (induction subs ty tab rule: find_scan.induct) auto

lemma find_scan_unique:
  assumes "table_ok subs tab" "Some n \<in> set tab" "subs n = Some x"
  shows "find_scan subs (vs_type x) tab = Some (Some n)"
proof -
  obtain r where r: "find_scan subs (vs_type x) tab = Some r" "r = None \<longleftrightarrow> \<not> taken subs (vs_type x) tab"
    "\<forall>m. r = Some m \<longrightarrow> Some m \<in> set tab \<and> (\<exists>y. subs m = Some y \<and> vs_type y = vs_type x)"
    using find_scan_spec[OF table_ok_known[OF assms(1)]] by blast
  moreover have "taken subs (vs_type x) tab" using assms(2,3) by (auto simp: taken_def)
  ultimately obtain m y where "r = Some m" "Some m \<in> set tab" "subs m = Some y" "vs_type y = vs_type x" by blast
  with assms r(1) show ?thesis unfolding table_ok_def by metis
qed

lemma unregister_scan_spec:
  "unregister_scan n ident i tab =
     (if i \<le> ident \<and> ident < i + length tab \<and> tab ! (ident - i) = Some n then Some ident else None)"
proof (induction n ident i tab rule: unregister_scan.induct)
  case (2 n ident i e es)
  show ?case
  proof (cases "i < ident")
    case True
    then have "ident - i = Suc (ident - Suc i)" by simp
    with True 2 show ?thesis by simp
  next
    case False
    with 2 show ?thesis by (cases "ident = i") auto
  qed
qed simp

lemma find_scan_other [simp]: "Some n \<notin> set tab \<Longrightarrow> find_scan (subs(n := y)) ty tab = find_scan subs ty tab"
proof (induction tab)
  case (Cons e es)
  then show ?case by (cases e) (auto cong: if_cong)
qed simp

lemma find_scan_insert:
  assumes "i < length tab" "tab ! i = None" "Some n \<notin> set tab" "vs_type y \<noteq> ty"
  shows "find_scan (subs(n \<mapsto> y)) ty (tab[i := Some n]) = find_scan subs ty tab"
  using assms
proof (induction tab arbitrary: i)
  case (Cons e es)
  show ?case
  proof (cases i)
    case 0
    with Cons.prems show ?thesis by (simp del: fun_upd_apply add: fun_upd_same)
  next
    case (Suc k)
    with Cons show ?thesis by (cases e) (auto cong: if_cong)
  qed
qed simp

lemma table_ok_insert:
  assumes "table_ok subs tab" "subs n = Some x" "\<not> taken subs (vs_type x) tab" "i < length tab" "tab ! i = None"
  shows "table_ok (subs(n \<mapsto> x\<lparr>vs_id := of_nat i\<rparr>)) (tab[i := Some n])"
proof -
  have new: "Some n \<notin> set tab" using assms(2,3) by (auto simp: taken_def)
  have "unat (of_nat i :: u16) = i"
    using assms(1,4) by (simp add: table_ok_def MAX_VLINK_SUBSYSTEMS_def unsigned_of_nat take_bit_eq_mod)
  moreover have "tab ! j \<noteq> Some n" if "j < length tab" for j using new that by (metis nth_mem)
  ultimately have "\<forall>j m. j < length tab \<longrightarrow> tab[i := Some n] ! j = Some m \<longrightarrow>
      (\<exists>y. (subs(n \<mapsto> x\<lparr>vs_id := of_nat i\<rparr>)) m = Some y \<and> unat (vs_id y) = j)"
    using assms(1,4) by (auto simp: table_ok_def nth_list_update split: if_splits)
  moreover have set: "Some m \<in> set (tab[i := Some n]) \<Longrightarrow> m \<noteq> n \<Longrightarrow> Some m \<in> set tab" for m
    using set_update_subset_insert[of tab i "Some n"] by auto
  ultimately show ?thesis
    using assms(1,3) unfolding table_ok_def taken_def length_list_update by (auto 0 3 dest!: set split: if_splits)
qed

lemma vlink_find_total:
  "vlink_inv v \<Longrightarrow> \<exists>tab. vlink_subsystem_table v = Some tab \<and> table_ok (subsystems v) tab \<and>
     (vlink_subsys_find ty v = Some None \<longleftrightarrow> \<not> taken (subsystems v) ty tab)"
  using find_scan_spec[OF table_ok_known] by (fastforce simp: vlink_inv_def vlink_subsys_find_def)

lemma vlink_register_ok:
  assumes tab: "vlink_subsystem_table v = Some tab" "table_ok (subsystems v) tab" and n: "subsystems v n = Some x"
    and "\<not> taken (subsystems v) (vs_type x) tab" "free_slot tab = Some i"
  shows "\<exists>v'. vlink_subsys_register (Some n) v = Some (0, v') \<and> vlink_inv v' \<and>
     vlink_subsys_find (vs_type x) v' = Some (Some n) \<and>
     (\<forall>ty. ty \<noteq> vs_type x \<longrightarrow> vlink_subsys_find ty v' = vlink_subsys_find ty v) \<and>
     vlink_subsys_unregister (Some n) v' = Some (v\<lparr>subsystems := (subsystems v)(n \<mapsto> x\<lparr>vs_id := 0\<rparr>)\<rparr>)"
proof -
  have i: "i < length tab" "tab ! i = None" using free_slotD assms(5) by auto
  have new: "Some n \<notin> set tab" using assms(4) n by (auto simp: taken_def)
  define v' where "v' = vlink_module_get LANA_CORE
      (v\<lparr>subsystems := (subsystems v)(n \<mapsto> x\<lparr>vs_id := of_nat i\<rparr>), vlink_subsystem_table := Some (tab[i := Some n])\<rparr>)"
  have v': "vlink_subsystem_table v' = Some (tab[i := Some n])"
    "subsystems v' = (subsystems v)(n \<mapsto> x\<lparr>vs_id := of_nat i\<rparr>)"
    by (simp_all add: v'_def vlink_module_get_def)
  have r: "vlink_subsys_register (Some n) v = Some (0, v')"
    using register_scan_spec[OF table_ok_known[OF tab(2)], of "vs_type x" 0 None] assms
    by (simp add: vlink_subsys_register_def v'_def)
  have ok: "table_ok (subsystems v') (tab[i := Some n])"
    unfolding v' using table_ok_insert[OF tab(2) n assms(4) i] .
  have mem: "Some n \<in> set (tab[i := Some n])" using i(1) by (rule set_update_memI)
  have f: "vlink_subsys_find (vs_type x) v' = Some (Some n)"
    using find_scan_unique[OF ok mem] by (simp add: v' vlink_subsys_find_def)
  have g: "vlink_subsys_find ty v' = vlink_subsys_find ty v" if "ty \<noteq> vs_type x" for ty
    using find_scan_insert[OF i new, of "x\<lparr>vs_id := of_nat i\<rparr>" ty] that tab(1)
    by (simp add: v' vlink_subsys_find_def del: fun_upd_apply)
  have "unat (of_nat i :: u16) = i"
    using i(1) tab(2) by (simp add: table_ok_def MAX_VLINK_SUBSYSTEMS_def unsigned_of_nat take_bit_eq_mod)
  then have "vlink_subsys_unregister (Some n) v' = Some (v\<lparr>subsystems := (subsystems v)(n \<mapsto> x\<lparr>vs_id := 0\<rparr>)\<rparr>)"
    using i tab(1) list_update_id[of tab i]
    by (cases v) (simp add: vlink_subsys_unregister_def v' unregister_scan_spec vlink_module_put_def, simp add: v'_def vlink_module_get_def)
  with r ok f g show ?thesis by (auto simp: vlink_inv_def v'(1))
qed

text \<open>C9: Registering a link type. Registration never loses the invariant of the table. It fails with
  \<open>-EBUSY\<close> exactly if the type is already registered, and with \<open>-ENOMEM\<close> only if all 256
  slots are taken, both without any change. When it succeeds, the type leads to the new subsystem,
  every other type leads where it led before, and \<open>vlink_subsys_unregister\<close> undoes it
  completely (up to the \<open>id\<close> of the subsystem, which is reset to 0).\<close>
theorem subsys_register_spec:
  assumes "vlink_inv v" "subsystems v n = Some x"
  shows "\<exists>ret v'. vlink_subsys_register (Some n) v = Some (ret, v') \<and> vlink_inv v' \<and>
     (ret = - EBUSY \<longleftrightarrow> vlink_subsys_find (vs_type x) v \<noteq> Some None) \<and>
     (if ret = 0 then
        vlink_subsys_find (vs_type x) v' = Some (Some n) \<and>
        (\<forall>ty. ty \<noteq> vs_type x \<longrightarrow> vlink_subsys_find ty v' = vlink_subsys_find ty v) \<and>
        vlink_subsys_unregister (Some n) v' = Some (v\<lparr>subsystems := (subsystems v)(n \<mapsto> x\<lparr>vs_id := 0\<rparr>)\<rparr>)
      else v' = v \<and> (ret = - EBUSY \<or> ret = - ENOMEM \<and> None \<notin> set (the (vlink_subsystem_table v))))"
proof -
  obtain tab where tab: "vlink_subsystem_table v = Some tab" "table_ok (subsystems v) tab"
    "vlink_subsys_find (vs_type x) v = Some None \<longleftrightarrow> \<not> taken (subsystems v) (vs_type x) tab"
    using vlink_find_total[OF assms(1)] by blast
  note scan = register_scan_spec[OF table_ok_known[OF tab(2)], of "vs_type x" 0 None]
  consider "taken (subsystems v) (vs_type x) tab" | "\<not> taken (subsystems v) (vs_type x) tab" "free_slot tab = None"
    | i where "\<not> taken (subsystems v) (vs_type x) tab" "free_slot tab = Some i" by fastforce
  then show ?thesis
  proof cases
    case 1
    then show ?thesis using assms tab scan by (simp add: vlink_subsys_register_def)
  next
    case 2
    then have "None \<notin> set tab" by (auto simp: free_slot_def split: if_splits)
    with 2 show ?thesis using assms tab scan by (simp add: vlink_subsys_register_def)
  next
    case (3 i)
    from vlink_register_ok[OF tab(1,2) assms(2) 3] show ?thesis using tab(3) 3(1) by auto
  qed
qed

lemma vlink_example_inv: "vlink_inv vlink_example"
  by (simp add: vlink_inv_def vlink_example_def table_ok_def)

theorem subsys_register_spec_witness:
  "\<exists>v'. vlink_subsys_register (Some 1) vlink_example = Some (0, v') \<and> vlink_inv v' \<and>
     vlink_subsys_find 17 v' = Some (Some 1)"
proof -
  have x: "subsystems vlink_example 1 =
      Some \<lparr>vs_name = lit ''eth'', vs_type = 17, vs_id = 0, vs_owner = FB_ETH, vs_head = Some 10\<rparr>"
    by (simp add: vlink_example_def)
  have "find_scan subs ty (replicate k None) = Some None" for subs ty k by (induction k) simp_all
  then have "vlink_subsys_find 17 vlink_example = Some None" "None \<in> set (the (vlink_subsystem_table vlink_example))"
    by (simp_all add: vlink_example_def vlink_subsys_find_def MAX_VLINK_SUBSYSTEMS_def)
  with subsys_register_spec[OF vlink_example_inv x] show ?thesis by (auto split: if_splits)
qed

lemma vlink_unregister_inv:
  assumes "vlink_inv v" "subsystems v n = Some x"
  shows "\<exists>v'. vlink_subsys_unregister (Some n) v = Some v' \<and> vlink_inv v' \<and> callbacks v' = callbacks v \<and>
     Some n \<notin> set (the (vlink_subsystem_table v')) \<and>
     (\<exists>k. subsystems v' = (subsystems v)(n \<mapsto> x\<lparr>vs_id := k\<rparr>))"
proof -
  obtain tab where tab: "vlink_subsystem_table v = Some tab" "table_ok (subsystems v) tab"
    using assms(1) by (auto simp: vlink_inv_def)
  let ?i = "unat (vs_id x)"
  have at: "j = ?i" if "j < length tab" "tab ! j = Some n" for j
    using tab(2) that assms(2) by (force simp: table_ok_def)
  show ?thesis
  proof (cases "?i < length tab \<and> tab ! ?i = Some n")
    case True
    have notin: "Some n \<notin> set (tab[?i := None])"
      using at True by (auto simp: in_set_conv_nth nth_list_update split: if_splits)
    have sub: "Some m \<in> set (tab[?i := None]) \<Longrightarrow> m \<noteq> n \<and> Some m \<in> set tab" for m
      using notin set_update_subset_insert[of tab ?i None] by auto
    have "table_ok ((subsystems v)(n \<mapsto> x\<lparr>vs_id := 0\<rparr>)) (tab[?i := None])"
      using tab(2) at True unfolding table_ok_def length_list_update
      by (auto 0 3 simp: nth_list_update split: if_splits dest!: sub)
    with True notin show ?thesis using tab assms(2)
      by (auto simp: vlink_subsys_unregister_def unregister_scan_spec vlink_module_put_def vlink_inv_def)
  next
    case False
    have "Some n \<notin> set tab" using at False by (auto simp: in_set_conv_nth)
    moreover have "\<exists>k. subsystems v = (subsystems v)(n \<mapsto> x\<lparr>vs_id := k\<rparr>)"
      using assms(2) by (intro exI[of _ "vs_id x"]) (simp add: fun_upd_idem)
    ultimately show ?thesis using False tab assms by (auto simp: vlink_subsys_unregister_def unregister_scan_spec)
  qed
qed

text \<open>C34: Unloading a link type. \<open>vlink_subsys_unregister_batch\<close> on a subsystem with a proper
  list of callbacks ends: it takes the subsystem out of the table, empties its list, and keeps the
  invariant of the table; afterwards no message reaches the subsystem.\<close>
theorem unregister_batch_ends:
  assumes "vlink_inv v" "cb_chain v n ps"
  shows "\<exists>v'. vlink_subsys_unregister_batch (Some n) v = Some v' \<and> vlink_inv v' \<and> cb_chain v' n [] \<and>
     (\<forall>ty. vlink_subsys_find ty v' \<noteq> Some (Some n)) \<and> cb_static v' = cb_static v"
proof -
  obtain x where x: "subsystems v n = Some x" "chain (callbacks v) (vs_head x) ps"
    using assms(2) by (auto simp: cb_chain_def)
  obtain w k where w: "vlink_subsys_unregister (Some n) v = Some w" "vlink_inv w" "callbacks w = callbacks v"
    "Some n \<notin> set (the (vlink_subsystem_table w))" "subsystems w = (subsystems v)(n \<mapsto> x\<lparr>vs_id := k\<rparr>)"
    using vlink_unregister_inv[OF assms(1) x(1)] by blast
  have "cb_chain w n ps" using x(2) by (simp add: cb_chain_def w)
  then obtain v' where v': "rm_all_callbacks n w = Some v'" "cb_chain v' n []" "relinked n w v'"
    using rm_all_callbacks_chain by blast
  obtain y q where s: "subsystems w n = Some y" "subsystems v' = (subsystems w)(n \<mapsto> y\<lparr>vs_head := q\<rparr>)"
    "vlink_subsystem_table v' = vlink_subsystem_table w" using v'(3) by (auto simp: relinked_def)
  obtain tab where tab: "vlink_subsystem_table w = Some tab" "table_ok (subsystems w) tab"
    using w(2) by (auto simp: vlink_inv_def)
  with w(4) have notin: "tab ! i \<noteq> Some n" if "i < length tab" for i using that by (auto dest!: nth_mem)
  have ok: "table_ok (subsystems v') tab"
    using tab(2) notin w(4) tab(1) unfolding table_ok_def s(2) by (auto 0 3 split: if_splits)
  have "vlink_subsys_find ty v' \<noteq> Some (Some n)" for ty
    using find_scan_spec[OF table_ok_known[OF ok], of ty] tab(1) s(3) w(4) by (auto simp: vlink_subsys_find_def)
  moreover have "cb_static v' = cb_static v" using v'(3) w(3) by (simp add: relinked_def cb_static_def)
  ultimately show ?thesis
    using w(1) v' ok tab(1) s(3) by (auto simp: vlink_subsys_unregister_batch_def vlink_inv_def)
qed

theorem unregister_batch_ends_witness:
  "\<exists>v'. vlink_subsys_unregister_batch (Some 1) vlink_example = Some v' \<and> vlink_inv v' \<and> cb_chain v' 1 []"
  using unregister_batch_ends[OF vlink_example_inv vlink_example_simps(1)] by blast

end
