(* ===== verification/Fb_Eth.thy ===== *)
theory Fb_Eth
  imports Fb_Common Xt_Vlink
begin

text \<open>The block at the edge of the stack: \<open>src/src/fb_eth.c\<close>. The tool \<open>vlink\<close> hooks it
  to a network device; from then on the frames of that device enter the engine through
  \<open>fb_eth_handle_frame\<close>, and packets that reach the block leave through the device.

  The devices of the kernel are a list, and a device is known by its index in it. A frame arrives
  in a buffer that nobody else holds, so \<open>skb_share_check\<close> returns the buffer itself. The
  references to the module of the block are counted in two places: those the block takes in the
  state of the registry, those of the link layer in the state of the link layer.\<close>

section \<open>Devices\<close>

definition IFF_VLINK_MAS :: u32 where
  "IFF_VLINK_MAS = 0x20000"

definition IFF_VLINK_DEV :: u32 where
  "IFF_VLINK_DEV = 0x40000"

definition IFF_IS_BRIDGED :: u32 where
  "IFF_IS_BRIDGED = 0x60000"

text \<open>\<open>fb_eth_devs\<close> is the list of the nodes, each with its block and its device.\<close>

record eth_state =
  ekern :: "fb_priv kern"
  netdevs :: "net_device list"
  fb_eth_devs :: "(ptr \<times> nat) list"

definition upd_dev :: "nat \<Rightarrow> (net_device \<Rightarrow> net_device) \<Rightarrow> eth_state \<Rightarrow> eth_state" where
  "upd_dev d f e = e\<lparr>netdevs := (netdevs e)[d := f (netdevs e ! d)]\<rparr>"

definition on_tabs :: "eth_state \<Rightarrow> fb_priv lana \<Rightarrow> eth_state" where
  "on_tabs e t = e\<lparr>ekern := (ekern e)\<lparr>tabs := t\<rparr>\<rparr>"

definition fb_eth_dev_is_bridged :: "net_device \<Rightarrow> bool" where
  "fb_eth_dev_is_bridged dev \<longleftrightarrow> priv_flags dev AND IFF_IS_BRIDGED = IFF_IS_BRIDGED"

definition fb_ethvlink_real_dev_is_hooked :: "net_device \<Rightarrow> bool" where
  "fb_ethvlink_real_dev_is_hooked dev \<longleftrightarrow> priv_flags dev AND IFF_VLINK_MAS = IFF_VLINK_MAS"

definition fb_eth_make_dev_bridged :: "net_device \<Rightarrow> net_device" where
  "fb_eth_make_dev_bridged dev = dev\<lparr>priv_flags := priv_flags dev OR IFF_IS_BRIDGED\<rparr>"

definition fb_eth_make_dev_unbridged :: "net_device \<Rightarrow> net_device" where
  "fb_eth_make_dev_unbridged dev = dev\<lparr>priv_flags := priv_flags dev AND NOT IFF_IS_BRIDGED\<rparr>"

text \<open>The kernel compares at most 16 bytes of a device name, up to its end.\<close>

definition dev_index :: "u8 list \<Rightarrow> cstr list \<Rightarrow> nat option" where
  "dev_index name names =
     List.find (\<lambda>d. names ! d = takeWhile (\<lambda>c. c \<noteq> 0) (take 16 name)) [0..<length names]"

definition dev_get_by_name :: "u8 list \<Rightarrow> eth_state \<Rightarrow> nat option \<times> eth_state" where
  "dev_get_by_name name e =
     (case dev_index name (map nd_name (netdevs e)) of
        None \<Rightarrow> (None, e)
      | Some d \<Rightarrow> (Some d, upd_dev d (\<lambda>dev. dev\<lparr>nd_refs := nd_refs dev + 1\<rparr>) e))"

definition dev_put :: "nat \<Rightarrow> eth_state \<Rightarrow> eth_state" where
  "dev_put d e = upd_dev d (\<lambda>dev. dev\<lparr>nd_refs := nd_refs dev - 1\<rparr>) e"

section \<open>Packets\<close>

datatype rx_handler_result = RX_HANDLER_CONSUMED | RX_HANDLER_PASS

abbreviation PACKET_LOOPBACK :: u8 where "PACKET_LOOPBACK \<equiv> 5"

definition is_valid_ether_addr :: "u8 list \<Rightarrow> bool" where
  "is_valid_ether_addr a \<longleftrightarrow> a ! 0 AND 1 = 0 \<and> take 6 a \<noteq> replicate 6 0"

text \<open>The walk over the nodes has no \<open>break\<close>: the last one for the device counts.\<close>

definition last_node_for :: "nat option \<Rightarrow> (ptr \<times> nat) list \<Rightarrow> ptr option" where
  "last_node_for d nodes = fold (\<lambda>(fb, dev) found. if d = Some dev then Some fb else found) nodes None"

definition fb_eth_handle_frame ::
    "fb_priv fb_ops \<Rightarrow> fb_priv netrx \<Rightarrow> sk_buff \<Rightarrow> eth_state \<Rightarrow> (rx_handler_result \<times> eth_state) option" where
  "fb_eth_handle_frame ops nrx skb e =
     (let s = ekern e; dropped = Some (RX_HANDLER_CONSUMED, e\<lparr>ekern := kfree_skb skb s\<rparr>) in
      if skb_pkt_type skb = PACKET_LOOPBACK then Some (RX_HANDLER_PASS, e)
      else if \<not> is_valid_ether_addr (h_source skb) then dropped
      else case last_node_for (skb_dev skb) (fb_eth_devs e) of
        None \<Rightarrow> dropped
      | Some p \<Rightarrow> do {
          fb \<leftarrow> fbs (tabs s) p;
          (case private_data fb of
             EthPriv cs \<Rightarrow>
               (let port = eth_port (cs ! cpu s) TYPE_INGRESS in
                if port = IDP_UNKNOWN then dropped
                else do {
                  (_, s) \<leftarrow> process_packet ops nrx (write_next_idp_to_skb skb (fb_idp fb) port) TYPE_INGRESS s;
                  Some (RX_HANDLER_CONSUMED, e\<lparr>ekern := s\<rparr>)
                })
           | _ \<Rightarrow> None)
        })"

text \<open>\<open>dev_queue_xmit\<close> takes the packet over, whether or not it can be sent.\<close>

definition dev_queue_xmit :: "nat \<Rightarrow> sk_buff \<Rightarrow> 'p kern \<Rightarrow> 'p kern" where
  "dev_queue_xmit d skb s = s\<lparr>outbox := outbox s @ [(NetDevice d, skb)]\<rparr>"

definition fb_eth_netrx ::
    "ptr \<Rightarrow> sk_buff \<Rightarrow> path_type \<Rightarrow> fb_priv kern \<Rightarrow> (int \<times> sk_buff \<times> path_type \<times> fb_priv kern) option" where
  "fb_eth_netrx p skb dir s = do {
     fb \<leftarrow> fbs (tabs s) p;
     (case private_data fb of
        EthPriv cs \<Rightarrow>
          (let skb = write_next_idp_to_skb skb (fb_idp fb) IDP_UNKNOWN;
               dev = eth_dev (cs ! cpu s);
               skb = skb\<lparr>skb_dev := Some dev\<rparr>
           in Some (PPE_DROPPED, skb, dir, dev_queue_xmit dev skb s))
      | _ \<Rightarrow> None)
   }"

section \<open>Events\<close>

definition fb_eth_bind_cpu :: "path_type \<Rightarrow> idp_t \<Rightarrow> fb_eth_priv \<Rightarrow> fb_eth_priv option" where
  "fb_eth_bind_cpu dir idp c =
     (if eth_port c dir = IDP_UNKNOWN then Some (c\<lparr>eth_port := (eth_port c)(dir := idp)\<rparr>) else None)"

definition fb_eth_unbind_cpu :: "path_type \<Rightarrow> idp_t \<Rightarrow> fb_eth_priv \<Rightarrow> fb_eth_priv option" where
  "fb_eth_unbind_cpu dir idp c =
     (if eth_port c dir = idp then Some (c\<lparr>eth_port := (eth_port c)(dir := IDP_UNKNOWN)\<rparr>) else None)"

fun fb_eth_event :: "fblock_event \<Rightarrow> fb_priv \<Rightarrow> (int \<times> fb_priv) option" where
  "fb_eth_event e (EthPriv cs) =
     (case e of
        FBLOCK_BIND_IDP dir idp \<Rightarrow>
          (let (ok, cs') = for_each_online_cpu (fb_eth_bind_cpu dir idp) cs
           in Some (notify_result ok, EthPriv cs'))
      | FBLOCK_UNBIND_IDP dir idp \<Rightarrow>
          (let (ok, cs') = for_each_online_cpu (fb_eth_unbind_cpu dir idp) cs
           in Some (notify_result ok, EthPriv cs'))
      | _ \<Rightarrow> Some (NOTIFY_OK, EthPriv cs))"
| "fb_eth_event e _ = None"

interpretation eth: port_array eth_port "\<lambda>f c. c\<lparr>eth_port := f\<rparr>" fb_eth_bind_cpu fb_eth_unbind_cpu
  by unfold_locales (simp_all add: fb_eth_bind_cpu_def fb_eth_unbind_cpu_def)

lemma fb_eth_event_ports:
  "fb_eth_event e (EthPriv cs) =
     (let (r, cs') = port_event fb_eth_bind_cpu fb_eth_unbind_cpu e cs in Some (r, EthPriv cs'))"
  by (simp add: port_event_def split: fblock_event.split prod.split)

section \<open>Hooking a device\<close>

text \<open>\<open>netdev_rx_handler_register\<close> refuses a device that has a handler.\<close>

definition netdev_rx_handler_register :: "nat \<Rightarrow> fb_module \<Rightarrow> eth_state \<Rightarrow> int \<times> eth_state" where
  "netdev_rx_handler_register d h e =
     (if rx_handler (netdevs e ! d) \<noteq> None then (- EBUSY, e)
      else (0, upd_dev d (\<lambda>dev. dev\<lparr>rx_handler := Some h\<rparr>) e))"

definition cleanup_fb_eth :: "nat \<Rightarrow> eth_state \<Rightarrow> eth_state" where
  "cleanup_fb_eth d e =
     (if fb_eth_dev_is_bridged (netdevs e ! d)
      then upd_dev d fb_eth_make_dev_unbridged (upd_dev d (\<lambda>dev. dev\<lparr>rx_handler := None\<rparr>) e)
      else e)"

definition init_fb_eth :: "nat \<Rightarrow> eth_state \<Rightarrow> int \<times> eth_state" where
  "init_fb_eth d e =
     (let (ret, e) = netdev_rx_handler_register d FB_ETH e in
      if ret \<noteq> 0 then (- EIO, e) else (0, upd_dev d fb_eth_make_dev_bridged e))"

definition eth_priv :: "nat \<Rightarrow> nat \<Rightarrow> fb_priv" where
  "eth_priv online d = EthPriv (replicate online \<lparr>eth_port = (\<lambda>_. IDP_UNKNOWN), eth_dev = d\<rparr>)"

definition fb_eth_build_fblock ::
    "fb_priv fb_ops \<Rightarrow> nat \<Rightarrow> nat \<Rightarrow> eth_state \<Rightarrow> (ptr option \<times> eth_state) option" where
  "fb_eth_build_fblock ops online d e = do {
     (r, t) \<leftarrow> block_ctor FB_ETH False (eth_priv online d) (nd_name (netdevs e ! d)) (tabs (ekern e));
     (case r of
        None \<Rightarrow> Some (None, on_tabs e t)
      | Some p \<Rightarrow>
          (let (ret, e) = init_fb_eth d (on_tabs e t) in
           if ret \<noteq> 0 then do {
             t \<leftarrow> unregister_fblock_namespace_no_rcu ops p t;
             t \<leftarrow> cleanup_fblock_ctor p t;
             t \<leftarrow> kfree_fblock p t;
             Some (None, on_tabs e t)
           } else Some (Some p, on_tabs e (module_get FB_ETH t))))
   }"

definition fb_eth_destroy_fblock :: "fb_priv fb_ops \<Rightarrow> ptr \<Rightarrow> eth_state \<Rightarrow> eth_state option" where
  "fb_eth_destroy_fblock ops p e = do {
     fb \<leftarrow> fbs (tabs (ekern e)) p;
     (case private_data fb of
        EthPriv cs \<Rightarrow> do {
          let e = cleanup_fb_eth (eth_dev (cs ! cpu (ekern e))) e;
          t \<leftarrow> destroy_block ops FB_ETH p (tabs (ekern e));
          Some (on_tabs e t)
        }
      | _ \<Rightarrow> None)
   }"

text \<open>The allocation of a node is the next one of the kernel; its address plays no role.\<close>

definition fb_eth_start_hook_dev ::
    "fb_priv fb_ops \<Rightarrow> nat \<Rightarrow> vlinknlmsg \<Rightarrow> eth_state \<Rightarrow> (int \<times> eth_state) option" where
  "fb_eth_start_hook_dev ops online vhdr e =
     (if vm_cmd vhdr \<noteq> VLINKNLCMD_START_HOOK_DEVICE then Some (NETLINK_VLINK_RX_NXT, e)
      else case dev_get_by_name (real_name vhdr) e of
        (None, e) \<Rightarrow> Some (NETLINK_VLINK_RX_EMERG, e)
      | (Some d, e) \<Rightarrow>
          (let dev = netdevs e ! d in
           if priv_flags dev AND IFF_VLINK_DEV = IFF_VLINK_DEV then Some (NETLINK_VLINK_RX_EMERG, dev_put d e)
           else if fb_eth_dev_is_bridged dev \<or> fb_ethvlink_real_dev_is_hooked dev
           then Some (NETLINK_VLINK_RX_STOP, dev_put d e)
           else
             let (fails, t) = mem_fails (tabs (ekern e)); e = on_tabs e t in
             if fails then Some (NETLINK_VLINK_RX_STOP, dev_put d e)
             else do {
               (r, e) \<leftarrow> fb_eth_build_fblock ops online d e;
               let e = (case r of None \<Rightarrow> e | Some p \<Rightarrow> e\<lparr>fb_eth_devs := (p, d) # fb_eth_devs e\<rparr>);
               Some (NETLINK_VLINK_RX_STOP, dev_put d e)
             }))"

definition fb_eth_stop_hook_dev :: "fb_priv fb_ops \<Rightarrow> vlinknlmsg \<Rightarrow> eth_state \<Rightarrow> (int \<times> eth_state) option" where
  "fb_eth_stop_hook_dev ops vhdr e =
     (if vm_cmd vhdr \<noteq> VLINKNLCMD_STOP_HOOK_DEVICE then Some (NETLINK_VLINK_RX_NXT, e)
      else case dev_get_by_name (real_name vhdr) e of
        (None, e) \<Rightarrow> Some (NETLINK_VLINK_RX_EMERG, e)
      | (Some d, e) \<Rightarrow>
          (let dev = netdevs e ! d in
           if \<not> fb_eth_dev_is_bridged dev \<or> nd_flags dev AND IFF_RUNNING = IFF_RUNNING
           then Some (NETLINK_VLINK_RX_EMERG, dev_put d e)
           else case List.find (\<lambda>(_, nd). nd = d) (fb_eth_devs e) of
             None \<Rightarrow> Some (NETLINK_VLINK_RX_EMERG, dev_put d e)
           | Some (p, _) \<Rightarrow> do {
               fb \<leftarrow> fbs (tabs (ekern e)) p;
               if refcnt fb > 2 then Some (NETLINK_VLINK_RX_EMERG, dev_put d e)
               else do {
                 e \<leftarrow> fb_eth_destroy_fblock ops p (e\<lparr>fb_eth_devs := remove1 (p, d) (fb_eth_devs e)\<rparr>);
                 Some (NETLINK_VLINK_RX_STOP, dev_put d e)
               }
             }))"

section \<open>The module\<close>

text \<open>The functions behind the \<open>rx\<close> pointers of the two callbacks.\<close>

datatype eth_rx = EthStartHook | EthStopHook

fun eth_rx_call :: "fb_priv fb_ops \<Rightarrow> nat \<Rightarrow> (eth_rx, eth_state) vlink_rx" where
  "eth_rx_call ops online EthStartHook vhdr e = fb_eth_start_hook_dev ops online vhdr e"
| "eth_rx_call ops online EthStopHook vhdr e = fb_eth_stop_hook_dev ops vhdr e"

text \<open>The static objects of the module, and their addresses.\<close>

abbreviation fb_eth_sys_addr :: ptr where "fb_eth_sys_addr \<equiv> 1"
abbreviation fb_eth_start_hook_dev_cb_addr :: ptr where "fb_eth_start_hook_dev_cb_addr \<equiv> 2"
abbreviation fb_eth_stop_hook_dev_cb_addr :: ptr where "fb_eth_stop_hook_dev_cb_addr \<equiv> 3"

definition fb_eth_sys :: vlink_subsys where
  "fb_eth_sys =
     \<lparr>vs_name = lit ''eth'', vs_type = group_type VLINKNLGRP_ETHERNET, vs_id = 0, vs_owner = FB_ETH, vs_head = None\<rparr>"

definition fb_eth_start_hook_dev_cb :: "eth_rx vlink_callback" where
  "fb_eth_start_hook_dev_cb = \<lparr>cb_priority = NETLINK_VLINK_PRIO_HIGH, cb_rx = EthStartHook, cb_next = None\<rparr>"

definition fb_eth_stop_hook_dev_cb :: "eth_rx vlink_callback" where
  "fb_eth_stop_hook_dev_cb = \<lparr>cb_priority = NETLINK_VLINK_PRIO_HIGH, cb_rx = EthStopHook, cb_next = None\<rparr>"

definition load_fb_eth :: "eth_rx vlink_system \<Rightarrow> eth_rx vlink_system" where
  "load_fb_eth v = v\<lparr>subsystems := (subsystems v)(fb_eth_sys_addr \<mapsto> fb_eth_sys),
     callbacks := (callbacks v)(fb_eth_start_hook_dev_cb_addr \<mapsto> fb_eth_start_hook_dev_cb,
                                fb_eth_stop_hook_dev_cb_addr \<mapsto> fb_eth_stop_hook_dev_cb)\<rparr>"

definition init_fb_eth_module :: "eth_rx vlink_system \<Rightarrow> (int \<times> eth_rx vlink_system) option" where
  "init_fb_eth_module v = do {
     (ret, v) \<leftarrow> vlink_subsys_register (Some fb_eth_sys_addr) v;
     if ret \<noteq> 0 then Some (ret, v)
     else do {
       (_, v) \<leftarrow> vlink_add_callback (Some fb_eth_sys_addr) (Some fb_eth_start_hook_dev_cb_addr) v;
       (_, v) \<leftarrow> vlink_add_callback (Some fb_eth_sys_addr) (Some fb_eth_stop_hook_dev_cb_addr) v;
       Some (ret, v)
     }
   }"

definition cleanup_fb_eth_module :: "eth_rx vlink_system \<Rightarrow> eth_rx vlink_system option" where
  "cleanup_fb_eth_module v = vlink_subsys_unregister_batch (Some fb_eth_sys_addr) v"

section \<open>A hook and its removal\<close>

lemma dev_index_less: "dev_index name names = Some d \<Longrightarrow> d < length names"
  by (auto simp: dev_index_def find_Some_iff)

lemma upd_dev_simps [simp]:
  "ekern (upd_dev d f e) = ekern e" "fb_eth_devs (upd_dev d f e) = fb_eth_devs e"
  "netdevs (upd_dev d f e) = (netdevs e)[d := f (netdevs e ! d)]"
  by (simp_all add: upd_dev_def)

lemma on_tabs_simps [simp]:
  "ekern (on_tabs e t) = (ekern e)\<lparr>tabs := t\<rparr>" "fb_eth_devs (on_tabs e t) = fb_eth_devs e" "netdevs (on_tabs e t) = netdevs e"
  by (simp_all add: on_tabs_def)

lemma or_and_not_mask:
  fixes a m :: u32
  assumes "a AND m = 0"
  shows "(a OR m) AND NOT m = a"
proof -
  have "bit ((a OR m) AND NOT m) n = bit a n" if "n < 32" for n
    using assms that by (auto simp: bit_simps) (metis bit_and_iff bit_0_eq bot_apply bot_bool_def)
  then show ?thesis by (intro bit_word_eqI) simp
qed

lemma bridged_parts:
  assumes "a AND IFF_IS_BRIDGED = 0"
  shows "a AND IFF_VLINK_DEV \<noteq> IFF_VLINK_DEV" "a AND IFF_VLINK_MAS \<noteq> IFF_VLINK_MAS" "a AND IFF_IS_BRIDGED \<noteq> IFF_IS_BRIDGED"
proof -
  have "IFF_VLINK_DEV = IFF_IS_BRIDGED AND IFF_VLINK_DEV" "IFF_VLINK_MAS = IFF_IS_BRIDGED AND IFF_VLINK_MAS"
    by (simp_all add: IFF_VLINK_DEV_def IFF_VLINK_MAS_def IFF_IS_BRIDGED_def)
  with assms have "a AND IFF_VLINK_DEV = 0" "a AND IFF_VLINK_MAS = 0"
    by (metis and.assoc and_zero_eq bit.conj_zero_left)+
  then show "a AND IFF_VLINK_DEV \<noteq> IFF_VLINK_DEV" "a AND IFF_VLINK_MAS \<noteq> IFF_VLINK_MAS" "a AND IFF_IS_BRIDGED \<noteq> IFF_IS_BRIDGED"
    using assms by (simp_all add: IFF_VLINK_DEV_def IFF_VLINK_MAS_def IFF_IS_BRIDGED_def)
qed

text \<open>The device with a hook.\<close>

definition hooked :: "net_device \<Rightarrow> net_device" where
  "hooked dev = dev\<lparr>rx_handler := Some FB_ETH, priv_flags := priv_flags dev OR IFF_IS_BRIDGED\<rparr>"

lemma hooked_bridged: "fb_eth_dev_is_bridged (hooked dev)"
  by (simp add: hooked_def fb_eth_dev_is_bridged_def bit.conj_disj_distrib2)

lemma start_hook_ok:
  assumes cmd: "vm_cmd vhdr = VLINKNLCMD_START_HOOK_DEVICE"
    and d: "dev_index (real_name vhdr) (map nd_name (netdevs e)) = Some d"
    and dev: "priv_flags (netdevs e ! d) AND IFF_IS_BRIDGED = 0" "rx_handler (netdevs e ! d) = None"
    and mem: "kmem (tabs (ekern e)) = []"
    and ctor: "block_ctor FB_ETH False (eth_priv online d) (nd_name (netdevs e ! d)) (tabs (ekern e)) = Some (Some p, t)"
  shows "fb_eth_start_hook_dev ops online vhdr e =
    Some (NETLINK_VLINK_RX_STOP, \<lparr>ekern = (ekern e)\<lparr>tabs := module_get FB_ETH t\<rparr>,
      netdevs = (netdevs e)[d := hooked (netdevs e ! d)], fb_eth_devs = (p, d) # fb_eth_devs e\<rparr>)"
proof -
  have len: "d < length (netdevs e)" using dev_index_less[OF d] by simp
  let ?e = "upd_dev d (\<lambda>dev. dev\<lparr>nd_refs := nd_refs dev + 1\<rparr>) e"
  have get: "dev_get_by_name (real_name vhdr) e = (Some d, ?e)" using d by (simp add: dev_get_by_name_def)
  have tab: "mem_fails (tabs (ekern ?e)) = (False, tabs (ekern e))" "on_tabs ?e (tabs (ekern e)) = ?e"
    using mem by (simp_all add: on_tabs_def)
  have build: "fb_eth_build_fblock ops online d ?e =
     Some (Some p, on_tabs (upd_dev d hooked ?e) (module_get FB_ETH t))"
    using len dev(2) ctor
    by (simp add: fb_eth_build_fblock_def init_fb_eth_def netdev_rx_handler_register_def)
      (simp add: upd_dev_def on_tabs_def hooked_def fb_eth_make_dev_bridged_def)
  show ?thesis
    using cmd get tab build bridged_parts[OF dev(1)] len
    by (simp add: fb_eth_start_hook_dev_def fb_eth_dev_is_bridged_def fb_ethvlink_real_dev_is_hooked_def dev_put_def)
      (simp add: upd_dev_def on_tabs_def hooked_def)
qed

definition unhooked :: "net_device \<Rightarrow> net_device" where
  "unhooked dev = dev\<lparr>rx_handler := None, priv_flags := priv_flags dev AND NOT IFF_IS_BRIDGED\<rparr>"

lemma unhooked_hooked:
  "priv_flags dev AND IFF_IS_BRIDGED = 0 \<Longrightarrow> rx_handler dev = None \<Longrightarrow> unhooked (hooked dev) = dev"
  by (simp add: unhooked_def hooked_def or_and_not_mask)

lemma stop_hook_ok:
  assumes cmd: "vm_cmd vhdr = VLINKNLCMD_STOP_HOOK_DEVICE"
    and d: "dev_index (real_name vhdr) (map nd_name (netdevs e)) = Some d"
    and dev: "fb_eth_dev_is_bridged (netdevs e ! d)" "nd_flags (netdevs e ! d) AND IFF_RUNNING \<noteq> IFF_RUNNING"
    and node: "List.find (\<lambda>(_, nd). nd = d) (fb_eth_devs e) = Some (p, d)"
    and fb: "fbs (tabs (ekern e)) p = Some fb" "refcnt fb \<le> 2" "private_data fb = EthPriv cs" "eth_dev (cs ! cpu (ekern e)) = d"
    and destroy: "destroy_block ops FB_ETH p (tabs (ekern e)) = Some t"
  shows "fb_eth_stop_hook_dev ops vhdr e =
    Some (NETLINK_VLINK_RX_STOP, \<lparr>ekern = (ekern e)\<lparr>tabs := t\<rparr>,
      netdevs = (netdevs e)[d := unhooked (netdevs e ! d)], fb_eth_devs = remove1 (p, d) (fb_eth_devs e)\<rparr>)"
proof -
  have len: "d < length (netdevs e)" using dev_index_less[OF d] by simp
  let ?e = "upd_dev d (\<lambda>dev. dev\<lparr>nd_refs := nd_refs dev + 1\<rparr>) e"
  have get: "dev_get_by_name (real_name vhdr) e = (Some d, ?e)" using d by (simp add: dev_get_by_name_def)
  let ?e1 = "?e\<lparr>fb_eth_devs := remove1 (p, d) (fb_eth_devs e)\<rparr>"
  have "fb_eth_destroy_fblock ops p ?e1 = Some (on_tabs (upd_dev d unhooked ?e1) t)"
    using fb destroy dev(1) len
    by (simp add: fb_eth_destroy_fblock_def cleanup_fb_eth_def fb_eth_dev_is_bridged_def)
      (simp add: upd_dev_def on_tabs_def unhooked_def fb_eth_make_dev_unbridged_def)
  then show ?thesis
    using cmd get dev node fb(1,2) len
    by (simp add: fb_eth_stop_hook_dev_def dev_put_def fb_eth_dev_is_bridged_def)
      (simp add: upd_dev_def on_tabs_def unhooked_def)
qed

text \<open>C12: Hooking a device and taking the hook off. A free device with a free name is hooked: it has the
  handler and the flags of the module, and its block is registered under the name of the device.
  Taking the hook off again gives back all devices (their flags, handlers and reference counts), the
  list of nodes, all blocks, the name tree, the idp table and the reference counts of all modules.\<close>
theorem hook_unhook:
  assumes "vm_cmd m1 = VLINKNLCMD_START_HOOK_DEVICE" "vm_cmd m2 = VLINKNLCMD_STOP_HOOK_DEVICE" "real_name m2 = real_name m1"
    and "dev_index (real_name m1) (map nd_name (netdevs e)) = Some d" "netdevs e ! d = dev" "tabs (ekern e) = s"
    and "priv_flags dev AND IFF_IS_BRIDGED = 0" "rx_handler dev = None" "nd_flags dev AND IFF_RUNNING \<noteq> IFF_RUNNING"
    and "is_cstr (nd_name dev)" "length (nd_name dev) < FBNAMSIZ"
    and "heap_inv s" "names_inv s" "registry_inv s" "kmem s = []" "unat (idp_counter s) < 2 ^ 32 - 1"
    and "critbit_get (elem_name_at s) (idpmap s) (nd_name dev) = None" "cpu (ekern e) < online"
  shows "\<exists>e1 e2 p. fb_eth_start_hook_dev ops online m1 e = Some (NETLINK_VLINK_RX_STOP, e1) \<and>
     rx_handler (netdevs e1 ! d) = Some FB_ETH \<and> fb_eth_dev_is_bridged (netdevs e1 ! d) \<and>
     fb_eth_devs e1 = (p, d) # fb_eth_devs e \<and>
     fblmap (tabs (ekern e1)) (get_fblock_namespace_mapping (nd_name dev) (tabs (ekern e1))) = Some p \<and>
     fb_eth_stop_hook_dev ops m2 e1 = Some (NETLINK_VLINK_RX_STOP, e2) \<and>
     netdevs e2 = netdevs e \<and> fb_eth_devs e2 = fb_eth_devs e \<and>
     fbs (tabs (ekern e2)) = fbs s \<and> fblmap (tabs (ekern e2)) = fblmap s \<and> idpmap (tabs (ekern e2)) = idpmap s \<and>
     modrefs (tabs (ekern e2)) = modrefs s"
proof -
  let ?p = "slab_addr (heap_top s)" and ?i = "ucast (idp_counter s + 1) :: idp_t"
  let ?fb = "new_block FB_ETH (eth_priv online d) (nd_name dev) ?i"
  note d = assms(4)[unfolded assms(3)[symmetric]]
  have len: "d < length (netdevs e)" using dev_index_less[OF assms(4)] by simp
  have eth_not_core: "FB_ETH \<noteq> LANA_CORE" by simp
  obtain t t2 where t: "block_ctor FB_ETH False (eth_priv online d) (nd_name dev) s = Some (Some ?p, t)"
    "fbs (module_get FB_ETH t) ?p = Some ?fb"
    "fblmap (module_get FB_ETH t) (get_fblock_namespace_mapping (nd_name dev) (module_get FB_ETH t)) = Some ?p"
    "destroy_block ops FB_ETH ?p (upd_fb ?p ?fb (module_get FB_ETH t)) = Some t2"
    "fbs t2 = fbs s" "fblmap t2 = fblmap s" "idpmap t2 = idpmap s" "modrefs t2 = modrefs s"
    by (rule block_life[OF assms(12-16,10,11,17) eth_not_core, where priv = "eth_priv online d" and v = "eth_priv online d"])
      (rule that; assumption)
  have destroy: "destroy_block ops FB_ETH ?p (module_get FB_ETH t) = Some t2" using t(4) upd_fb_same[OF t(2)] by simp
  let ?e1 = "\<lparr>ekern = (ekern e)\<lparr>tabs := module_get FB_ETH t\<rparr>, netdevs = (netdevs e)[d := hooked dev],
      fb_eth_devs = (?p, d) # fb_eth_devs e\<rparr>"
  have start: "fb_eth_start_hook_dev ops online m1 e = Some (NETLINK_VLINK_RX_STOP, ?e1)"
    using start_hook_ok[OF assms(1,4)] t(1) assms(5-8,15) by simp
  have names: "map nd_name (netdevs ?e1) = map nd_name (netdevs e)"
    using assms(5) by (simp add: map_update hooked_def list_update_same_conv len)
  let ?cs = "replicate online \<lparr>eth_port = (\<lambda>_. IDP_UNKNOWN), eth_dev = d\<rparr>"
  have cs: "eth_dev (?cs ! cpu (ekern e)) = d" using assms(18) by simp
  have stop: "fb_eth_stop_hook_dev ops m2 ?e1 =
     Some (NETLINK_VLINK_RX_STOP, \<lparr>ekern = (ekern ?e1)\<lparr>tabs := t2\<rparr>,
      netdevs = (netdevs ?e1)[d := unhooked (netdevs ?e1 ! d)], fb_eth_devs = remove1 (?p, d) (fb_eth_devs ?e1)\<rparr>)"
    by (rule stop_hook_ok[OF assms(2), where fb = ?fb and cs = ?cs])
      (use d len names t(2) destroy assms(9) cs hooked_bridged[of dev] in \<open>simp_all add: hooked_def eth_priv_def\<close>)
  have devs: "rx_handler (hooked dev) = Some FB_ETH" "(netdevs e)[d := dev] = netdevs e"
    using assms(5) by (simp_all add: hooked_def flip: assms(5))
  show ?thesis
    using start stop len t(3,5-8) devs unhooked_hooked[OF assms(7,8)] hooked_bridged[of dev]
    by (intro exI[of _ ?e1] exI[of _ "\<lparr>ekern = (ekern ?e1)\<lparr>tabs := t2\<rparr>,
          netdevs = (netdevs ?e1)[d := unhooked (netdevs ?e1 ! d)], fb_eth_devs = remove1 (?p, d) (fb_eth_devs ?e1)\<rparr>"] exI[of _ ?p])
      simp
qed

definition one_device :: "u32 \<Rightarrow> eth_state" where
  "one_device flags =
     \<lparr>ekern = \<lparr>tabs = lana_boot, cpu = 0, iostats = [], emdiscs = [], freed = [], outbox = [], next_skb = 0\<rparr>,
      netdevs = [\<lparr>nd_name = lit ''eth0'', nd_flags = 0, priv_flags = flags, rx_handler = None,
        nd_refs = 1, nd_mtu = 1500, nd_type = 1\<rparr>],
      fb_eth_devs = []\<rparr>"

definition hook_msg :: "u8 \<Rightarrow> vlinknlmsg" where
  "hook_msg cmd = \<lparr>vm_cmd = cmd, vm_flags = 0, vm_type = 0, vm_port = 0, virt_name = replicate 16 0,
     real_name = lit ''eth0'' @ replicate 12 0\<rparr>"

lemma hook_msg_device: "dev_index (real_name (hook_msg cmd)) (map nd_name (netdevs (one_device f))) = Some 0"
  by (simp add: dev_index_def hook_msg_def one_device_def lit_def)

theorem hook_unhook_witness:
  "\<exists>e1 e2. fb_eth_start_hook_dev idle_ops 1 (hook_msg VLINKNLCMD_START_HOOK_DEVICE) (one_device 0) = Some (NETLINK_VLINK_RX_STOP, e1) \<and>
     fb_eth_dev_is_bridged (netdevs e1 ! 0) \<and>
     fb_eth_stop_hook_dev idle_ops (hook_msg VLINKNLCMD_STOP_HOOK_DEVICE) e1 = Some (NETLINK_VLINK_RX_STOP, e2) \<and>
     netdevs e2 = netdevs (one_device 0)"
proof -
  have real: "real_name (hook_msg VLINKNLCMD_STOP_HOOK_DEVICE) = real_name (hook_msg VLINKNLCMD_START_HOOK_DEVICE)"
    by (simp add: hook_msg_def)
  have "unat (idp_counter (lana_boot :: fb_priv lana)) < 2 ^ 32 - 1" "kmem (lana_boot :: fb_priv lana) = []"
    "critbit_get (elem_name_at (lana_boot :: fb_priv lana)) (idpmap lana_boot) (lit ''eth0'') = None"
    by (simp_all add: lana_boot_def critbit_get_def)
  moreover have "heap_inv (lana_boot :: fb_priv lana)" "names_inv (lana_boot :: fb_priv lana)"
    "registry_inv (lana_boot :: fb_priv lana)"
    by (rule lana_boot_inv)+
  ultimately show ?thesis
    using hook_unhook[OF _ _ real hook_msg_device refl refl, of 0 1 idle_ops]
    by (simp add: hook_msg_def[of VLINKNLCMD_START_HOOK_DEVICE] hook_msg_def[of VLINKNLCMD_STOP_HOOK_DEVICE])
      (auto simp: one_device_def lit_def is_cstr_def FBNAMSIZ_def IFF_RUNNING_def)
qed

section \<open>A refused hook\<close>

lemma register_scan_Inl: "register_scan subs ty i slot es = Some (Inl r) \<Longrightarrow> r = - EBUSY"
  by (induction subs ty i slot es rule: register_scan.induct) (auto split: bind_splits if_splits)

lemma init_fb_eth_module_ok:
  assumes "init_fb_eth_module (load_fb_eth v) = Some (0, v')"
  shows "\<exists>x c. subsystems v' fb_eth_sys_addr = Some x \<and> vs_owner x = FB_ETH \<and> vs_head x = Some fb_eth_start_hook_dev_cb_addr \<and>
     callbacks v' fb_eth_start_hook_dev_cb_addr = Some c \<and> cb_rx c = EthStartHook"
proof -
  let ?v = "load_fb_eth v"
  obtain r v1 where 1: "vlink_subsys_register (Some fb_eth_sys_addr) ?v = Some (r, v1)"
    using assms by (auto simp: init_fb_eth_module_def split: bind_splits)
  with assms have "r = 0" by (auto simp: init_fb_eth_module_def split: if_splits)
  with 1 obtain i where x: "subsystems v1 fb_eth_sys_addr = Some (fb_eth_sys\<lparr>vs_id := i\<rparr>)" "callbacks v1 = callbacks ?v"
    by (auto simp: vlink_subsys_register_def vlink_module_get_def load_fb_eth_def dest: register_scan_Inl
        split: bind_splits sum.splits option.splits)
  let ?x = "fb_eth_sys\<lparr>vs_id := i, vs_head := Some fb_eth_start_hook_dev_cb_addr\<rparr>"
  let ?v2 = "v1\<lparr>subsystems := (subsystems v1)(fb_eth_sys_addr \<mapsto> ?x)\<rparr>"
  have cbs: "callbacks v1 fb_eth_start_hook_dev_cb_addr = Some fb_eth_start_hook_dev_cb"
    "callbacks v1 fb_eth_stop_hook_dev_cb_addr = Some fb_eth_stop_hook_dev_cb"
    by (simp_all add: x load_fb_eth_def)
  have "vlink_add_callback (Some fb_eth_sys_addr) (Some fb_eth_start_hook_dev_cb_addr) v1 = Some (0, ?v2)"
    using x(1) cbs
    by (simp add: vlink_add_callback_def vlink_add_callback_locked_def add_position.simps[of _ _ _ Head] fb_eth_sys_def
        fb_eth_start_hook_dev_cb_def fun_upd_idem)
  moreover have "vlink_add_callback (Some fb_eth_sys_addr) (Some fb_eth_stop_hook_dev_cb_addr) ?v2 =
     Some (0, ?v2\<lparr>callbacks := (callbacks v1)(fb_eth_start_hook_dev_cb_addr \<mapsto>
        fb_eth_start_hook_dev_cb\<lparr>cb_next := Some fb_eth_stop_hook_dev_cb_addr\<rparr>)\<rparr>)"
    using cbs
    by (simp add: vlink_add_callback_def vlink_add_callback_locked_def add_position.simps[of _ _ _ Head]
        add_position.simps[of _ _ _ "Next fb_eth_start_hook_dev_cb_addr"])
      (simp add: fb_eth_start_hook_dev_cb_def fb_eth_stop_hook_dev_cb_def fun_upd_idem)
  ultimately show ?thesis
    using assms 1 \<open>r = 0\<close> by (auto simp: init_fb_eth_module_def fb_eth_sys_def fb_eth_start_hook_dev_cb_def)
qed


definition empty_vlink :: "eth_rx vlink_system" where
  "empty_vlink = \<lparr>vlink_subsystem_table = Some [None], subsystems = Map.empty, callbacks = Map.empty,
     vlink_modrefs = (\<lambda>_. 0), vlink_sock = True, vlink_proc = True\<rparr>"


end
