(* ===== verification/Fb_Pflana.thy ===== *)
theory Fb_Pflana
  imports Fb_Common
begin

text \<open>The blocks of sockets: \<open>src/src/fb_pflana.c\<close>. A socket of the family \<open>PF_LANA\<close> owns a
  block; what is sent through the socket leaves along the block's egress port, and packets that reach
  the block are queued at the socket.

  A socket is known by its address. Its receive queue is the part of the \<open>outbox\<close> of the engine
  that was handed to it. What the kernel decides is a parameter: whether a receive queue takes a packet
  (\<open>accepts\<close>), whether user memory can be read or written, whether buffers can be allocated. Packets
  that reach a block are held by nobody else, so the branch for shared buffers is not taken.\<close>

section \<open>Data\<close>

abbreviation AF_LANA :: int where "AF_LANA \<equiv> 27"
abbreviation (input) LANA_PROTO_AUTO :: int where "LANA_PROTO_AUTO \<equiv> 0"
abbreviation (input) LANA_PROTO_RAW :: int where "LANA_PROTO_RAW \<equiv> 1"

definition LANA_NPROTO :: int where
  "LANA_NPROTO = 2"

abbreviation SOCK_RAW :: int where "SOCK_RAW \<equiv> 3"

abbreviation EDESTADDRREQ :: int where "EDESTADDRREQ \<equiv> 89"
abbreviation EPROTONOSUPPORT :: int where "EPROTONOSUPPORT \<equiv> 93"
abbreviation EAFNOSUPPORT :: int where "EAFNOSUPPORT \<equiv> 97"

abbreviation (input) PPE_HALT :: int where "PPE_HALT \<equiv> PPE_DROPPED"

record lana_protocol =
  lp_protocol :: int
  lp_owner :: fb_module

record lana_sock =
  ls_fb :: ptr
  ls_ifindex :: int
  ls_bound :: bool
  sk_bound_dev_if :: int
  sk_protocol :: int
  sk_type :: int
  sk_rcv_shutdown :: bool
  sk_refcnt :: int

text \<open>\<open>proto_tab\<close> holds addresses of protocols; \<open>pf_family\<close> tells whether the family is
  registered with the kernel. The device with index \<open>i\<close> is the \<open>i\<close>-th of \<open>pf_devs\<close>,
  counted from 1.\<close>

record pf_state =
  pkern :: "fb_priv kern"
  socks :: "ptr \<rightharpoonup> lana_sock"
  pf_devs :: "net_device list"
  proto_tab :: "ptr option list"
  protos :: "ptr \<rightharpoonup> lana_protocol"
  pf_family :: bool

definition on_ptabs :: "fb_priv lana \<Rightarrow> pf_state \<Rightarrow> pf_state" where
  "on_ptabs t st = st\<lparr>pkern := (pkern st)\<lparr>tabs := t\<rparr>\<rparr>"

definition upd_sock :: "ptr \<Rightarrow> lana_sock \<Rightarrow> pf_state \<Rightarrow> pf_state" where
  "upd_sock sk x st = st\<lparr>socks := (socks st)(sk \<mapsto> x)\<rparr>"

definition sk_receive_queue :: "ptr \<Rightarrow> 'p kern \<Rightarrow> sk_buff list" where
  "sk_receive_queue sk s = map snd (filter (\<lambda>(ep, _). ep = SockQueue sk) (outbox s))"

section \<open>Packets\<close>

text \<open>\<open>sock_queue_rcv_skb\<close> leaves a packet it does not take to its caller.\<close>

definition sock_queue_rcv_skb :: "(ptr \<Rightarrow> 'p kern \<Rightarrow> bool) \<Rightarrow> ptr \<Rightarrow> sk_buff \<Rightarrow> 'p kern \<Rightarrow> 'p kern" where
  "sock_queue_rcv_skb accepts sk skb s =
     (if accepts sk s then s\<lparr>outbox := outbox s @ [(SockQueue sk, skb)]\<rparr> else s)"

text \<open>The control block is written after the packet has been queued, through the same pointer.\<close>

definition fb_pflana_netrx ::
    "(ptr \<Rightarrow> fb_priv kern \<Rightarrow> bool) \<Rightarrow> ptr \<Rightarrow> sk_buff \<Rightarrow> path_type \<Rightarrow> fb_priv kern \<Rightarrow>
     (int \<times> sk_buff \<times> path_type \<times> fb_priv kern) option" where
  "fb_pflana_netrx accepts p skb dir s = do {
     fb \<leftarrow> fbs (tabs s) p;
     (case private_data fb of
        PflanaPriv cs \<Rightarrow> do {
          sk \<leftarrow> sock_self (cs ! cpu s);
          let skb = write_next_idp_to_skb skb (fb_idp fb) IDP_UNKNOWN;
          Some (PPE_HALT, skb, dir, sock_queue_rcv_skb accepts sk skb s)
        }
      | _ \<Rightarrow> None)
   }"

definition fb_pflana_bind_cpu :: "path_type \<Rightarrow> idp_t \<Rightarrow> fb_pflana_priv \<Rightarrow> fb_pflana_priv option" where
  "fb_pflana_bind_cpu dir idp c =
     (if pflana_port c dir = IDP_UNKNOWN then Some (c\<lparr>pflana_port := (pflana_port c)(dir := idp)\<rparr>) else None)"

definition fb_pflana_unbind_cpu :: "path_type \<Rightarrow> idp_t \<Rightarrow> fb_pflana_priv \<Rightarrow> fb_pflana_priv option" where
  "fb_pflana_unbind_cpu dir idp c =
     (if pflana_port c dir = idp then Some (c\<lparr>pflana_port := (pflana_port c)(dir := IDP_UNKNOWN)\<rparr>) else None)"

fun fb_pflana_event :: "fblock_event \<Rightarrow> fb_priv \<Rightarrow> (int \<times> fb_priv) option" where
  "fb_pflana_event e (PflanaPriv cs) =
     (case e of
        FBLOCK_BIND_IDP dir idp \<Rightarrow>
          (let (ok, cs') = for_each_online_cpu (fb_pflana_bind_cpu dir idp) cs
           in Some (notify_result ok, PflanaPriv cs'))
      | FBLOCK_UNBIND_IDP dir idp \<Rightarrow>
          (let (ok, cs') = for_each_online_cpu (fb_pflana_unbind_cpu dir idp) cs
           in Some (notify_result ok, PflanaPriv cs'))
      | _ \<Rightarrow> Some (NOTIFY_OK, PflanaPriv cs))"
| "fb_pflana_event e _ = None"

interpretation pflana: port_array pflana_port "\<lambda>f c. c\<lparr>pflana_port := f\<rparr>" fb_pflana_bind_cpu fb_pflana_unbind_cpu
  by unfold_locales (simp_all add: fb_pflana_bind_cpu_def fb_pflana_unbind_cpu_def)

lemma fb_pflana_event_ports:
  "fb_pflana_event e (PflanaPriv cs) =
     (let (r, cs') = port_event fb_pflana_bind_cpu fb_pflana_unbind_cpu e cs in Some (r, PflanaPriv cs'))"
  by (simp add: port_event_def split: fblock_event.split prod.split)

section \<open>Life of the block\<close>

definition pflana_priv :: "nat \<Rightarrow> ptr option \<Rightarrow> fb_priv" where
  "pflana_priv online sk = PflanaPriv (replicate online \<lparr>pflana_port = (\<lambda>_. IDP_UNKNOWN), sock_self = sk\<rparr>)"

definition fb_pflana_build_fblock :: "nat \<Rightarrow> cstr \<Rightarrow> fb_priv lana \<Rightarrow> (ptr option \<times> fb_priv lana) option" where
  "fb_pflana_build_fblock online name s = percpu_ctor FB_PFLANA False (pflana_priv online None) name s"

definition fb_pflana_destroy_fblock :: "fb_priv fb_ops \<Rightarrow> ptr \<Rightarrow> fb_priv lana \<Rightarrow> fb_priv lana option" where
  "fb_pflana_destroy_fblock ops p s = destroy_block ops FB_PFLANA p s"

definition get_bound_fblock :: "nat \<Rightarrow> ptr \<Rightarrow> path_type \<Rightarrow> fb_priv lana \<Rightarrow> (ptr option \<times> fb_priv lana) option" where
  "get_bound_fblock c self dir s = do {
     fb \<leftarrow> fbs s self;
     (case private_data fb of
        PflanaPriv cs \<Rightarrow> search_fblock (pflana_port (cs ! c) dir) s
      | _ \<Rightarrow> None)
   }"

text \<open>The sockets of a kernel have 64-bit addresses; the block is named after that of its socket.\<close>

definition lana_sk_init :: "nat \<Rightarrow> ptr \<Rightarrow> pf_state \<Rightarrow> (int \<times> pf_state) option" where
  "lana_sk_init online sk st = do {
     (r, t) \<leftarrow> fb_pflana_build_fblock online (ptr_text sk) (tabs (pkern st));
     (case r of
        None \<Rightarrow> Some (- ENOMEM, on_ptabs t st)
      | Some p \<Rightarrow> do {
          lana \<leftarrow> socks st sk;
          fb \<leftarrow> fbs t p;
          (case private_data fb of
             PflanaPriv cs \<Rightarrow>
               Some (0, upd_sock sk (lana\<lparr>ls_fb := p\<rparr>)
                 (on_ptabs (upd_fb p (fb\<lparr>private_data := PflanaPriv (map (\<lambda>c. c\<lparr>sock_self := Some sk\<rparr>) cs)\<rparr>) t) st))
           | _ \<Rightarrow> None)
        })
   }"

definition lana_sk_free :: "fb_priv fb_ops \<Rightarrow> ptr \<Rightarrow> pf_state \<Rightarrow> pf_state option" where
  "lana_sk_free ops sk st = do {
     lana \<leftarrow> socks st sk;
     let p = ls_fb lana;
     let c = cpu (pkern st);
     (b, t) \<leftarrow> get_bound_fblock c p TYPE_INGRESS (tabs (pkern st));
     t \<leftarrow> (case b of None \<Rightarrow> Some t
       | Some q \<Rightarrow> do { (_, t) \<leftarrow> fblock_unbind ops q p t; put_fblock ops q t });
     (b, t) \<leftarrow> get_bound_fblock c p TYPE_EGRESS t;
     t \<leftarrow> (case b of None \<Rightarrow> Some t
       | Some q \<Rightarrow> do { (_, t) \<leftarrow> fblock_unbind ops p q t; put_fblock ops q t });
     t \<leftarrow> fb_pflana_destroy_fblock ops p t;
     Some (on_ptabs t st)
   }"

section \<open>Socket operations\<close>

definition lana_proto_destruct :: "ptr \<Rightarrow> 'p kern \<Rightarrow> 'p kern" where
  "lana_proto_destruct sk s =
     s\<lparr>freed := freed s @ map skb_id (sk_receive_queue sk s), outbox := filter (\<lambda>(ep, _). ep \<noteq> SockQueue sk) (outbox s)\<rparr>"

text \<open>\<open>sock_put\<close> frees a socket with its last reference; \<open>sk_common_release\<close> gives up the one of
  the file.\<close>

definition sock_put :: "ptr \<Rightarrow> pf_state \<Rightarrow> pf_state option" where
  "sock_put sk st = do {
     x \<leftarrow> socks st sk;
     if sk_refcnt x = 1 then Some (st\<lparr>socks := (socks st)(sk := None), pkern := lana_proto_destruct sk (pkern st)\<rparr>)
     else Some (upd_sock sk (x\<lparr>sk_refcnt := sk_refcnt x - 1\<rparr>) st)
   }"

definition lana_proto_close :: "ptr \<Rightarrow> pf_state \<Rightarrow> pf_state option" where
  "lana_proto_close sk st = sock_put sk st"

definition lana_raw_release :: "fb_priv fb_ops \<Rightarrow> ptr option \<Rightarrow> pf_state \<Rightarrow> (int \<times> pf_state) option" where
  "lana_raw_release ops sk st =
     (case sk of
        None \<Rightarrow> Some (0, st)
      | Some sk \<Rightarrow> do {
          st \<leftarrow> lana_proto_close sk st;
          st \<leftarrow> lana_sk_free ops sk st;
          Some (0, st)
        })"

text \<open>An address as user space passes it: its length, the family and the first byte of its data.\<close>

record sockaddr =
  sa_len :: nat
  sa_family :: int
  sa_data0 :: u8

definition sizeof_sockaddr :: nat where
  "sizeof_sockaddr = 16"

definition dev_get_by_index :: "int \<Rightarrow> net_device list \<Rightarrow> nat option" where
  "dev_get_by_index idx devs = (if 1 \<le> idx \<and> idx \<le> int (length devs) then Some (nat idx - 1) else None)"

text \<open>\<open>sa_data\<close> is an array of \<open>char\<close>, which is signed.\<close>

definition lana_raw_bind :: "ptr \<Rightarrow> sockaddr \<Rightarrow> pf_state \<Rightarrow> (int \<times> pf_state) option" where
  "lana_raw_bind sk addr st =
     (if sa_len addr < sizeof_sockaddr then Some (- EINVAL, st)
      else if sa_family addr \<noteq> AF_LANA then Some (- EINVAL, st)
      else
        let idx = sint (sa_data0 addr) in
        case dev_get_by_index idx (pf_devs st) of
          None \<Rightarrow> Some (- ENODEV, st)
        | Some _ \<Rightarrow> do {
            lana \<leftarrow> socks st sk;
            Some (0, upd_sock sk (lana\<lparr>ls_ifindex := idx, ls_bound := True\<rparr>) st)
          })"

abbreviation (input) POLLIN :: u32 where "POLLIN \<equiv> 1"
abbreviation POLLRDNORM :: u32 where "POLLRDNORM \<equiv> 0x40"

definition lana_raw_poll :: "ptr \<Rightarrow> pf_state \<Rightarrow> u32" where
  "lana_raw_poll sk st = (if sk_receive_queue sk (pkern st) \<noteq> [] then POLLIN OR POLLRDNORM else 0)"

text \<open>A message to send: whether it has an address, the address, and its bytes; \<^const>\<open>None\<close> for
  the bytes if they cannot be read.\<close>

record msghdr =
  mh_name :: "sockaddr option"
  mh_len :: nat
  mh_bytes :: "u8 list option"

text \<open>\<open>ETH_P_ALL\<close>, which the code passes as hardware type.\<close>

abbreviation ETH_P_ALL :: u16 where "ETH_P_ALL \<equiv> 3"

definition dev_getfirstbyhwtype :: "u16 \<Rightarrow> net_device list \<Rightarrow> nat option" where
  "dev_getfirstbyhwtype ty devs = List.find (\<lambda>d. nd_type (devs ! d) = ty) [0..<length devs]"

definition hold_dev :: "nat \<Rightarrow> pf_state \<Rightarrow> pf_state" where
  "hold_dev d st = st\<lparr>pf_devs := (pf_devs st)[d := (pf_devs st ! d)\<lparr>nd_refs := nd_refs (pf_devs st ! d) + 1\<rparr>]\<rparr>"

definition put_dev :: "nat \<Rightarrow> pf_state \<Rightarrow> pf_state" where
  "put_dev d st = st\<lparr>pf_devs := (pf_devs st)[d := (pf_devs st ! d)\<lparr>nd_refs := nd_refs (pf_devs st ! d) - 1\<rparr>]\<rparr>"

definition send_device :: "lana_sock \<Rightarrow> net_device list \<Rightarrow> nat option" where
  "send_device lana devs =
     (if sk_bound_dev_if lana \<noteq> 0 \<or> ls_bound lana
      then dev_get_by_index (if ls_bound lana then ls_ifindex lana else sk_bound_dev_if lana) devs
      else dev_getfirstbyhwtype ETH_P_ALL devs)"

text \<open>\<open>alloc_err\<close> is the error of the kernel if it has no buffer for the packet. Without a device
  the error path calls \<open>dev_put\<close> on a NULL pointer.\<close>

definition lana_proto_sendmsg ::
    "fb_priv fb_ops \<Rightarrow> fb_priv netrx \<Rightarrow> int option \<Rightarrow> ptr \<Rightarrow> msghdr \<Rightarrow> pf_state \<Rightarrow> (int \<times> pf_state) option" where
  "lana_proto_sendmsg ops nrx alloc_err sk msg st =
     (case mh_name msg of
        None \<Rightarrow> Some (- EDESTADDRREQ, st)
      | Some target \<Rightarrow>
          if sa_len target < sizeof_sockaddr then Some (- EINVAL, st)
          else if sa_family target \<noteq> AF_LANA then Some (- EAFNOSUPPORT, st)
          else do {
            lana \<leftarrow> socks st sk;
            d \<leftarrow> send_device lana (pf_devs st);
            let dev = pf_devs st ! d;
            let st = hold_dev d st;
            if nd_flags dev AND IFF_UP = 0 \<or> mh_len msg > nd_mtu dev then Some (- EIO, put_dev d st)
            else case alloc_err of
              Some err \<Rightarrow> Some (err, put_dev d st)
            | None \<Rightarrow>
                (let s = pkern st; skb = (new_skb (next_skb s) [] 0)\<lparr>skb_dev := Some d\<rparr>; s = s\<lparr>next_skb := Suc (next_skb s)\<rparr> in
                 case mh_bytes msg of
                   None \<Rightarrow> Some (- EFAULT, put_dev d (st\<lparr>pkern := kfree_skb skb s\<rparr>))
                 | Some bs \<Rightarrow> do {
                     let st = put_dev d st;
                     fb \<leftarrow> fbs (tabs s) (ls_fb lana);
                     (case private_data fb of
                        PflanaPriv cs \<Rightarrow> do {
                          (_, s) \<leftarrow> process_packet ops nrx
                             (write_next_idp_to_skb (skb\<lparr>skb_data := bs\<rparr>) (fb_idp fb) (pflana_port (cs ! cpu s) TYPE_EGRESS))
                             TYPE_EGRESS s;
                          Some (int (mh_len msg), st\<lparr>pkern := s\<rparr>)
                        }
                      | _ \<Rightarrow> None)
                   })
          })"

definition lana_raw_sendmsg ::
    "fb_priv fb_ops \<Rightarrow> fb_priv netrx \<Rightarrow> int option \<Rightarrow> ptr \<Rightarrow> msghdr \<Rightarrow> pf_state \<Rightarrow> (int \<times> pf_state) option" where
  "lana_raw_sendmsg ops nrx alloc_err sk msg st = lana_proto_sendmsg ops nrx alloc_err sk msg st"

text \<open>The packet at the head of a receive queue leaves the queue, and is freed once it has been read.\<close>

fun dequeue :: "ptr \<Rightarrow> (endpoint \<times> sk_buff) list \<Rightarrow> (endpoint \<times> sk_buff) list" where
  "dequeue sk [] = []"
| "dequeue sk ((ep, skb) # q) = (if ep = SockQueue sk then q else (ep, skb) # dequeue sk q)"

text \<open>\<open>recv_err\<close> is the error of \<open>skb_recv_datagram\<close> on an empty queue, \<open>copy_err\<close> the result of
  the copy to user memory. With \<open>peek\<close> (the flag \<open>MSG_PEEK\<close>) the packet stays in the queue. The
  result is the return value, the bytes user space has got and whether they are flagged as truncated.\<close>

definition lana_proto_recvmsg ::
    "int \<Rightarrow> int \<Rightarrow> bool \<Rightarrow> ptr \<Rightarrow> nat \<Rightarrow> pf_state \<Rightarrow> (int \<times> u8 list \<times> bool \<times> pf_state) option" where
  "lana_proto_recvmsg recv_err copy_err peek sk len st = do {
     x \<leftarrow> socks st sk;
     let s = pkern st;
     (case sk_receive_queue sk s of
        [] \<Rightarrow> Some (if sk_rcv_shutdown x then 0 else recv_err, [], False, st)
      | skb # _ \<Rightarrow>
          (let copied = (if len < length (skb_data skb) then len else length (skb_data skb));
               st = (if peek then st
                     else st\<lparr>pkern := kfree_skb skb (s\<lparr>outbox := dequeue sk (outbox s)\<rparr>)\<rparr>)
           in Some (if copy_err \<noteq> 0 then copy_err else int copied,
                    if copy_err \<noteq> 0 then [] else take copied (skb_data skb), len < length (skb_data skb), st)))
   }"

abbreviation (input) NET_RX_DROP :: int where "NET_RX_DROP \<equiv> 1"

definition lana_proto_backlog_rcv :: "sk_buff \<Rightarrow> 'p kern \<Rightarrow> int \<times> 'p kern" where
  "lana_proto_backlog_rcv skb s = (NET_RX_DROP, kfree_skb skb s)"

section \<open>The family\<close>

definition pflana_proto_get :: "int \<Rightarrow> pf_state \<Rightarrow> ptr option" where
  "pflana_proto_get proto st =
     (if proto < 0 \<or> proto \<ge> LANA_NPROTO then None else proto_tab st ! nat proto)"

definition new_sock :: lana_sock where
  "new_sock = \<lparr>ls_fb = 0, ls_ifindex = 0, ls_bound = False, sk_bound_dev_if = 0, sk_protocol = 0, sk_type = 0,
     sk_rcv_shutdown = False, sk_refcnt = 0\<rparr>"

text \<open>A fresh socket has no references; \<open>sock_init_data\<close> gives it its first. The socket of a successful call is its second result. \<open>init_net\<close> and \<open>admin\<close> are the
  kernel's answers on the name space and the rights of the caller.\<close>

definition lana_family_create ::
    "nat \<Rightarrow> bool \<Rightarrow> bool \<Rightarrow> int \<Rightarrow> int \<Rightarrow> pf_state \<Rightarrow> (int \<times> ptr option \<times> pf_state) option" where
  "lana_family_create online init_net admin type protocol st =
     (if \<not> init_net then Some (- EAFNOSUPPORT, None, st)
      else if protocol = LANA_PROTO_AUTO \<and> type \<noteq> SOCK_RAW then Some (- EPROTONOSUPPORT, None, st)
      else if protocol = LANA_PROTO_AUTO \<and> \<not> admin then Some (- EPERM, None, st)
      else
        let protocol = (if protocol = LANA_PROTO_AUTO then LANA_PROTO_RAW else protocol) in
        case pflana_proto_get protocol st of
          None \<Rightarrow> Some (- EPROTONOSUPPORT, None, st)
        | Some lp \<Rightarrow>
            (case kmalloc (tabs (pkern st)) of
               (None, t) \<Rightarrow> Some (- ENOMEM, None, on_ptabs t st)
             | (Some sk, t) \<Rightarrow> do {
                 (ret, st) \<leftarrow> lana_sk_init online sk (upd_sock sk new_sock (on_ptabs t st));
                 if ret < 0 then do { st \<leftarrow> sock_put sk st; Some (- ENOMEM, None, st) }
                 else do {
                   x \<leftarrow> socks st sk;
                   Some (0, Some sk, upd_sock sk (x\<lparr>sk_refcnt := 1, sk_protocol := protocol, sk_type := type, ls_bound := False\<rparr>) st)
                 }
               }))"

text \<open>\<open>proto_err\<close> is the answer of the kernel to \<open>proto_register\<close>.\<close>

definition pflana_proto_register :: "int \<Rightarrow> int \<Rightarrow> ptr option \<Rightarrow> pf_state \<Rightarrow> (int \<times> pf_state) option" where
  "pflana_proto_register proto_err proto lp st =
     (case lp of
        None \<Rightarrow> Some (- EINVAL, st)
      | Some a \<Rightarrow>
          if proto < 0 \<or> proto \<ge> LANA_NPROTO then Some (- EINVAL, st)
          else if proto_tab st ! nat proto \<noteq> None then Some (- EBUSY, st)
          else if proto_err \<noteq> 0 then Some (proto_err, st)
          else do {
            x \<leftarrow> protos st a;
            let st = st\<lparr>protos := (protos st)(a \<mapsto> x\<lparr>lp_protocol := proto\<rparr>), proto_tab := (proto_tab st)[nat proto := Some a]\<rparr>;
            Some (0, if lp_owner x \<noteq> FB_PFLANA then on_ptabs (module_get (lp_owner x) (tabs (pkern st))) st else st)
          })"

text \<open>A slot that holds another protocol is a bug (\<open>BUG_ON\<close>).\<close>

definition pflana_proto_unregister :: "ptr option \<Rightarrow> pf_state \<Rightarrow> pf_state option" where
  "pflana_proto_unregister lp st =
     (case lp of
        None \<Rightarrow> Some st
      | Some a \<Rightarrow> do {
          x \<leftarrow> protos st a;
          if lp_protocol x < 0 \<or> lp_protocol x \<ge> LANA_NPROTO then Some st
          else if proto_tab st ! nat (lp_protocol x) = None then Some st
          else if proto_tab st ! nat (lp_protocol x) \<noteq> Some a then None
          else do {
            let st = st\<lparr>proto_tab := (proto_tab st)[nat (lp_protocol x) := None]\<rparr>;
            Some (if lp_owner x \<noteq> FB_PFLANA then on_ptabs (module_put (lp_owner x) (tabs (pkern st))) st else st)
          }
        })"

abbreviation (input) lana_proto_raw_addr :: ptr where "lana_proto_raw_addr \<equiv> 1"

definition lana_proto_raw :: lana_protocol where
  "lana_proto_raw = \<lparr>lp_protocol = LANA_PROTO_RAW, lp_owner = FB_PFLANA\<rparr>"

definition init_fb_pflana :: "int \<Rightarrow> int \<Rightarrow> pf_state \<Rightarrow> (int \<times> pf_state) option" where
  "init_fb_pflana proto_err sock_err st = do {
     let st = st\<lparr>proto_tab := replicate (nat LANA_NPROTO) None\<rparr>;
     (ret, st) \<leftarrow> pflana_proto_register proto_err LANA_PROTO_RAW (Some lana_proto_raw_addr) st;
     if ret \<noteq> 0 then Some (ret, st)
     else if sock_err \<noteq> 0 then do {
       st \<leftarrow> pflana_proto_unregister (Some lana_proto_raw_addr) st;
       Some (sock_err, st)
     } else Some (0, st\<lparr>pf_family := True\<rparr>)
   }"

fun unregister_slots :: "nat list \<Rightarrow> pf_state \<Rightarrow> pf_state option" where
  "unregister_slots [] st = Some st"
| "unregister_slots (i # is) st = do { st \<leftarrow> pflana_proto_unregister (proto_tab st ! i) st; unregister_slots is st }"

definition cleanup_fb_pflana :: "pf_state \<Rightarrow> pf_state option" where
  "cleanup_fb_pflana st = unregister_slots [0..<nat LANA_NPROTO] (st\<lparr>pf_family := False\<rparr>)"

definition init_fb_pflana_module :: "int \<Rightarrow> int \<Rightarrow> pf_state \<Rightarrow> (int \<times> pf_state) option" where
  "init_fb_pflana_module proto_err sock_err st = init_fb_pflana proto_err sock_err st"

definition cleanup_fb_pflana_module :: "pf_state \<Rightarrow> pf_state option" where
  "cleanup_fb_pflana_module st = cleanup_fb_pflana st"

section \<open>The life of a socket\<close>

lemma on_ptabs_simps [simp]:
  "pkern (on_ptabs t st) = (pkern st)\<lparr>tabs := t\<rparr>" "socks (on_ptabs t st) = socks st" "pf_devs (on_ptabs t st) = pf_devs st"
  "proto_tab (on_ptabs t st) = proto_tab st" "protos (on_ptabs t st) = protos st" "pf_family (on_ptabs t st) = pf_family st"
  by (simp_all add: on_ptabs_def)

lemma upd_sock_simps [simp]:
  "pkern (upd_sock sk x st) = pkern st" "socks (upd_sock sk x st) = (socks st)(sk \<mapsto> x)" "pf_devs (upd_sock sk x st) = pf_devs st"
  "proto_tab (upd_sock sk x st) = proto_tab st" "protos (upd_sock sk x st) = protos st"
  "pf_family (upd_sock sk x st) = pf_family st"
  by (simp_all add: upd_sock_def)

text \<open>The name of the block of a socket.\<close>

abbreviation sock_block_name :: "ptr \<Rightarrow> cstr" where
  "sock_block_name sk \<equiv> take 15 (ptr_text sk)"

lemma get_bound_unbound:
  assumes "fbs t p = Some fb" "private_data fb = PflanaPriv cs" "pflana_port (cs ! c) dir = IDP_UNKNOWN" "fblmap t IDP_UNKNOWN = None"
  shows "get_bound_fblock c p dir t = Some (None, t)"
  using assms by (simp add: get_bound_fblock_def search_fblock_def search_fblock_rcu_def)

lemma lana_sk_init_ok:
  assumes "block_ctor FB_PFLANA False (pflana_priv online None) (sock_block_name sk) (tabs (pkern st)) = Some (Some p, t)"
    and "fbs (module_get FB_PFLANA t) p = Some (new_block FB_PFLANA (pflana_priv online None) name idp)" "socks st sk = Some x"
  shows "lana_sk_init online sk st =
    Some (0, upd_sock sk (x\<lparr>ls_fb := p\<rparr>)
      (on_ptabs (upd_fb p (new_block FB_PFLANA (pflana_priv online (Some sk)) name idp) (module_get FB_PFLANA t)) st))"
  using assms block_ctor_cut[of FB_PFLANA False "pflana_priv online None" "ptr_text sk" "tabs (pkern st)"]
  by (simp add: lana_sk_init_def fb_pflana_build_fblock_def percpu_ctor_def pflana_priv_def map_replicate)

lemma lana_sk_free_unbound:
  assumes "socks st sk = Some x" "tabs (pkern st) = t"
    and "fbs t (ls_fb x) = Some (new_block FB_PFLANA (pflana_priv online w) name idp)" "cpu (pkern st) < online"
    and "fblmap t IDP_UNKNOWN = None" "destroy_block ops FB_PFLANA (ls_fb x) t = Some t'"
  shows "lana_sk_free ops sk st = Some (on_ptabs t' st)"
proof -
  have "get_bound_fblock (cpu (pkern st)) (ls_fb x) dir t = Some (None, t)" for dir
    by (rule get_bound_unbound[OF assms(3), where cs = "replicate online \<lparr>pflana_port = (\<lambda>_. IDP_UNKNOWN), sock_self = w\<rparr>"])
      (use assms(4,5) in \<open>simp_all add: pflana_priv_def\<close>)
  then show ?thesis using assms(1,2,6) by (simp add: lana_sk_free_def fb_pflana_destroy_fblock_def)
qed

abbreviation (input) opened_sock :: "ptr \<Rightarrow> int \<Rightarrow> lana_sock" where
  "opened_sock p type \<equiv> new_sock\<lparr>ls_fb := p, sk_refcnt := 1, sk_protocol := LANA_PROTO_RAW, sk_type := type\<rparr>"

lemma socket_opened:
  assumes "tabs (pkern st) = s" "protocol = LANA_PROTO_RAW \<or> protocol = LANA_PROTO_AUTO \<and> type = SOCK_RAW \<and> admin"
    and "pflana_proto_get LANA_PROTO_RAW st \<noteq> None" "heap_inv s" "names_inv s" "registry_inv s" "kmem s = []"
    and "unat (idp_counter s) < 2 ^ 32 - 1" "sk = slab_addr (heap_top s)" "p = slab_addr (Suc (heap_top s))"
    and "critbit_get (elem_name_at s) (idpmap s) (sock_block_name sk) = None" "i = ucast (idp_counter s + 1)"
  obtains t t2 where
    "lana_family_create online True admin type protocol st = Some (0, Some sk, upd_sock sk (opened_sock p type)
       (on_ptabs (upd_fb p (new_block FB_PFLANA (pflana_priv online (Some sk)) (sock_block_name sk) i) t) st))"
    "fblmap t = (fblmap s)(i \<mapsto> p)" "fblmap t IDP_UNKNOWN = None"
    "destroy_block ops FB_PFLANA p (upd_fb p (new_block FB_PFLANA (pflana_priv online (Some sk)) (sock_block_name sk) i) t) = Some t2"
    "fbs t2 = fbs s" "fblmap t2 = fblmap s" "idpmap t2 = idpmap s" "modrefs t2 = modrefs s"
proof -
  let ?s = "s\<lparr>heap_top := Suc (heap_top s)\<rparr>" and ?n = "sock_block_name sk"
  let ?fb = "new_block FB_PFLANA (pflana_priv online (Some sk)) ?n i"
  have inv: "heap_inv ?s" "names_inv ?s" "registry_inv ?s" "kmem ?s = []" "unat (idp_counter ?s) < 2 ^ 32 - 1"
    using assms(7,8) heap_invI[OF assms(4), of ?s] names_inv_cong[of ?s s] assms(5) registry_inv_same[OF assms(6), of ?s]
    by simp_all
  have n: "is_cstr ?n" "length ?n < FBNAMSIZ" "critbit_get (elem_name_at ?s) (idpmap ?s) ?n = None"
    using ptr_text_name(1)[of 15 sk] ptr_text_name(2)[of sk] assms(11) by (simp_all add: FBNAMSIZ_def)
  have not_core: "FB_PFLANA \<noteq> LANA_CORE" by simp
  have eqs: "slab_addr (heap_top ?s) = p" "ucast (idp_counter ?s + 1) = i" "fbs ?s = fbs s" "fblmap ?s = fblmap s"
    "idpmap ?s = idpmap s" "modrefs ?s = modrefs s"
    using assms(10,12) by simp_all
  obtain t t2 where t: "block_ctor FB_PFLANA False (pflana_priv online None) ?n ?s = Some (Some p, t)"
    "fbs (module_get FB_PFLANA t) p = Some (new_block FB_PFLANA (pflana_priv online None) ?n i)"
    "fblmap (module_get FB_PFLANA t) = (fblmap s)(i \<mapsto> p)" "registry_inv (module_get FB_PFLANA t)"
    "destroy_block ops FB_PFLANA p (upd_fb p ?fb (module_get FB_PFLANA t)) = Some t2"
    "fbs t2 = fbs s" "fblmap t2 = fblmap s" "idpmap t2 = idpmap s" "modrefs t2 = modrefs s"
    by (rule block_life[OF inv n not_core, unfolded eqs, where priv = "pflana_priv online None"
          and v = "pflana_priv online (Some sk)" and ops = ops])
      (rule that; assumption)
  let ?t = "upd_fb p ?fb (module_get FB_PFLANA t)"
  let ?st = "upd_sock sk new_sock (on_ptabs ?s st)"
  have "lana_sk_init online sk ?st = Some (0, upd_sock sk (new_sock\<lparr>ls_fb := p\<rparr>) (on_ptabs ?t ?st))"
    by (rule lana_sk_init_ok) (use t(1,2) in simp_all)
  then have create: "lana_family_create online True admin type protocol st =
      Some (0, Some sk, upd_sock sk (opened_sock p type) (on_ptabs ?t st))"
    using assms(1,2,3,7,9) by (auto simp: lana_family_create_def kmalloc_Nil upd_sock_def on_ptabs_def new_sock_def)
  show thesis by (rule that[OF create t(3) registry_unknown_idp[OF t(4)] t(5-9)])
qed

text \<open>C28: The life of a socket's block. Opening a raw socket gives the socket a block of its own, registered
  under the address of the socket (cut to 15 digits), whose packets are queued at this very
  socket on every CPU. Taking the unbound socket's block down again gives back all blocks, the name tree,
  the idp table and the reference counts of all modules.\<close>
theorem socket_block_life:
  assumes "tabs (pkern st) = s" "protocol = LANA_PROTO_RAW \<or> protocol = LANA_PROTO_AUTO \<and> type = SOCK_RAW \<and> admin"
    and "pflana_proto_get LANA_PROTO_RAW st \<noteq> None" "cpu (pkern st) < online"
    and "heap_inv s" "names_inv s" "registry_inv s" "kmem s = []" "unat (idp_counter s) < 2 ^ 32 - 1"
    and "critbit_get (elem_name_at s) (idpmap s) (sock_block_name (slab_addr (heap_top s))) = None"
  shows "\<exists>sk st1 st2 x t1 fb cs. lana_family_create online True admin type protocol st = Some (0, Some sk, st1) \<and>
     socks st1 sk = Some x \<and> sk_refcnt x = 1 \<and> tabs (pkern st1) = t1 \<and>
     fblmap t1 (fb_idp fb) = Some (ls_fb x) \<and> fbs t1 (ls_fb x) = Some fb \<and> fb_name fb = sock_block_name sk \<and>
     private_data fb = PflanaPriv cs \<and> length cs = online \<and> (\<forall>c \<in> set cs. sock_self c = Some sk) \<and>
     lana_sk_free ops sk st1 = Some st2 \<and> fbs (tabs (pkern st2)) = fbs s \<and> fblmap (tabs (pkern st2)) = fblmap s \<and>
     idpmap (tabs (pkern st2)) = idpmap s \<and> modrefs (tabs (pkern st2)) = modrefs s"
proof -
  let ?sk = "slab_addr (heap_top s)" and ?p = "slab_addr (Suc (heap_top s))" and ?i = "ucast (idp_counter s + 1) :: idp_t"
  let ?fb = "new_block FB_PFLANA (pflana_priv online (Some ?sk)) (sock_block_name ?sk) ?i" and ?x = "opened_sock ?p type"
  from socket_opened[OF assms(1,2,3,5-9) refl refl assms(10) refl, of online ops] obtain t t2 where
    t: "lana_family_create online True admin type protocol st = Some (0, Some ?sk, upd_sock ?sk ?x (on_ptabs (upd_fb ?p ?fb t) st))"
    "fblmap t = (fblmap s)(?i \<mapsto> ?p)" "fblmap t IDP_UNKNOWN = None" "destroy_block ops FB_PFLANA ?p (upd_fb ?p ?fb t) = Some t2"
    "fbs t2 = fbs s" "fblmap t2 = fblmap s" "idpmap t2 = idpmap s" "modrefs t2 = modrefs s" .
  let ?st1 = "upd_sock ?sk ?x (on_ptabs (upd_fb ?p ?fb t) st)"
  have free: "lana_sk_free ops ?sk ?st1 = Some (on_ptabs t2 ?st1)"
    by (rule lana_sk_free_unbound[where x = ?x and t = "upd_fb ?p ?fb t" and online = online and w = "Some ?sk"
          and name = "sock_block_name ?sk" and idp = ?i])
      (use t(3,4) assms(4) in simp_all)
  show ?thesis
    using t(1,2,5-8) free
    by (intro exI[of _ ?sk] exI[of _ ?st1] exI[of _ "on_ptabs t2 ?st1"] exI[of _ ?x] exI[of _ "upd_fb ?p ?fb t"] exI[of _ ?fb]
        exI[of _ "replicate online \<lparr>pflana_port = (\<lambda>_. IDP_UNKNOWN), sock_self = Some ?sk\<rparr>"])
      (simp add: new_sock_def pflana_priv_def)
qed

definition pf_boot :: pf_state where
  "pf_boot =
     \<lparr>pkern = \<lparr>tabs = lana_boot, cpu = 0, iostats = [], emdiscs = [], freed = [], outbox = [], next_skb = 0\<rparr>,
      socks = Map.empty, pf_devs = [], proto_tab = [None, Some lana_proto_raw_addr],
      protos = [lana_proto_raw_addr \<mapsto> lana_proto_raw], pf_family = True\<rparr>"

lemma pf_boot_simps [simp]:
  "tabs (pkern pf_boot) = lana_boot" "cpu (pkern pf_boot) = 0" "socks pf_boot = Map.empty"
  "pflana_proto_get LANA_PROTO_RAW pf_boot = Some lana_proto_raw_addr"
  by (simp_all add: pf_boot_def pflana_proto_get_def LANA_NPROTO_def)

lemma pf_boot_tables:
  "heap_inv (lana_boot :: fb_priv lana)" "names_inv (lana_boot :: fb_priv lana)" "registry_inv (lana_boot :: fb_priv lana)"
  "kmem (lana_boot :: fb_priv lana) = []" "unat (idp_counter (lana_boot :: fb_priv lana)) < 2 ^ 32 - 1"
  "critbit_get (elem_name_at (lana_boot :: fb_priv lana)) (idpmap lana_boot) u = None"
  by (rule lana_boot_inv)+ (simp_all add: lana_boot_def critbit_get_def)

theorem socket_block_life_witness:
  "\<exists>sk st1 st2. lana_family_create 2 True True SOCK_RAW LANA_PROTO_AUTO pf_boot = Some (0, Some sk, st1) \<and>
     lana_sk_free idle_ops sk st1 = Some st2 \<and> fbs (tabs (pkern st2)) = Map.empty"
  using socket_block_life[of pf_boot lana_boot LANA_PROTO_AUTO SOCK_RAW True 2 idle_ops] pf_boot_tables
  by (auto simp: lana_boot_def)

text \<open>C29: Closing a socket uses it after it is gone. A socket that \<open>lana_family_create\<close> has opened has one
  reference, that of its file. \<open>lana_raw_release\<close> gives this reference back before it takes the block
  of the socket down, for which it reads the socket: it works on freed memory whenever no other reference is left.\<close>
theorem close_uses_freed_socket:
  assumes "lana_family_create online init_net admin type protocol st = Some (0, Some sk, st')"
  shows "lana_raw_release ops (Some sk) st' = None"
proof -
  from assms obtain x where "socks st' sk = Some x" "sk_refcnt x = 1"
    by (auto simp: lana_family_create_def Let_def bind_eq_Some_conv split: if_splits option.splits prod.splits)
  then show ?thesis by (simp add: lana_raw_release_def lana_proto_close_def sock_put_def lana_sk_free_def)
qed

theorem close_uses_freed_socket_witness:
  "\<exists>sk st1. lana_family_create 2 True True SOCK_RAW LANA_PROTO_RAW pf_boot = Some (0, Some sk, st1) \<and>
     lana_raw_release idle_ops (Some sk) st1 = None"
proof -
  have proto: "pflana_proto_get LANA_PROTO_RAW pf_boot \<noteq> None" by simp
  obtain sk st1 where "lana_family_create 2 True True SOCK_RAW LANA_PROTO_RAW pf_boot = Some (0, Some sk, st1)"
    by (rule socket_opened[OF pf_boot_simps(1) disjI1[OF refl] proto pf_boot_tables(1-5) refl refl pf_boot_tables(6) refl,
          where type = SOCK_RAW and admin = True and online = 2 and ops = idle_ops])
  then show ?thesis using close_uses_freed_socket by blast
qed

end
