(* ===== verification/Fb_Modules.thy ===== *)
theory Fb_Modules
  imports Fb_Dummy Fb_Tee Fb_Counter Fb_Bpf Fb_Eth Fb_Pflana
begin

text \<open>The modules together: the functions behind the pointers \<open>event_rx\<close>,
  \<open>netfb_rx\<close> and those of the factories, selected by module, and the proofs that the modules
  meet the interfaces \<open>event_handlers\<close> of the registry and \<open>packet_handlers\<close> of the
  engine. Two parameters stand for the kernel: \<open>run\<close>, the interpreter of filter programs, and
  \<open>accepts\<close>, the answer of a receive queue to a packet. The engine loses no packet as long as
  the queues take them (\<open>queues_take\<close>); a packet a queue refuses is not freed by anyone.\<close>

section \<open>Function pointers\<close>

definition lana_event :: "fb_module \<Rightarrow> fblock_event \<Rightarrow> fb_priv \<Rightarrow> (int \<times> fb_priv) option" where
  "lana_event m e v = (case m of
      FB_DUMMY \<Rightarrow> fb_dummy_event e v
    | FB_TEE \<Rightarrow> fb_tee_event e v
    | FB_COUNTER \<Rightarrow> fb_counter_event e v
    | FB_BPF \<Rightarrow> fb_bpf_event e v
    | FB_ETH \<Rightarrow> fb_eth_event e v
    | FB_PFLANA \<Rightarrow> fb_pflana_event e v
    | _ \<Rightarrow> None)"

definition lana_dtor :: "fb_module \<Rightarrow> fb_priv fblock \<Rightarrow> fb_priv lana \<Rightarrow> fb_priv lana" where
  "lana_dtor m fb s = (case m of
      FB_DUMMY \<Rightarrow> fb_dummy_dtor fb s
    | FB_TEE \<Rightarrow> fb_tee_dtor fb s
    | FB_COUNTER \<Rightarrow> fb_counter_dtor fb s
    | FB_BPF \<Rightarrow> fb_bpf_dtor fb s
    | _ \<Rightarrow> s)"

definition lana_dtor_outside_rcu :: "fb_module \<Rightarrow> fb_priv \<Rightarrow> fb_priv" where
  "lana_dtor_outside_rcu m v = (case m of FB_BPF \<Rightarrow> fb_bpf_dtor_outside_rcu v | _ \<Rightarrow> v)"

definition lana_ops :: "fb_priv fb_ops" where
  "lana_ops = \<lparr>op_event = lana_event, op_dtor_outside_rcu = lana_dtor_outside_rcu, op_dtor = lana_dtor\<rparr>"

abbreviation queues_take :: "ptr \<Rightarrow> fb_priv kern \<Rightarrow> bool" where
  "queues_take \<equiv> \<lambda>_ _. True"

definition lana_netrx ::
    "(sock_filter list \<Rightarrow> sk_buff \<Rightarrow> nat) \<Rightarrow> (ptr \<Rightarrow> fb_priv kern \<Rightarrow> bool) \<Rightarrow> fb_priv netrx" where
  "lana_netrx run accepts m p skb dir s = (case m of
      FB_DUMMY \<Rightarrow> fb_dummy_netrx p skb dir s
    | FB_TEE \<Rightarrow> fb_tee_netrx p skb dir s
    | FB_COUNTER \<Rightarrow> fb_counter_netrx p skb dir s
    | FB_BPF \<Rightarrow> fb_bpf_netrx run p skb dir s
    | FB_ETH \<Rightarrow> fb_eth_netrx p skb dir s
    | FB_PFLANA \<Rightarrow> fb_pflana_netrx accepts p skb dir s
    | _ \<Rightarrow> None)"

definition lana_ctor :: "nat \<Rightarrow> fb_module \<Rightarrow> cstr \<Rightarrow> fb_priv lana \<Rightarrow> (ptr option \<times> fb_priv lana) option" where
  "lana_ctor online m name s = (case m of
      FB_DUMMY \<Rightarrow> fb_dummy_ctor online name s
    | FB_TEE \<Rightarrow> fb_tee_ctor online name s
    | FB_COUNTER \<Rightarrow> fb_counter_ctor online name s
    | FB_BPF \<Rightarrow> fb_bpf_ctor online name s
    | _ \<Rightarrow> Some (None, s))"

section \<open>Bind events\<close>

fun lana_ready :: "fb_module \<Rightarrow> fb_priv \<Rightarrow> bool" where
  "lana_ready FB_DUMMY (DummyPriv cs) = uniform dummy_port cs"
| "lana_ready FB_TEE (TeePriv cs) = uniform tee_ports cs"
| "lana_ready FB_COUNTER (CounterPriv cs) = uniform counter_port cs"
| "lana_ready FB_BPF (BpfPriv cs) = uniform bpf_port cs"
| "lana_ready FB_ETH (EthPriv cs) = uniform eth_port cs"
| "lana_ready FB_PFLANA (PflanaPriv cs) = uniform pflana_port cs"
| "lana_ready _ _ = False"

fun lana_avoids :: "fb_module \<Rightarrow> fb_priv \<Rightarrow> idp_t \<Rightarrow> bool" where
  "lana_avoids FB_TEE (TeePriv cs) i = (\<forall>c \<in> set cs. \<forall>d. tee_port c d \<noteq> i)"
| "lana_avoids _ _ i = True"

lemma lana_readyE:
  assumes "lana_ready h v"
  obtains (dummy) cs where "h = FB_DUMMY" "v = DummyPriv cs" "uniform dummy_port cs"
    | (tee) cs where "h = FB_TEE" "v = TeePriv cs" "uniform tee_ports cs"
    | (counter) cs where "h = FB_COUNTER" "v = CounterPriv cs" "uniform counter_port cs"
    | (bpf) cs where "h = FB_BPF" "v = BpfPriv cs" "uniform bpf_port cs"
    | (eth) cs where "h = FB_ETH" "v = EthPriv cs" "uniform eth_port cs"
    | (pflana) cs where "h = FB_PFLANA" "v = PflanaPriv cs" "uniform pflana_port cs"
  using assms by (cases "(h, v)" rule: lana_ready.cases) auto

text \<open>The events of the modules with two ports, as those of their port arrays.\<close>

lemmas port_events = lana_ops_def lana_event_def fb_dummy_event_ports fb_counter_event_ports
  fb_bpf_event_ports fb_eth_event_ports fb_pflana_event_ports

lemmas event_simps_off = fb_dummy_event.simps fb_tee_event.simps fb_counter_event.simps fb_bpf_event.simps
  fb_eth_event.simps fb_pflana_event.simps

interpretation ev: event_handlers lana_ops lana_ready lana_avoids
proof unfold_locales
  fix h v d i assume "lana_ready h v"
  then show "\<exists>r v'. op_event lana_ops h (FBLOCK_BIND_IDP d i) v = Some (r, v') \<and> lana_ready h v' \<and> (r = NOTIFY_OK \<or> v' = v)"
  proof (cases rule: lana_readyE)
    case (dummy cs)
    show ?thesis by (rule dummy.bind_event[OF dummy(3), of d i]) (auto simp: dummy port_events simp del: event_simps_off)
  next
    case (tee cs)
    show ?thesis by (rule tee_bind[OF tee(3), of d i]) (auto simp: tee port_events simp del: event_simps_off)
  next
    case (counter cs)
    show ?thesis by (rule counter.bind_event[OF counter(3), of d i]) (auto simp: counter port_events simp del: event_simps_off)
  next
    case (bpf cs)
    show ?thesis by (rule bpf.bind_event[OF bpf(3), of d i]) (auto simp: bpf port_events simp del: event_simps_off)
  next
    case (eth cs)
    show ?thesis by (rule eth.bind_event[OF eth(3), of d i]) (auto simp: eth port_events simp del: event_simps_off)
  next
    case (pflana cs)
    show ?thesis by (rule pflana.bind_event[OF pflana(3), of d i]) (auto simp: pflana port_events simp del: event_simps_off)
  qed
next
  fix h v i d v'
  assume "lana_ready h v" and av: "lana_avoids h v i"
    and b: "op_event lana_ops h (FBLOCK_BIND_IDP d i) v = Some (NOTIFY_OK, v')"
  then show "op_event lana_ops h (FBLOCK_UNBIND_IDP d i) v' = Some (NOTIFY_OK, v)"
  proof (cases rule: lana_readyE)
    case (dummy cs)
    then show ?thesis using b dummy.unbind_event[of d i cs]
      by (auto simp: port_events simp del: event_simps_off split: prod.splits)
  next
    case (tee cs)
    then show ?thesis using b av tee_unbind by (simp add: lana_ops_def lana_event_def)
  next
    case (counter cs)
    then show ?thesis using b counter.unbind_event[of d i cs]
      by (auto simp: port_events simp del: event_simps_off split: prod.splits)
  next
    case (bpf cs)
    then show ?thesis using b bpf.unbind_event[of d i cs]
      by (auto simp: port_events simp del: event_simps_off split: prod.splits)
  next
    case (eth cs)
    then show ?thesis using b eth.unbind_event[of d i cs]
      by (auto simp: port_events simp del: event_simps_off split: prod.splits)
  next
    case (pflana cs)
    then show ?thesis using b pflana.unbind_event[of d i cs]
      by (auto simp: port_events simp del: event_simps_off split: prod.splits)
  qed
qed

section \<open>Packets\<close>

text \<open>The ports of a registered block on CPU \<open>c\<close> lead to blocks of lower rank: a rank that
  works for all blocks exists exactly when the bindings form no cycle. Where a packet enters an
  Ethernet block or the block of a socket it leaves the stack, so that block's ports are free.\<close>

abbreviation descends :: "(idp_t \<Rightarrow> nat) \<Rightarrow> nat \<Rightarrow> idp_t \<Rightarrow> bool" where
  "descends rank r i \<equiv> i \<noteq> 0 \<longrightarrow> rank i < r"

fun ports_ok :: "(idp_t \<Rightarrow> nat) \<Rightarrow> nat \<Rightarrow> nat \<Rightarrow> fb_module \<Rightarrow> fb_priv \<Rightarrow> bool" where
  "ports_ok rank r c FB_DUMMY (DummyPriv cs) = (c < length cs \<and> (\<forall>d. descends rank r (dummy_port (cs ! c) d)))"
| "ports_ok rank r c FB_TEE (TeePriv cs) =
     (c < length cs \<and> (\<forall>d. descends rank r (tee_port (cs ! c) d)) \<and> descends rank r (port_clone (cs ! c)))"
| "ports_ok rank r c FB_COUNTER (CounterPriv cs) = (c < length cs \<and> (\<forall>d. descends rank r (counter_port (cs ! c) d)))"
| "ports_ok rank r c FB_BPF (BpfPriv cs) = (c < length cs \<and> (\<forall>d. descends rank r (bpf_port (cs ! c) d)))"
| "ports_ok rank r c FB_ETH (EthPriv cs) = (c < length cs)"
| "ports_ok rank r c FB_PFLANA (PflanaPriv cs) = (c < length cs \<and> sock_self (cs ! c) \<noteq> None)"
| "ports_ok rank r c _ _ = False"

lemma ports_okE:
  assumes "ports_ok rank r c m v"
  obtains (dummy) cs where "m = FB_DUMMY" "v = DummyPriv cs"
    | (tee) cs where "m = FB_TEE" "v = TeePriv cs"
    | (counter) cs where "m = FB_COUNTER" "v = CounterPriv cs"
    | (bpf) cs where "m = FB_BPF" "v = BpfPriv cs"
    | (eth) cs where "m = FB_ETH" "v = EthPriv cs"
    | (pflana) cs where "m = FB_PFLANA" "v = PflanaPriv cs"
  using assms by (cases "(rank, r, c, m, v)" rule: ports_ok.cases) auto

lemma ports_ok_count:
  "ports_ok rank r c FB_COUNTER (CounterPriv cs) \<Longrightarrow>
     ports_ok rank r c FB_COUNTER (CounterPriv (cs[k := fb_counter_count n (cs ! k)]))"
  by (cases "k = c") (simp_all add: fb_counter_count_def)

definition acyclic_ports :: "(idp_t \<Rightarrow> nat) \<Rightarrow> nat \<Rightarrow> fb_priv lana \<Rightarrow> bool" where
  "acyclic_ports rank c t \<longleftrightarrow>
     (\<forall>i p. fblmap t i = Some p \<longrightarrow>
        (\<exists>fb. fbs t p = Some fb \<and> 0 < refcnt fb \<and> ports_ok rank (rank i) c (netfb_rx fb) (private_data fb)))"

lemma acyclic_portsD:
  assumes "acyclic_ports rank c t" "fblmap t i = Some p"
  obtains fb where "fbs t p = Some fb" "0 < refcnt fb" "ports_ok rank (rank i) c (netfb_rx fb) (private_data fb)"
  using assms unfolding acyclic_ports_def by blast

lemma acyclic_ports_upd:
  assumes inv: "acyclic_ports rank c t" and fb: "fbs t p = Some fb"
    and t': "fblmap t' = fblmap t" "fbs t' = (fbs t)(p \<mapsto> fb')" "refcnt fb' = refcnt fb" "netfb_rx fb' = netfb_rx fb"
    and keep: "\<And>r. ports_ok rank r c (netfb_rx fb) (private_data fb) \<Longrightarrow>
                     ports_ok rank r c (netfb_rx fb) (private_data fb')"
  shows "acyclic_ports rank c t'"
  unfolding acyclic_ports_def
proof (intro allI impI)
  fix i q assume "fblmap t' i = Some q"
  with t'(1) have "fblmap t i = Some q" by simp
  from acyclic_portsD[OF inv this] obtain fq where
    q: "fbs t q = Some fq" "0 < refcnt fq" "ports_ok rank (rank i) c (netfb_rx fq) (private_data fq)" .
  show "\<exists>fb. fbs t' q = Some fb \<and> 0 < refcnt fb \<and> ports_ok rank (rank i) c (netfb_rx fb) (private_data fb)"
    using q fb t' keep by (cases "q = p") auto
qed

text \<open>How a block may end its work on a packet: free it, send it, or hand it on.\<close>

lemma step_ok_same [simp]:
  "fblock_step_ok rank skb (s\<lparr>tabs := t\<rparr>) ret skb' s' cl = fblock_step_ok rank skb s ret skb' s' cl"
  "fblock_step_ok rank skb s ret skb' (s'\<lparr>tabs := t\<rparr>) cl = fblock_step_ok rank skb s ret skb' s' cl"
  "fblock_step_ok rank skb s ret skb' (upd_stats f s') cl = fblock_step_ok rank skb s ret skb' s' cl"
  by (simp_all add: fblock_step_ok_def engine_update_defs)

lemma kfree_skb_keeps [simp]:
  "tabs (kfree_skb skb s) = tabs s" "cpu (kfree_skb skb s) = cpu s" "emdiscs (kfree_skb skb s) = emdiscs s"
  "next_skb (kfree_skb skb s) = next_skb s"
  by (simp_all add: kfree_skb_def)

lemma step_drop:
  "cpu s < length (emdiscs s) \<Longrightarrow> skb_id skb' = skb_id skb \<Longrightarrow>
     fblock_step_ok rank skb s PPE_DROPPED skb2 (kfree_skb skb' s) []"
  by (simp add: fblock_step_ok_def)

lemma step_xmit:
  "cpu s < length (emdiscs s) \<Longrightarrow> skb_id skb' = skb_id skb \<Longrightarrow>
     fblock_step_ok rank skb s PPE_DROPPED skb2 (dev_queue_xmit d skb' s) []"
  by (simp add: fblock_step_ok_def dev_queue_xmit_def gone_def)

lemma step_queue:
  "cpu s < length (emdiscs s) \<Longrightarrow> skb_id skb' = skb_id skb \<Longrightarrow>
     fblock_step_ok rank skb s PPE_DROPPED skb2 (sock_queue_rcv_skb queues_take sk skb' s) []"
  by (simp add: fblock_step_ok_def sock_queue_rcv_skb_def gone_def)

lemma step_forward:
  "cpu s < length (emdiscs s) \<Longrightarrow> port \<noteq> IDP_UNKNOWN \<Longrightarrow> descends rank (rank (read_next_idp_from_skb skb)) port \<Longrightarrow>
     fblock_step_ok rank skb s PPE_SUCCESS (write_next_idp_to_skb skb i port) s []"
  by (simp add: fblock_step_ok_def IDP_UNKNOWN_def)

text \<open>What every receive function of the family guarantees: it gives a result, changes no table but
  the private data of its block, and keeps the ports.\<close>

definition netrx_ok ::
    "(sock_filter list \<Rightarrow> sk_buff \<Rightarrow> nat) \<Rightarrow> (idp_t \<Rightarrow> nat) \<Rightarrow> ptr \<Rightarrow> fb_priv fblock \<Rightarrow> sk_buff \<Rightarrow> path_type \<Rightarrow>
     fb_priv kern \<Rightarrow> bool" where
  "netrx_ok run rank p fb skb dir s \<longleftrightarrow>
     (\<exists>ret skb' dir' s' cl v. lana_netrx run queues_take (netfb_rx fb) p skb dir s = Some (ret, skb', dir', s') \<and>
        fblmap (tabs s') = fblmap (tabs s) \<and> fbs (tabs s') = (fbs (tabs s))(p \<mapsto> fb\<lparr>private_data := v\<rparr>) \<and>
        (\<forall>r. ports_ok rank r (cpu s) (netfb_rx fb) (private_data fb) \<longrightarrow> ports_ok rank r (cpu s) (netfb_rx fb) v) \<and>
        fblock_step_ok rank skb s ret skb' s' cl)"

lemma netrx_ok_same:
  assumes "lana_netrx run queues_take (netfb_rx fb) p skb dir s = Some (ret, skb', dir', s')" "tabs s' = tabs s"
    "fbs (tabs s) p = Some fb" "fblock_step_ok rank skb s ret skb' s' cl"
  shows "netrx_ok run rank p fb skb dir s"
  unfolding netrx_ok_def using assms
  by (intro exI[of _ ret] exI[of _ skb'] exI[of _ dir'] exI[of _ s'] exI[of _ cl] exI[of _ "private_data fb"])
    (simp add: fun_upd_idem)

lemma dummy_netrx_ok:
  assumes fb: "fbs (tabs s) p = Some fb" and em: "cpu s < length (emdiscs s)"
    and m: "netfb_rx fb = FB_DUMMY" "private_data fb = DummyPriv cs"
    and ok: "ports_ok rank (rank (read_next_idp_from_skb skb)) (cpu s) FB_DUMMY (DummyPriv cs)"
  shows "netrx_ok run rank p fb skb dir s"
proof (cases "dummy_port (cs ! cpu s) dir = IDP_UNKNOWN")
  case True
  let ?skb = "write_next_idp_to_skb skb (fb_idp fb) IDP_UNKNOWN"
  from True have "lana_netrx run queues_take (netfb_rx fb) p skb dir s = Some (PPE_DROPPED, ?skb, dir, kfree_skb ?skb s)"
    using fb m by (simp add: lana_netrx_def fb_dummy_netrx_def Let_def)
  then show ?thesis by (rule netrx_ok_same[OF _ _ fb step_drop[OF em]]) simp_all
next
  case False
  show ?thesis
    by (rule netrx_ok_same[OF _ _ fb step_forward[OF em False]])
      (use False fb m ok in \<open>simp_all add: lana_netrx_def fb_dummy_netrx_def\<close>)
qed

lemma bpf_netrx_ok:
  assumes fb: "fbs (tabs s) p = Some fb" and em: "cpu s < length (emdiscs s)"
    and m: "netfb_rx fb = FB_BPF" "private_data fb = BpfPriv cs"
    and ok: "ports_ok rank (rank (read_next_idp_from_skb skb)) (cpu s) FB_BPF (BpfPriv cs)"
  shows "netrx_ok run rank p fb skb dir s"
proof -
  let ?c = "cs ! cpu s"
  let ?skb = "write_next_idp_to_skb skb (fb_idp fb) (bpf_port ?c dir)"
  consider (rejected) prog where "bpf_filter ?c = Some prog" "run prog skb < length (skb_data skb)"
    | (unbound) "\<forall>prog. bpf_filter ?c = Some prog \<longrightarrow> length (skb_data skb) \<le> run prog skb" "bpf_port ?c dir = IDP_UNKNOWN"
    | (bound) "\<forall>prog. bpf_filter ?c = Some prog \<longrightarrow> length (skb_data skb) \<le> run prog skb" "bpf_port ?c dir \<noteq> IDP_UNKNOWN"
    by (metis not_less)
  then show ?thesis
  proof cases
    case rejected
    then have "lana_netrx run queues_take (netfb_rx fb) p skb dir s = Some (PPE_DROPPED, skb, dir, kfree_skb skb s)"
      using fb m by (simp add: lana_netrx_def fb_bpf_netrx_def)
    then show ?thesis by (rule netrx_ok_same[OF _ _ fb step_drop[OF em]]) simp_all
  next
    case unbound
    then have "lana_netrx run queues_take (netfb_rx fb) p skb dir s = Some (PPE_DROPPED, ?skb, dir, kfree_skb ?skb s)"
      using fb m by (cases "bpf_filter ?c") (simp_all add: lana_netrx_def fb_bpf_netrx_def Let_def)
    then show ?thesis by (rule netrx_ok_same[OF _ _ fb step_drop[OF em]]) simp_all
  next
    case bound
    then have "lana_netrx run queues_take (netfb_rx fb) p skb dir s = Some (PPE_SUCCESS, ?skb, dir, s)"
      using fb m by (cases "bpf_filter ?c") (simp_all add: lana_netrx_def fb_bpf_netrx_def Let_def)
    then show ?thesis by (rule netrx_ok_same[OF _ _ fb step_forward[OF em bound(2)]]) (use ok in simp_all)
  qed
qed

lemma eth_netrx_ok:
  assumes fb: "fbs (tabs s) p = Some fb" and em: "cpu s < length (emdiscs s)"
    and m: "netfb_rx fb = FB_ETH" "private_data fb = EthPriv cs"
    and ok: "ports_ok rank (rank (read_next_idp_from_skb skb)) (cpu s) FB_ETH (EthPriv cs)"
  shows "netrx_ok run rank p fb skb dir s"
proof -
  let ?skb = "(write_next_idp_to_skb skb (fb_idp fb) IDP_UNKNOWN)\<lparr>skb_dev := Some (eth_dev (cs ! cpu s))\<rparr>"
  have "lana_netrx run queues_take (netfb_rx fb) p skb dir s =
      Some (PPE_DROPPED, ?skb, dir, dev_queue_xmit (eth_dev (cs ! cpu s)) ?skb s)"
    using fb m by (simp add: lana_netrx_def fb_eth_netrx_def Let_def)
  then show ?thesis
    by (rule netrx_ok_same[OF _ _ fb step_xmit[OF em]]) (simp_all add: dev_queue_xmit_def)
qed

lemma pflana_netrx_ok:
  assumes fb: "fbs (tabs s) p = Some fb" and em: "cpu s < length (emdiscs s)"
    and m: "netfb_rx fb = FB_PFLANA" "private_data fb = PflanaPriv cs"
    and ok: "ports_ok rank (rank (read_next_idp_from_skb skb)) (cpu s) FB_PFLANA (PflanaPriv cs)"
  shows "netrx_ok run rank p fb skb dir s"
proof -
  let ?skb = "write_next_idp_to_skb skb (fb_idp fb) IDP_UNKNOWN"
  from ok obtain sk where sk: "sock_self (cs ! cpu s) = Some sk" by auto
  let ?s = "sock_queue_rcv_skb queues_take sk ?skb s"
  have "lana_netrx run queues_take (netfb_rx fb) p skb dir s = Some (PPE_DROPPED, ?skb, dir, ?s)"
    using fb m sk by (simp add: lana_netrx_def fb_pflana_netrx_def Let_def)
  then show ?thesis
    by (rule netrx_ok_same[OF _ _ fb step_queue[OF em]]) (simp_all add: sock_queue_rcv_skb_def)
qed

lemma counter_netrx_ok:
  assumes fb: "fbs (tabs s) p = Some fb" and em: "cpu s < length (emdiscs s)"
    and m: "netfb_rx fb = FB_COUNTER" "private_data fb = CounterPriv cs"
    and ok: "ports_ok rank (rank (read_next_idp_from_skb skb)) (cpu s) FB_COUNTER (CounterPriv cs)"
  shows "netrx_ok run rank p fb skb dir s"
proof -
  let ?port = "counter_port (cs ! cpu s) dir"
  let ?skb = "write_next_idp_to_skb skb (fb_idp fb) ?port"
  let ?v = "CounterPriv (cs[cpu s := fb_counter_count (length (skb_data skb)) (cs ! cpu s)])"
  let ?s = "s\<lparr>tabs := upd_fb p (fb\<lparr>private_data := ?v\<rparr>) (tabs s)\<rparr>"
  have em': "cpu ?s < length (emdiscs ?s)" using em by simp
  obtain ret s' where s': "lana_netrx run queues_take (netfb_rx fb) p skb dir s = Some (ret, ?skb, dir, s')" "tabs s' = tabs ?s"
    "fblock_step_ok rank skb ?s ret ?skb s' []"
  proof (cases "?port = IDP_UNKNOWN")
    case True
    show ?thesis
      by (rule that[OF _ _ step_drop[OF em', where skb' = ?skb]]) (use True fb m in \<open>simp_all add: lana_netrx_def fb_counter_netrx_def Let_def\<close>)
  next
    case False
    show ?thesis
      by (rule that[OF _ _ step_forward[OF em' False]])
        (use False fb m ok in \<open>simp_all add: lana_netrx_def fb_counter_netrx_def Let_def\<close>)
  qed
  show ?thesis
    unfolding netrx_ok_def using s' m
    by (intro exI[of _ ret] exI[of _ ?skb] exI[of _ dir] exI[of _ s'] exI[of _ "[]"] exI[of _ ?v])
      (auto intro: ports_ok_count simp del: ports_ok.simps)
qed

lemma tee_clone_effect:
  assumes "cpu s < length (emdiscs s)"
  obtains cl k n where "fb_tee_clone fb clone skb dir s =
      s\<lparr>tabs := (tabs s)\<lparr>kmem := k\<rparr>, next_skb := n,
        emdiscs := (emdiscs s)[cpu s := (emdiscs s ! cpu s)\<lparr>ppe_backlog_queue := backlog s @ cl\<rparr>]\<rparr>"
    "length cl \<le> 1" "\<forall>c \<in> set cl. clone \<noteq> 0 \<and> read_next_idp_from_skb c = clone"
    "next_skb s \<le> n" "map skb_id cl = [next_skb s..<n]"
proof -
  let ?eff = "\<lambda>cl k n. s\<lparr>tabs := (tabs s)\<lparr>kmem := k\<rparr>, next_skb := n,
        emdiscs := (emdiscs s)[cpu s := (emdiscs s ! cpu s)\<lparr>ppe_backlog_queue := backlog s @ cl\<rparr>]\<rparr>"
  consider (off) "clone = 0" | (nomem) "clone \<noteq> 0" "no_mem (tabs s)" | (copy) "clone \<noteq> 0" "\<not> no_mem (tabs s)"
    by blast
  then show ?thesis
  proof cases
    case off
    then have "fb_tee_clone fb clone skb dir s = ?eff [] (kmem (tabs s)) (next_skb s)"
      by (simp add: fb_tee_clone_def)
    then show ?thesis by (rule that) simp_all
  next
    case nomem
    then have "fb_tee_clone fb clone skb dir s = ?eff [] (tl (kmem (tabs s))) (next_skb s)"
      by (simp add: fb_tee_clone_def skb_copy_def mem_fails_eq Let_def)
    then show ?thesis by (rule that) simp_all
  next
    case copy
    let ?c = "write_path_to_skb (write_next_idp_to_skb (skb\<lparr>skb_id := next_skb s\<rparr>) (fb_idp fb) clone) dir"
    have "fb_tee_clone fb clone skb dir s = ?eff [?c] (tl (kmem (tabs s))) (Suc (next_skb s))"
      using copy by (auto simp: fb_tee_clone_def skb_copy_def mem_fails_eq engine_backlog_tail_def upd_disc_def Let_def)
    then show ?thesis by (rule that) (use copy in simp_all)
  qed
qed

lemma tee_netrx_ok:
  assumes fb: "fbs (tabs s) p = Some fb" and em: "cpu s < length (emdiscs s)"
    and m: "netfb_rx fb = FB_TEE" "private_data fb = TeePriv cs"
    and ok: "ports_ok rank (rank (read_next_idp_from_skb skb)) (cpu s) FB_TEE (TeePriv cs)"
  shows "netrx_ok run rank p fb skb dir s"
proof -
  let ?c = "cs ! cpu s"
  let ?skb = "write_next_idp_to_skb skb (fb_idp fb) (tee_port ?c dir)"
  from tee_clone_effect[OF em, of fb "port_clone ?c" ?skb dir] obtain cl k n where
    s1: "fb_tee_clone fb (port_clone ?c) ?skb dir s =
      s\<lparr>tabs := (tabs s)\<lparr>kmem := k\<rparr>, next_skb := n,
        emdiscs := (emdiscs s)[cpu s := (emdiscs s ! cpu s)\<lparr>ppe_backlog_queue := backlog s @ cl\<rparr>]\<rparr>" (is "_ = ?s1")
    and cl: "length cl \<le> 1" "\<forall>c \<in> set cl. port_clone ?c \<noteq> 0 \<and> read_next_idp_from_skb c = port_clone ?c"
      "next_skb s \<le> n" "map skb_id cl = [next_skb s..<n]" .
  obtain ret s' where s': "lana_netrx run queues_take (netfb_rx fb) p skb dir s = Some (ret, ?skb, dir, s')" "tabs s' = tabs ?s1"
    "fblock_step_ok rank skb s ret ?skb s' cl"
  proof (cases "tee_port ?c dir = IDP_UNKNOWN")
    case True
    show ?thesis
      by (rule that[of PPE_DROPPED "kfree_skb ?skb ?s1"])
        (use True fb m s1 ok cl in \<open>auto simp: lana_netrx_def fb_tee_netrx_def Let_def fblock_step_ok_def\<close>)
  next
    case False
    show ?thesis
      by (rule that[of PPE_SUCCESS ?s1])
        (use False fb m s1 ok cl in
          \<open>auto simp: lana_netrx_def fb_tee_netrx_def Let_def fblock_step_ok_def IDP_UNKNOWN_def\<close>)
  qed
  show ?thesis
    unfolding netrx_ok_def using s' fb
    by (intro exI[of _ ret] exI[of _ ?skb] exI[of _ dir] exI[of _ s'] exI[of _ cl] exI[of _ "private_data fb"])
      (simp add: fun_upd_idem)
qed

lemma lana_netrx_ok:
  assumes "fbs (tabs s) p = Some fb" "cpu s < length (emdiscs s)"
    "ports_ok rank (rank (read_next_idp_from_skb skb)) (cpu s) (netfb_rx fb) (private_data fb)"
  shows "netrx_ok run rank p fb skb dir s"
  using assms(3)
proof (cases rule: ports_okE)
  case (dummy cs)
  with assms show ?thesis by (intro dummy_netrx_ok) auto
next
  case (tee cs)
  with assms show ?thesis by (intro tee_netrx_ok) auto
next
  case (counter cs)
  with assms show ?thesis by (intro counter_netrx_ok) auto
next
  case (bpf cs)
  with assms show ?thesis by (intro bpf_netrx_ok) auto
next
  case (eth cs)
  with assms show ?thesis by (intro eth_netrx_ok) auto
next
  case (pflana cs)
  with assms show ?thesis by (intro pflana_netrx_ok) auto
qed

interpretation ph: packet_handlers lana_ops "lana_netrx run queues_take" "acyclic_ports rank" rank for run rank
proof unfold_locales
  fix c t i p assume "acyclic_ports rank c t" "fblmap t i = Some p"
  then show "fbs t p \<noteq> None" by (auto elim: acyclic_portsD)
next
  fix s :: "fb_priv kern" and skb i p t dir
  assume a: "acyclic_ports rank (cpu s) (tabs s)" "cpu s < length (emdiscs s)" "read_next_idp_from_skb skb = i"
    "i \<noteq> 0" "fblmap (tabs s) i = Some p" "get_fblock p (tabs s) = Some t"
  from acyclic_portsD[OF a(1,5)] obtain fb where fb: "fbs (tabs s) p = Some fb" "0 < refcnt fb"
    "ports_ok rank (rank i) (cpu s) (netfb_rx fb) (private_data fb)" .
  let ?fb = "fb\<lparr>refcnt := refcnt fb + 1\<rparr>"
  let ?s = "s\<lparr>tabs := upd_fb p ?fb (tabs s)\<rparr>"
  have t: "t = tabs ?s" using a(6) fb(1) by simp
  have "netrx_ok run rank p ?fb skb dir ?s"
    by (rule lana_netrx_ok) (use fb a(2,3) in simp_all)
  then obtain ret skb' dir' s' cl v where s': "lana_netrx run queues_take (netfb_rx fb) p skb dir ?s = Some (ret, skb', dir', s')"
    "fblmap (tabs s') = fblmap (tabs s)" "fbs (tabs s') = (fbs (tabs s))(p \<mapsto> ?fb\<lparr>private_data := v\<rparr>)"
    "\<forall>r. ports_ok rank r (cpu s) (netfb_rx fb) (private_data fb) \<longrightarrow> ports_ok rank r (cpu s) (netfb_rx fb) v"
    "fblock_step_ok rank skb s ret skb' s' cl"
    unfolding netrx_ok_def by auto
  let ?t = "upd_fb p (fb\<lparr>private_data := v\<rparr>) (tabs s')"
  have run: "run_fblock lana_ops (lana_netrx run queues_take) p skb dir (s\<lparr>tabs := t\<rparr>) =
      Some (ret, skb', dir', engine_inc_fblock_stats (s'\<lparr>tabs := ?t\<rparr>))"
    using s'(1,3) fb(1,2) t by (simp add: run_fblock_def put_fblock_def)
  have "acyclic_ports rank (cpu s) ?t"
    by (rule acyclic_ports_upd[OF a(1) fb(1), where fb' = "fb\<lparr>private_data := v\<rparr>"]) (use s' in simp_all)
  with run s'(5) show "\<exists>ret skb' dir' s' cl. run_fblock lana_ops (lana_netrx run queues_take) p skb dir (s\<lparr>tabs := t\<rparr>) =
        Some (ret, skb', dir', s') \<and> acyclic_ports rank (cpu s) (tabs s') \<and> fblock_step_ok rank skb s ret skb' s' cl"
    by (intro exI[of _ ret] exI[of _ skb'] exI[of _ dir'] exI[of _ "engine_inc_fblock_stats (s'\<lparr>tabs := ?t\<rparr>)"] exI[of _ cl])
      (simp add: engine_update_defs)
qed

end
