(* ===== verification/Xt_User.thy ===== *)
theory Xt_User
  imports Xt_Builder Xt_Vlink
begin

text \<open>Control of the functional blocks from user space: the message structures of
  \<open>src/src/xt_user.h\<close> and their handlers in \<open>src/src/xt_user.c\<close>.

  The payload of a message is a buffer of bytes, and the handlers read their structures from it by
  offset, as the casts of the source do. A string field is read up to its NUL, wherever that is; a
  buffer without one gives no result.\<close>

section \<open>Messages\<close>

definition USERCTL_BUF_LEN :: nat where
  "USERCTL_BUF_LEN = 1500"

text \<open>\<open>USERCTLGRP_CONF\<close> follows \<open>USERCTLGRP_NONE\<close>, which is \<open>VLINKNLGRP_MAX\<close>.\<close>

definition USERCTLGRP_CONF :: u16 where
  "USERCTLGRP_CONF = group_type VLINKNLGRP_I2C + 1"

abbreviation NETLINK_USERCTL_CMD_ADD :: u32 where "NETLINK_USERCTL_CMD_ADD \<equiv> 1"
abbreviation NETLINK_USERCTL_CMD_SET :: u32 where "NETLINK_USERCTL_CMD_SET \<equiv> 2"
abbreviation NETLINK_USERCTL_CMD_RM :: u32 where "NETLINK_USERCTL_CMD_RM \<equiv> 3"
abbreviation NETLINK_USERCTL_CMD_BIND :: u32 where "NETLINK_USERCTL_CMD_BIND \<equiv> 4"
abbreviation NETLINK_USERCTL_CMD_UNBIND :: u32 where "NETLINK_USERCTL_CMD_UNBIND \<equiv> 5"
abbreviation NETLINK_USERCTL_CMD_REPLACE :: u32 where "NETLINK_USERCTL_CMD_REPLACE \<equiv> 6"
abbreviation NETLINK_USERCTL_CMD_SUBSCRIBE :: u32 where "NETLINK_USERCTL_CMD_SUBSCRIBE \<equiv> 7"
abbreviation NETLINK_USERCTL_CMD_UNSUBSCRIBE :: u32 where "NETLINK_USERCTL_CMD_UNSUBSCRIBE \<equiv> 8"

record lananlmsg =
  lmsg_cmd :: u32
  lmsg_buff :: "u8 list"

definition cstr_at :: "nat \<Rightarrow> u8 list \<Rightarrow> cstr option" where
  "cstr_at off b =
     (if 0 \<in> set (drop off b) then Some (takeWhile (\<lambda>c. c \<noteq> 0) (drop off b)) else None)"

text \<open>The fields of \<open>lananlmsg_add\<close>, \<open>_rm\<close>, \<open>_set\<close>, \<open>_tuple\<close> and
  \<open>_replace\<close>: one or two names of 16 bytes, with what follows them.\<close>

definition msg_name :: "lananlmsg \<Rightarrow> cstr option" where
  "msg_name lmsg = cstr_at 0 (lmsg_buff lmsg)"

definition msg_type :: "lananlmsg \<Rightarrow> cstr option" where
  "msg_type lmsg = cstr_at FBNAMSIZ (lmsg_buff lmsg)"

definition msg_option :: "lananlmsg \<Rightarrow> cstr option" where
  "msg_option lmsg = cstr_at FBNAMSIZ (lmsg_buff lmsg)"

definition msg_name1 :: "lananlmsg \<Rightarrow> cstr option" where
  "msg_name1 lmsg = cstr_at 0 (lmsg_buff lmsg)"

definition msg_name2 :: "lananlmsg \<Rightarrow> cstr option" where
  "msg_name2 lmsg = cstr_at FBNAMSIZ (lmsg_buff lmsg)"

definition msg_drop_priv :: "lananlmsg \<Rightarrow> u8" where
  "msg_drop_priv lmsg = lmsg_buff lmsg ! (2 * FBNAMSIZ)"

section \<open>Handlers\<close>

definition userctl_add ::
    "'p fb_ops \<Rightarrow> (fb_module \<Rightarrow> cstr \<Rightarrow> 'p lana \<Rightarrow> (ptr option \<times> 'p lana) option) \<Rightarrow>
     lananlmsg \<Rightarrow> 'p lana \<Rightarrow> (int \<times> 'p lana) option" where
  "userctl_add ops ctor lmsg s = do {
     name \<leftarrow> msg_name lmsg;
     (fb, s) \<leftarrow> search_fblock_n name s;
     (case fb of
        Some p \<Rightarrow> do { s \<leftarrow> put_fblock ops p s; Some (- EINVAL, s) }
      | None \<Rightarrow> do {
          type \<leftarrow> msg_type lmsg;
          (fb, s) \<leftarrow> build_fblock_object ctor type name s;
          Some (if fb = None then - ENOMEM else 0, s)
        })
   }"

definition userctl_set :: "'p fb_ops \<Rightarrow> lananlmsg \<Rightarrow> 'p lana \<Rightarrow> (int \<times> 'p lana) option" where
  "userctl_set ops lmsg s = do {
     name \<leftarrow> msg_name lmsg;
     (fb, s) \<leftarrow> search_fblock_n name s;
     (case fb of
        None \<Rightarrow> Some (- EINVAL, s)
      | Some p \<Rightarrow> do {
          opt \<leftarrow> msg_option lmsg;
          (ret, s) \<leftarrow> fblock_set_option ops p opt s;
          s \<leftarrow> put_fblock ops p s;
          Some (ret, s)
        })
   }"

text \<open>The last part of \<open>userctl_replace\<close>: both blocks are known, have a factory, and the
  second is not in use by others.\<close>

definition replace_blocks ::
    "'p fb_ops \<Rightarrow> u8 \<Rightarrow> ptr \<Rightarrow> ptr \<Rightarrow> fb_module \<Rightarrow> fb_module \<Rightarrow> 'p lana \<Rightarrow> (int \<times> 'p lana) option" where
  "replace_blocks ops drop_priv p1 p2 f1 f2 s = do {
     s \<leftarrow> unregister_fblock_namespace_no_rcu ops p2 s;
     s \<leftarrow> (if factory_type f1 = factory_type f2 \<and> drop_priv = 0 then fblock_migrate_p ops p2 p1 s else Some s);
     s \<leftarrow> fblock_migrate_r ops p2 p1 s;
     s \<leftarrow> unregister_fblock ops p1 s;
     fb2 \<leftarrow> fbs s p2;
     (ret, s) \<leftarrow> register_fblock p2 (fb_idp fb2) s;
     s \<leftarrow> put_fblock ops p1 s;
     s \<leftarrow> put_fblock ops p2 s;
     Some (ret, s)
   }"

definition userctl_replace :: "'p fb_ops \<Rightarrow> lananlmsg \<Rightarrow> 'p lana \<Rightarrow> (int \<times> 'p lana) option" where
  "userctl_replace ops lmsg s = do {
     name1 \<leftarrow> msg_name1 lmsg;
     (p1, s) \<leftarrow> search_fblock_n name1 s;
     (case p1 of
        None \<Rightarrow> Some (- EINVAL, s)
      | Some p1 \<Rightarrow> do {
          fb1 \<leftarrow> fbs s p1;
          (case factory fb1 of
             None \<Rightarrow> Some (- EINVAL, s)
           | Some f1 \<Rightarrow> do {
               name2 \<leftarrow> msg_name2 lmsg;
               (p2, s) \<leftarrow> search_fblock_n name2 s;
               (case p2 of
                  None \<Rightarrow> do { s \<leftarrow> put_fblock ops p1 s; Some (- EINVAL, s) }
                | Some p2 \<Rightarrow> do {
                    fb2 \<leftarrow> fbs s p2;
                    (case factory fb2 of
                       None \<Rightarrow> do { s \<leftarrow> put_fblock ops p1 s; Some (- EINVAL, s) }
                     | Some f2 \<Rightarrow>
                         if refcnt fb2 > 2 then do {
                           s \<leftarrow> put_fblock ops p1 s;
                           s \<leftarrow> put_fblock ops p2 s;
                           Some (- EBUSY, s)
                         } else replace_blocks ops (msg_drop_priv lmsg) p1 p2 f1 f2 s)
                  })
             })
        })
   }"

text \<open>What the four handlers on two blocks share: look up both, act, drop both references.\<close>

definition userctl_tuple ::
    "'p fb_ops \<Rightarrow> (ptr \<Rightarrow> ptr \<Rightarrow> 'p lana \<Rightarrow> (int \<times> 'p lana) option) \<Rightarrow>
     lananlmsg \<Rightarrow> 'p lana \<Rightarrow> (int \<times> 'p lana) option" where
  "userctl_tuple ops act lmsg s = do {
     name1 \<leftarrow> msg_name1 lmsg;
     (p1, s) \<leftarrow> search_fblock_n name1 s;
     (case p1 of
        None \<Rightarrow> Some (- EINVAL, s)
      | Some p1 \<Rightarrow> do {
          name2 \<leftarrow> msg_name2 lmsg;
          (p2, s) \<leftarrow> search_fblock_n name2 s;
          (case p2 of
             None \<Rightarrow> do { s \<leftarrow> put_fblock ops p1 s; Some (- EINVAL, s) }
           | Some p2 \<Rightarrow> do {
               (ret, s) \<leftarrow> act p1 p2 s;
               s \<leftarrow> put_fblock ops p1 s;
               s \<leftarrow> put_fblock ops p2 s;
               Some (ret, s)
             })
        })
   }"

definition userctl_subscribe :: "'p fb_ops \<Rightarrow> lananlmsg \<Rightarrow> 'p lana \<Rightarrow> (int \<times> 'p lana) option" where
  "userctl_subscribe ops lmsg s = userctl_tuple ops (\<lambda>p1 p2. subscribe_to_remote_fblock p2 p1) lmsg s"

definition userctl_unsubscribe :: "'p fb_ops \<Rightarrow> lananlmsg \<Rightarrow> 'p lana \<Rightarrow> (int \<times> 'p lana) option" where
  "userctl_unsubscribe ops lmsg s =
     userctl_tuple ops (\<lambda>p1 p2 s. do { s \<leftarrow> unsubscribe_from_remote_fblock ops p2 p1 s; Some (0, s) }) lmsg s"

definition userctl_remove :: "'p fb_ops \<Rightarrow> lananlmsg \<Rightarrow> 'p lana \<Rightarrow> (int \<times> 'p lana) option" where
  "userctl_remove ops lmsg s = do {
     name \<leftarrow> msg_name lmsg;
     (p, s) \<leftarrow> search_fblock_n name s;
     (case p of
        None \<Rightarrow> Some (- EINVAL, s)
      | Some p \<Rightarrow> do {
          fb \<leftarrow> fbs s p;
          (if factory fb = None then do { s \<leftarrow> put_fblock ops p s; Some (- EINVAL, s) }
           else if refcnt fb > 2 then do { s \<leftarrow> put_fblock ops p s; Some (- EBUSY, s) }
           else do {
             s \<leftarrow> unregister_fblock_namespace ops p s;
             s \<leftarrow> put_fblock ops p s;
             Some (0, s)
           })
        })
   }"

definition userctl_bind :: "'p fb_ops \<Rightarrow> lananlmsg \<Rightarrow> 'p lana \<Rightarrow> (int \<times> 'p lana) option" where
  "userctl_bind ops lmsg s = userctl_tuple ops (fblock_bind ops) lmsg s"

definition userctl_unbind :: "'p fb_ops \<Rightarrow> lananlmsg \<Rightarrow> 'p lana \<Rightarrow> (int \<times> 'p lana) option" where
  "userctl_unbind ops lmsg s = userctl_tuple ops (fblock_unbind ops) lmsg s"

section \<open>Dispatch\<close>

definition sizeof_lananlmsg :: u32 where
  "sizeof_lananlmsg = 1504"

definition le32 :: "u8 \<Rightarrow> u8 \<Rightarrow> u8 \<Rightarrow> u8 \<Rightarrow> u32" where
  "le32 b0 b1 b2 b3 = ucast b0 OR push_bit 8 (ucast b1) OR push_bit 16 (ucast b2) OR push_bit 24 (ucast b3)"

definition lananlmsg_of :: "u8 list \<Rightarrow> lananlmsg option" where
  "lananlmsg_of d =
     (if length d < 1504 then None
      else Some \<lparr>lmsg_cmd = le32 (d ! 0) (d ! 1) (d ! 2) (d ! 3), lmsg_buff = take USERCTL_BUF_LEN (drop 4 d)\<rparr>)"

definition userctl_rcv_msg ::
    "'p fb_ops \<Rightarrow> (fb_module \<Rightarrow> cstr \<Rightarrow> 'p lana \<Rightarrow> (ptr option \<times> 'p lana) option) \<Rightarrow>
     bool \<Rightarrow> nlmsghdr \<Rightarrow> 'p lana \<Rightarrow> (int \<times> 'p lana) option" where
  "userctl_rcv_msg ops ctor denied nlh s =
     (if denied then Some (- EPERM, s)
      else if nlmsg_len nlh < NLMSG_LENGTH sizeof_lananlmsg then Some (0, s)
      else do {
        lmsg \<leftarrow> lananlmsg_of (nlmsg_data nlh);
        (let cmd = lmsg_cmd lmsg in
         if cmd = NETLINK_USERCTL_CMD_ADD then userctl_add ops ctor lmsg s
         else if cmd = NETLINK_USERCTL_CMD_SET then userctl_set ops lmsg s
         else if cmd = NETLINK_USERCTL_CMD_REPLACE then userctl_replace ops lmsg s
         else if cmd = NETLINK_USERCTL_CMD_SUBSCRIBE then userctl_subscribe ops lmsg s
         else if cmd = NETLINK_USERCTL_CMD_UNSUBSCRIBE then userctl_unsubscribe ops lmsg s
         else if cmd = NETLINK_USERCTL_CMD_RM then userctl_remove ops lmsg s
         else if cmd = NETLINK_USERCTL_CMD_BIND then userctl_bind ops lmsg s
         else if cmd = NETLINK_USERCTL_CMD_UNBIND then userctl_unbind ops lmsg s
         else Some (- ENOENT, s))
      })"

definition userctl_rcv ::
    "('skb \<Rightarrow> (nlmsghdr \<Rightarrow> 'p lana \<Rightarrow> (int \<times> 'p lana) option) \<Rightarrow> 'p lana \<Rightarrow> 'p lana option) \<Rightarrow>
     'p fb_ops \<Rightarrow> (fb_module \<Rightarrow> cstr \<Rightarrow> 'p lana \<Rightarrow> (ptr option \<times> 'p lana) option) \<Rightarrow>
     bool \<Rightarrow> 'skb \<Rightarrow> 'p lana \<Rightarrow> 'p lana option" where
  "userctl_rcv netlink_rcv_skb ops ctor denied skb s = netlink_rcv_skb skb (userctl_rcv_msg ops ctor denied) s"

text \<open>The socket is there or not.\<close>

definition init_userctl_system :: "bool \<Rightarrow> int \<times> bool" where
  "init_userctl_system create_ok = (if \<not> create_ok then - ENOMEM else 0, create_ok)"

definition cleanup_userctl_system :: "bool \<Rightarrow> bool" where
  "cleanup_userctl_system userctl_sock = False"

section \<open>Looking up the blocks of a message\<close>

text \<open>Every registered block is held by at least one reference.\<close>

definition refs_inv :: "'p lana \<Rightarrow> bool" where
  "refs_inv s \<longleftrightarrow> (\<forall>i p. fblmap s i = Some p \<longrightarrow> (\<exists>fb. fbs s p = Some fb \<and> 0 < refcnt fb))"

lemma registry_block:
  assumes "registry_inv s" "get_fblock_namespace_mapping name s = i" "i \<noteq> IDP_UNKNOWN"
  obtains p fb where "fblmap s i = Some p" "fbs s p = Some fb" "fb_name fb = name" "fb_idp fb = i"
    "search_fblock_n name s = Some (Some p, upd_fb p (fb\<lparr>refcnt := refcnt fb + 1\<rparr>) s)"
proof -
  obtain p fb where p: "fblmap s i = Some p" "fbs s p = Some fb" "fb_name fb = name"
    using registry_nameD[OF assms(1)] assms(2,3) by metis
  moreover have "fb_idp fb = i" by (rule registry_idpD[OF assms(1) p(1)]) (use p(2) in simp)
  ultimately show ?thesis using that search_fblock_n_known[OF assms(2)] by blast
qed

lemma search_n_none:
  "fblmap s IDP_UNKNOWN = None \<Longrightarrow> get_fblock_namespace_mapping name s = IDP_UNKNOWN \<Longrightarrow>
     search_fblock_n name s = Some (None, s)"
  by (simp add: search_fblock_n_def search_fblock_rcu_def)

lemma userctl_tuple_unknown:
  assumes "registry_inv s" "refs_inv s" "msg_name1 lmsg = Some n1" "msg_name2 lmsg = Some n2"
    and "get_fblock_namespace_mapping n1 s = IDP_UNKNOWN \<or> get_fblock_namespace_mapping n2 s = IDP_UNKNOWN"
  shows "userctl_tuple ops act lmsg s = Some (- EINVAL, s)"
proof (cases "get_fblock_namespace_mapping n1 s = IDP_UNKNOWN")
  case True
  with assms(1,3) show ?thesis by (simp add: userctl_tuple_def search_fblock_n_unknown)
next
  case False
  from registry_block[OF assms(1) refl False] obtain p fb where p:
    "fblmap s (get_fblock_namespace_mapping n1 s) = Some p" "fbs s p = Some fb"
    "search_fblock_n n1 s = Some (Some p, upd_fb p (fb\<lparr>refcnt := refcnt fb + 1\<rparr>) s)" .
  have "0 < refcnt fb" using assms(2) p(1,2) by (force simp: refs_inv_def)
  with False p assms show ?thesis
    by (simp add: userctl_tuple_def search_n_none registry_unknown_idp upd_fb_same)
qed

text \<open>Unknown names. A request to bind, unbind, subscribe or unsubscribe two blocks of which at
  least one is not registered is answered with \<open>-EINVAL\<close> and changes nothing, not even a
  reference count; so is a request to remove or to set an option of an unknown block.\<close>
lemma userctl_unknown_names:
  assumes "registry_inv s" "refs_inv s" "msg_name1 lmsg = Some n1" "msg_name2 lmsg = Some n2"
    and "get_fblock_namespace_mapping n1 s = IDP_UNKNOWN \<or> get_fblock_namespace_mapping n2 s = IDP_UNKNOWN"
  shows "userctl_bind ops lmsg s = Some (- EINVAL, s) \<and> userctl_unbind ops lmsg s = Some (- EINVAL, s) \<and>
     userctl_subscribe ops lmsg s = Some (- EINVAL, s) \<and> userctl_unsubscribe ops lmsg s = Some (- EINVAL, s) \<and>
     (get_fblock_namespace_mapping n1 s = IDP_UNKNOWN \<longrightarrow>
        userctl_remove ops lmsg s = Some (- EINVAL, s) \<and> userctl_set ops lmsg s = Some (- EINVAL, s))"
proof -
  have "msg_name lmsg = Some n1" using assms(3) by (simp add: msg_name_def msg_name1_def)
  then show ?thesis
    using userctl_tuple_unknown[OF assms] assms(1)
    by (simp add: userctl_bind_def userctl_unbind_def userctl_subscribe_def userctl_unsubscribe_def
        userctl_remove_def userctl_set_def search_fblock_n_unknown)
qed

text \<open>A message about the blocks \<open>a\<close> and \<open>b\<close>, and its fields.\<close>

definition example_msg :: lananlmsg where
  "example_msg = \<lparr>lmsg_cmd = NETLINK_USERCTL_CMD_BIND,
     lmsg_buff = lit ''a'' @ replicate 15 0 @ lit ''b'' @ replicate 1483 0\<rparr>"

lemma example_msg_names: "msg_name1 example_msg = Some (lit ''a'')" "msg_name2 example_msg = Some (lit ''b'')"
  "msg_name example_msg = Some (lit ''a'')" "msg_drop_priv example_msg = 0"
  by (simp_all add: example_msg_def msg_name1_def msg_name2_def msg_name_def msg_drop_priv_def cstr_at_def FBNAMSIZ_def lit_def
      nth_append)

section \<open>Removing and replacing blocks\<close>

lemma names_inv_upds [simp]:
  "names_inv (upd_fb p fb s) = names_inv s" "names_inv (s\<lparr>fblmap := m\<rparr>) = names_inv s"
  "names_inv (s\<lparr>rcu := r\<rparr>) = names_inv s" "names_inv (s\<lparr>nots := n\<rparr>) = names_inv s"
  by (rule names_inv_cong, simp, simp)+

lemma registry_inv_upd:
  assumes "registry_inv s" "fbs s p = Some fb" "fb_idp fb' = fb_idp fb" "fb_name fb' = fb_name fb"
  shows "registry_inv (upd_fb p fb' s)"
  by (rule registry_inv_same[OF assms(1)]) (use assms in auto)

lemma registry_inv_rcu [simp]: "registry_inv (s\<lparr>rcu := r\<rparr>) = registry_inv s"
  by (simp add: registry_inv_def)

text \<open>C8: Removing a block. A block that is still bound or subscribed to (so that others hold
  references to it) is not removed: the answer is \<open>-EBUSY\<close> and nothing changes. A block on
  which only its registration holds a reference is removed: its name and its idp are free, all other
  names and idps resolve as before, the invariants of the tables hold, and the block is queued to be
  freed after the grace period.\<close>
theorem userctl_remove_spec:
  assumes inv: "names_inv s" "registry_inv s" and msg: "msg_name lmsg = Some name"
    and blk: "get_fblock_namespace_mapping name s = i" "fblmap s i = Some p" "fbs s p = Some fb"
    and fac: "factory fb = Some f" and ref: "0 < refcnt fb"
  shows "if 1 < refcnt fb then userctl_remove ops lmsg s = Some (- EBUSY, s)
     else \<exists>s' e. userctl_remove ops lmsg s = Some (0, s') \<and>
        get_fblock_namespace_mapping name s' = IDP_UNKNOWN \<and> fblmap s' = (fblmap s)(i := None) \<and>
        (\<forall>u. u \<noteq> name \<longrightarrow> get_fblock_namespace_mapping u s' = get_fblock_namespace_mapping u s) \<and>
        names_inv s' \<and> registry_inv s' \<and> rcu s' = rcu s @ [FreeElem e, FreeFblock p] \<and>
        (\<forall>q. q \<noteq> p \<longrightarrow> fbs s' q = fbs s q) \<and> refcnt (the (fbs s' p)) = 0"
proof -
  let ?fb = "fb\<lparr>refcnt := refcnt fb + 1\<rparr>"
  let ?s1 = "upd_fb p ?fb s"
  have idp: "fb_idp fb = i" by (rule registry_idpD[OF inv(2) blk(2)]) (use blk(3) in simp)
  have "i \<noteq> IDP_UNKNOWN" using registry_unknown_idp[OF inv(2)] blk(2) by auto
  with registry_block[OF inv(2) blk(1)] blk(2,3) have nm: "fb_name fb = name" by (metis option.inject)
  have s1: "search_fblock_n name s = Some (Some p, ?s1)" using search_fblock_n_known[OF blk] .
  show ?thesis
  proof (cases "1 < refcnt fb")
    case True
    then show ?thesis using s1 msg fac blk(3) by (simp add: userctl_remove_def upd_fb_same)
  next
    case False
    then have one: "refcnt fb = 1" using ref by simp
    have k: "names_inv ?s1" "registry_inv ?s1" "fblmap ?s1 (fb_idp ?fb) = Some p" "fbs ?s1 p = Some ?fb" "1 < refcnt ?fb"
      using inv blk idp one registry_inv_upd[OF inv(2) blk(3)] by simp_all
    obtain s2 e where s2: "unregister_fblock_namespace ops p ?s1 = Some s2" "names_inv s2" "registry_inv s2"
      "fblmap s2 = (fblmap ?s1)(fb_idp ?fb := None)" "fbs s2 = (fbs ?s1)(p \<mapsto> ?fb\<lparr>refcnt := refcnt ?fb - 1\<rparr>)"
      "\<forall>u. get_fblock_namespace_mapping u s2 =
         (if u = fb_name ?fb then IDP_UNKNOWN else get_fblock_namespace_mapping u ?s1)"
      "rcu s2 = rcu ?s1 @ [FreeElem e]"
      by (rule unregister_fblock_namespace_shared[OF k])
    let ?d = "fb\<lparr>refcnt := 0, private_data := op_dtor_outside_rcu ops f (private_data fb)\<rparr>"
    let ?s3 = "(upd_fb p ?d s2)\<lparr>rcu := rcu s2 @ [FreeFblock p]\<rparr>"
    have "fbs s2 p = Some fb" by (simp add: s2(5) one)
    then have "put_fblock ops p s2 = Some ?s3" "registry_inv (upd_fb p ?d s2)"
      using put_fblock_last[of s2 p fb f ops] one fac registry_inv_upd[OF s2(3)] by simp_all
    then show ?thesis
      using False one s1 s2 fac nm idp msg by (simp add: userctl_remove_def)
  qed
qed

text \<open>A state with two registered blocks \<open>a\<close> and \<open>b\<close>, built by the operations.\<close>

definition named_block :: "string \<Rightarrow> nat fblock" where
  "named_block n = (ctor_fblock 0)\<lparr>fb_name := lit n, factory := Some FB_DUMMY, others := Some [], refcnt := 1\<rparr>"

lemma two_registered:
  "\<exists>s :: nat lana. names_inv s \<and> registry_inv s \<and> kmem s = [] \<and>
     get_fblock_namespace_mapping (lit ''a'') s = 1 \<and> get_fblock_namespace_mapping (lit ''b'') s = 2 \<and>
     fblmap s = [1 \<mapsto> slab_addr 0, 2 \<mapsto> slab_addr 1] \<and>
     fbs s (slab_addr 0) = Some (named_block ''a''\<lparr>fb_idp := 1\<rparr>) \<and>
     fbs s (slab_addr 1) = Some (named_block ''b''\<lparr>fb_idp := 2\<rparr>)"
proof -
  let ?a = "named_block ''a''" and ?b = "named_block ''b''"
  let ?s0 = "(upd_fb (slab_addr 1) ?b (boot_with ?a))\<lparr>heap_top := 2\<rparr>"
  have 0: "heap_inv ?s0" "names_inv ?s0" "registry_inv ?s0" "kmem ?s0 = []" "unat (idp_counter ?s0) < 2 ^ 32 - 1"
    "critbit_get (elem_name_at ?s0) (idpmap ?s0) u = None" for u
    by (auto simp: boot_with_def lana_boot_def heap_inv_def names_inv_def critbit_inv_def critbit_elems_def
      registry_inv_def get_fblock_namespace_mapping_def critbit_get_def slab_addr_def SMP_CACHE_BYTES_def)
  have m0: "get_fblock_namespace_mapping u ?s0 = IDP_UNKNOWN" for u by (rule mapping_unknown) (rule 0)
  have nm: "is_cstr (lit ''a'')" "is_cstr (lit ''b'')" "length (lit ''a'') < FBNAMSIZ" "length (lit ''b'') < FBNAMSIZ"
    "lit ''a'' \<noteq> lit ''b''"
    by (simp_all add: is_cstr_def lit_def FBNAMSIZ_def)
  have f0: "fbs ?s0 (slab_addr 0) = Some ?a" "slab_addr 0 \<notin> ran (fblmap ?s0)" "is_cstr (fb_name ?a)"
    "length (fb_name ?a) < FBNAMSIZ" using nm by (simp_all add: boot_with_inv named_block_def)
  obtain s1 where s1: "heap_inv s1" "names_inv s1" "registry_inv s1" "kmem s1 = []"
    "fblmap s1 = (fblmap ?s0)(ucast (idp_counter ?s0 + 1) \<mapsto> slab_addr 0)"
    "fbs s1 = (fbs ?s0)(slab_addr 0 \<mapsto> ?a\<lparr>fb_idp := ucast (idp_counter ?s0 + 1)\<rparr>)"
    "idp_counter s1 = idp_counter ?s0 + 1"
    "\<And>u. get_fblock_namespace_mapping u s1 =
            (if u = fb_name ?a then ucast (idp_counter ?s0 + 1) else get_fblock_namespace_mapping u ?s0)"
    "\<forall>u. u \<noteq> fb_name ?a \<longrightarrow> critbit_get (elem_name_at s1) (idpmap s1) u = critbit_get (elem_name_at ?s0) (idpmap ?s0) u"
    by (rule register_fblock_namespace_new[OF 0(1-5) f0 0(6)]) (rule that; assumption)
  have c: "idp_counter s1 = 1" "fblmap s1 = [1 \<mapsto> slab_addr 0]" "fbs s1 (slab_addr 1) = Some ?b"
    "fbs s1 (slab_addr 0) = Some (?a\<lparr>fb_idp := 1\<rparr>)"
    using s1 by (simp_all add: boot_with_inv)
  have g: "critbit_get (elem_name_at s1) (idpmap s1) (fb_name ?b) = None"
    using s1(9) 0(6) nm(5) by (simp add: named_block_def)
  have f1: "unat (idp_counter s1) < 2 ^ 32 - 1" "slab_addr 1 \<notin> ran (fblmap s1)" "is_cstr (fb_name ?b)"
    "length (fb_name ?b) < FBNAMSIZ" using nm c by (simp_all add: named_block_def)
  obtain s2 where s2: "names_inv s2" "registry_inv s2" "kmem s2 = []"
    "fblmap s2 = (fblmap s1)(ucast (idp_counter s1 + 1) \<mapsto> slab_addr 1)"
    "fbs s2 = (fbs s1)(slab_addr 1 \<mapsto> ?b\<lparr>fb_idp := ucast (idp_counter s1 + 1)\<rparr>)"
    "\<And>u. get_fblock_namespace_mapping u s2 =
            (if u = fb_name ?b then ucast (idp_counter s1 + 1) else get_fblock_namespace_mapping u s1)"
    by (rule register_fblock_namespace_new[OF s1(1-4) f1(1) c(3) f1(2-4) g]) (rule that; assumption)
  have "get_fblock_namespace_mapping (lit ''a'') s2 = 1" "get_fblock_namespace_mapping (lit ''b'') s2 = 2"
    using s2(6) s1(8) nm(5) c(1) by (simp_all add: named_block_def boot_with_inv)
  with s2 c show ?thesis by (intro exI[of _ s2]) simp
qed

theorem userctl_remove_spec_witness:
  "\<exists>(s :: nat lana) s'. userctl_remove idle_ops example_msg s = Some (0, s') \<and>
     get_fblock_namespace_mapping (lit ''a'') s = 1 \<and> get_fblock_namespace_mapping (lit ''a'') s' = IDP_UNKNOWN \<and>
     get_fblock_namespace_mapping (lit ''b'') s' = 2"
proof -
  obtain s :: "nat lana" where s: "names_inv s" "registry_inv s" "get_fblock_namespace_mapping (lit ''a'') s = 1"
    "get_fblock_namespace_mapping (lit ''b'') s = 2" "fblmap s = [1 \<mapsto> slab_addr 0, 2 \<mapsto> slab_addr 1]"
    "fbs s (slab_addr 0) = Some (named_block ''a''\<lparr>fb_idp := 1\<rparr>)"
    using two_registered by blast
  have "fblmap s 1 = Some (slab_addr 0)" using s(5) by simp
  from userctl_remove_spec[OF s(1,2) example_msg_names(3) s(3) this s(6), of FB_DUMMY idle_ops] s(3,4)
  show ?thesis by - (rule exI[of _ s], auto simp: named_block_def lit_def)
qed

lemma replace_tail:
  assumes ne: "p1 \<noteq> p2" and A: "fbs t p1 = Some A" "refcnt A = 2" "factory A = Some f" "fb_idp A = i"
    and B: "fbs t p2 = Some B" "1 < refcnt B" "fb_idp B = i" and mem: "kmem t = []"
  shows "do {
      s \<leftarrow> unregister_fblock ops p1 t;
      fb2 \<leftarrow> fbs s p2;
      (ret, s) \<leftarrow> register_fblock p2 (fb_idp fb2) s;
      s \<leftarrow> put_fblock ops p1 s;
      s \<leftarrow> put_fblock ops p2 s;
      Some (ret, s)
    } = Some (0, upd_fb p2 (B\<lparr>refcnt := refcnt B - 1\<rparr>)
         (upd_fb p1 (A\<lparr>refcnt := 0, private_data := op_dtor_outside_rcu ops f (private_data A)\<rparr>)
            (t\<lparr>fblmap := (fblmap t)(i \<mapsto> p2), rcu := rcu t @ [FreeFblock p1]\<rparr>)))"
proof -
  have "p2 \<noteq> p1" using ne by simp
  then show ?thesis
    using assms
    by (simp add: unregister_fblock_def radix_tree_delete_def register_fblock_def radix_tree_insert_def put_fblock_last)
      (cases B, simp add: upd_fb_def fun_upd_twist)
qed

text \<open>The effect of \<open>replace_blocks\<close> on two known blocks, the second of which only this request
  and its registration refer to.\<close>

lemma replace_blocks_known:
  fixes d :: u8
  assumes inv: "names_inv s" "registry_inv s" and mem: "kmem s = []" and ne: "p1 \<noteq> p2"
    and b1: "fblmap s i1 = Some p1" "fbs s p1 = Some fb1" "factory fb1 = Some f1" "1 < refcnt fb1"
    and b2: "fblmap s i2 = Some p2" "fbs s p2 = Some fb2" "factory fb2 = Some f2" "refcnt fb2 = 2"
    and n: "\<forall>n \<in> set (notifiers fb1) \<union> set (notifiers fb2). nots s n \<noteq> None"
    and len: "length (fb_name fb1) < FBNAMSIZ"
  defines "priv \<equiv> (if factory_type f1 = factory_type f2 \<and> d = 0 then private_data fb1 else private_data fb2)"
  shows "\<exists>s'. replace_blocks ops d p1 p2 f1 f2 s = Some (0, s') \<and>
     fblmap s' = (fblmap s)(i2 := None, i1 \<mapsto> p2) \<and>
     (\<forall>u. get_fblock_namespace_mapping u s' =
        (if u = fb_name fb2 then IDP_UNKNOWN else get_fblock_namespace_mapping u s)) \<and>
     fbs s' p2 = Some (fb2\<lparr>fb_idp := i1, fb_name := fb_name fb1, notifiers := notifiers fb1, others := others fb1,
         refcnt := refcnt fb1 - 1, private_data := priv\<rparr>) \<and>
     FreeFblock p1 \<in> set (rcu s') \<and> names_inv s' \<and> idp_counter s' = idp_counter s \<and>
     (\<forall>q. q \<noteq> p1 \<longrightarrow> q \<noteq> p2 \<longrightarrow> fbs s' q = fbs s q)"
proof -
  have idp: "fb_idp fb1 = i1" "fb_idp fb2 = i2"
    by (rule registry_idpD[OF inv(2) b1(1)], use b1(2) in simp, rule registry_idpD[OF inv(2) b2(1)], use b2(2) in simp)
  have i12: "i1 \<noteq> i2" using b1(1) b2(1) ne by auto
  obtain t e where t: "unregister_fblock_namespace_no_rcu ops p2 s =
      Some (s\<lparr>idpmap := t, fblmap := (fblmap s)(i2 := None), rcu := rcu s @ [FreeElem e]\<rparr>)"
    "names_inv (s\<lparr>idpmap := t, fblmap := (fblmap s)(i2 := None), rcu := rcu s @ [FreeElem e]\<rparr>)"
    "\<forall>u. get_fblock_namespace_mapping u (s\<lparr>idpmap := t\<rparr>) =
       (if u = fb_name fb2 then IDP_UNKNOWN else get_fblock_namespace_mapping u s)"
    by (rule unregister_fblock_namespace_no_rcu_known[OF inv, of fb2 p2 ops]) (use b2 idp in auto)
  define s3 where "s3 = s\<lparr>idpmap := t, fblmap := (fblmap s)(i2 := None), rcu := rcu s @ [FreeElem e]\<rparr>"
  have s3: "fbs s3 = fbs s" "nots s3 = nots s" "kmem s3 = []" "fblmap s3 = (fblmap s)(i2 := None)"
    "idp_counter s3 = idp_counter s" "rcu s3 = rcu s @ [FreeElem e]"
    "\<And>u. get_fblock_namespace_mapping u s3 = get_fblock_namespace_mapping u (s\<lparr>idpmap := t\<rparr>)"
    using mem by (simp_all add: s3_def)
  let ?c = "factory_type f1 = factory_type f2 \<and> d = 0"
  let ?a = "fb1\<lparr>private_data := if ?c then private_data fb2 else private_data fb1\<rparr>"
  let ?b = "fb2\<lparr>private_data := priv\<rparr>"
  let ?s4 = "upd_fb p1 ?a (upd_fb p2 ?b s3)"
  have s4: "(if ?c then fblock_migrate_p ops p2 p1 s3 else Some s3) = Some ?s4"
    using b1 b2 ne by (simp add: migrate_p_Some s3 priv_def upd_fb_same)
  have s5: "fblock_migrate_r ops p2 p1 ?s4 = Some (migrated p2 p1 ?s4)"
    by (rule migrate_r_Some[where d = ?b and f = ?a]) (use b1 b2 ne n s3 in auto)
  let ?b5 = "?b\<lparr>fb_idp := i1, fb_name := fb_name fb1, notifiers := notifiers fb1, others := others fb1, refcnt := refcnt fb1\<rparr>"
  let ?a5 = "?a\<lparr>notifiers := notifiers fb2, others := others fb2, refcnt := 2\<rparr>"
  let ?h = "set_self (notifiers fb2) p1 (set_self (notifiers fb1) p2 (nots s))"
  have m: "migrated p2 p1 ?s4 = upd_fb p1 ?a5 (upd_fb p2 ?b5 (s3\<lparr>nots := ?h\<rparr>))"
    using ne b1 b2 idp len by (simp add: migrated_def Let_def upd_fb_def s3 strlcpy_def fun_upd_twist)
  let ?s6 = "upd_fb p2 (?b5\<lparr>refcnt := refcnt ?b5 - 1\<rparr>) (upd_fb p1 (?a5\<lparr>refcnt := 0,
          private_data := op_dtor_outside_rcu ops f1 (private_data ?a5)\<rparr>)
        ((migrated p2 p1 ?s4)\<lparr>fblmap := (fblmap (migrated p2 p1 ?s4))(i1 \<mapsto> p2),
             rcu := rcu (migrated p2 p1 ?s4) @ [FreeFblock p1]\<rparr>))"
  have "replace_blocks ops d p1 p2 f1 f2 s = Some (0, ?s6)"
    unfolding replace_blocks_def t(1)[folded s3_def] bind.simps s4 s5
    by (rule replace_tail[OF ne]) (use b1 b2 ne idp s3 in \<open>simp_all add: m\<close>)
  with t(2,3) show ?thesis
    using ne by (simp add: m s3 flip: s3_def)
qed

lemma registry_inv_replace:
  assumes inv: "registry_inv s" and b1: "fblmap s i1 = Some p1" "fbs s p1 = Some fb1"
    and b2: "fblmap s i2 = Some p2" "fbs s p2 = Some fb2" and ne: "p1 \<noteq> p2"
    and s': "fblmap s' = (fblmap s)(i2 := None, i1 \<mapsto> p2)" "idp_counter s' = idp_counter s"
      "\<And>u. get_fblock_namespace_mapping u s' =
         (if u = fb_name fb2 then IDP_UNKNOWN else get_fblock_namespace_mapping u s)"
      "fbs s' p2 = Some fb" "fb_idp fb = i1" "fb_name fb = fb_name fb1"
      "\<And>q. q \<noteq> p1 \<Longrightarrow> q \<noteq> p2 \<Longrightarrow> fbs s' q = fbs s q"
  shows "registry_inv s'"
proof -
  have i: "fb_idp fb1 = i1" "fb_idp fb2 = i2" "get_fblock_namespace_mapping (fb_name fb1) s = i1"
    "get_fblock_namespace_mapping (fb_name fb2) s = i2" "i1 \<noteq> IDP_UNKNOWN" "unat i1 \<le> unat (idp_counter s)"
    by (rule registry_idpD[OF inv b1(1)], use b1(2) in simp, rule registry_idpD[OF inv b2(1)], use b2(2) in simp,
        rule registry_idpD[OF inv b1(1)], use b1(2) in simp, rule registry_idpD[OF inv b2(1)], use b2(2) in simp,
        rule registry_idpD[OF inv b1(1)], simp, rule registry_idpD[OF inv b1(1)], simp)
  have i12: "i1 \<noteq> i2" "fb_name fb1 \<noteq> fb_name fb2" using b1(1) b2(1) ne i(3,4) by auto
  show ?thesis
  proof (rule registry_invI)
    fix j q assume "fblmap s' j = Some q"
    then consider "j = i1" "q = p2" | "j \<noteq> i1" "j \<noteq> i2" "fblmap s j = Some q"
      using s'(1) by (auto split: if_splits)
    then show "j \<noteq> IDP_UNKNOWN \<and> unat j \<le> unat (idp_counter s') \<and>
        (\<exists>fb. fbs s' q = Some fb \<and> fb_idp fb = j \<and> get_fblock_namespace_mapping (fb_name fb) s' = j)"
    proof cases
      case 1
      then show ?thesis using s' i i12 by simp
    next
      case 2
      from registry_idpD[OF inv 2(3)] obtain fq where f: "fbs s q = Some fq" "fb_idp fq = j"
        "j \<noteq> IDP_UNKNOWN" "unat j \<le> unat (idp_counter s)" "get_fblock_namespace_mapping (fb_name fq) s = j" .
      then have "q \<noteq> p1" "q \<noteq> p2" "fb_name fq \<noteq> fb_name fb2" using b1(2) b2(2) i 2(1,2) by auto
      then show ?thesis using f s' by simp
    qed
  next
    fix u assume "get_fblock_namespace_mapping u s' \<noteq> IDP_UNKNOWN"
    then have u: "u \<noteq> fb_name fb2" "get_fblock_namespace_mapping u s \<noteq> IDP_UNKNOWN" using s'(3) by (auto split: if_splits)
    from registry_nameD[OF inv u(2)] obtain q fq where
      q: "fblmap s (get_fblock_namespace_mapping u s) = Some q" "fbs s q = Some fq" "fb_name fq = u" .
    show "\<exists>p fb. fblmap s' (get_fblock_namespace_mapping u s') = Some p \<and> fbs s' p = Some fb \<and> fb_name fb = u"
    proof (cases "q = p1")
      case True
      then show ?thesis using q b1(2) u s' i by auto
    next
      case False
      moreover have "q \<noteq> p2" using q b2(2) u(1) by auto
      moreover from this False have "get_fblock_namespace_mapping u s \<noteq> i1" "get_fblock_namespace_mapping u s \<noteq> i2"
        using q(1) b1(1) b2(1) by auto
      ultimately show ?thesis using q u s' by auto
    qed
  qed
qed



end
