(* ===== verification/Usr_Common.thy ===== *)
theory Usr_Common
  imports Xt_User Lana_Text
begin

text \<open>What the tools of \<open>src/usr\<close> share. What a tool asks of its host (user, environment, files, shell,
  socket) is a record of answers. Both tools carry the same \<open>strlcpy\<close>, which is also that of
  \<open>src/app/strlcpy.c\<close>.\<close>

section \<open>The host\<close>

datatype module_file = NoFile | NoStat | NotRegular | ForeignOwner | GoodFile

record host =
  is_root :: bool
  preload_dir :: "cstr option"
  module_file_at :: "cstr \<Rightarrow> module_file"
  shell :: "cstr \<Rightarrow> int"
  netlink_ok :: bool

definition root_host :: host where
  "root_host = \<lparr>is_root = True, preload_dir = None, module_file_at = (\<lambda>_. NoFile), shell = (\<lambda>_. 0), netlink_ok = True\<rparr>"

section \<open>Strings\<close>

text \<open>\<open>strlcpy\<close> into the field of size \<open>sz\<close> at offset \<open>off\<close> of a buffer.\<close>

definition strlcpy_at :: "nat \<Rightarrow> nat \<Rightarrow> cstr \<Rightarrow> u8 list \<Rightarrow> u8 list" where
  "strlcpy_at off sz src b =
     (if sz = 0 then b
      else let len = (if length src \<ge> sz then sz - 1 else length src)
           in take off b @ take len src @ [0] @ drop (off + len + 1) b)"

text \<open>\<open>!strncmp(word, arg, strlen(word))\<close>\<close>

definition starts_with :: "string \<Rightarrow> cstr \<Rightarrow> bool" where
  "starts_with w arg \<longleftrightarrow> take (length (lit w)) arg = lit w"

text \<open>\<open>atoi\<close>; a number outside of \<open>int\<close> has no defined result.\<close>

definition isspace :: "u8 \<Rightarrow> bool" where
  "isspace c \<longleftrightarrow> c = 0x20 \<or> (9 \<le> c \<and> c \<le> 13)"

definition atoi :: "cstr \<Rightarrow> int option" where
  "atoi s =
     (let s = dropWhile isspace s;
          neg = (char_at s 0 = 0x2D);
          s = (if neg \<or> char_at s 0 = 0x2B then tl s else s)
      in do {
        (v, _) \<leftarrow> strtoul_digits 10 0 (s @ [0]);
        let x = (if neg then - int v else int v);
        if - (2 ^ 31) \<le> x \<and> x < 2 ^ 31 then Some x else None
      })"

section \<open>Fields written and read\<close>

lemma length_strlcpy_at: "off + sz \<le> length b \<Longrightarrow> length (strlcpy_at off sz src b) = length b"
  by (cases "b = []") (auto simp: strlcpy_at_def Let_def)

lemma cstr_at_written:
  assumes "is_cstr src" "0 < sz" "off + sz \<le> length b"
  shows "cstr_at off (strlcpy_at off sz src b) = Some (strlcpy src sz)"
proof -
  let ?len = "if length src \<ge> sz then sz - 1 else length src"
  have "drop off (strlcpy_at off sz src b) = take ?len src @ 0 # drop (off + ?len + 1) b"
    using assms(2,3) by (simp add: strlcpy_at_def Let_def)
  moreover have "\<forall>c \<in> set (take ?len src). c \<noteq> 0"
    using assms(1) by (auto simp: is_cstr_def dest: in_set_takeD)
  moreover have "take ?len src = strlcpy src sz" by (auto simp: strlcpy_def)
  ultimately show ?thesis by (simp add: cstr_at_def takeWhile_append2)
qed

text \<open>A field whose terminator lies before another field is not changed by writing that one.\<close>

lemma takeWhile_take_eq:
  "x \<in> set (take n xs) \<Longrightarrow> \<not> P x \<Longrightarrow> takeWhile P (take n xs) = takeWhile P xs"
  by (induction xs arbitrary: n) (auto simp: take_Cons split: nat.splits)

lemma cstr_at_before:
  assumes "0 \<in> set (take (off - o') (drop o' b))" "o' \<le> off" "off \<le> length b"
  shows "cstr_at o' (strlcpy_at off sz src b) = cstr_at o' b"
proof -
  let ?b = "strlcpy_at off sz src b"
  have "take off ?b = take off b" using assms(3) by (simp add: strlcpy_at_def Let_def min_def)
  then have eq: "take (off - o') (drop o' ?b) = take (off - o') (drop o' b)"
    by (metis drop_take)
  have "cstr_at o' c = Some (takeWhile (\<lambda>x. x \<noteq> 0) (take (off - o') (drop o' c)))"
    if "0 \<in> set (take (off - o') (drop o' c))" for c
    using takeWhile_take_eq[OF that, of "\<lambda>x. x \<noteq> 0"] that by (auto simp: cstr_at_def dest: in_set_takeD)
  from this[of b] this[of ?b] assms(1) show ?thesis by (simp add: eq)
qed

lemma strlcpy_at_nul:
  assumes "is_cstr src" "0 < sz" "off + sz \<le> length b"
  shows "0 \<in> set (take sz (drop off (strlcpy_at off sz src b)))"
proof -
  let ?len = "if length src \<ge> sz then sz - 1 else length src"
  have len: "length (take ?len src) = ?len" "?len < sz" using assms(2) by auto
  have "drop off (strlcpy_at off sz src b) = take ?len src @ 0 # drop (off + ?len + 1) b"
    using assms(2,3) by (simp add: strlcpy_at_def Let_def)
  moreover have "take sz (take ?len src @ 0 # drop (off + ?len + 1) b) =
      take ?len src @ take (sz - ?len) (0 # drop (off + ?len + 1) b)"
    using len by (simp add: min_def)
  ultimately show ?thesis using len(2) by (cases "sz - ?len") simp_all
qed

lemma atoi_num_text: "n < 2 ^ 31 \<Longrightarrow> atoi (num_text 10 n) = Some (int n)"
proof -
  assume n: "n < 2 ^ 31"
  obtain v ds where v: "num_text 10 n = digit_char v # ds" "v < 10" using num_text_first[of 10 n] by auto
  have "unat (digit_char v) = 48 + v" using v(2) by (simp add: unat_digit_char)
  then have d: "\<not> isspace (digit_char v)" "digit_char v \<noteq> 0x2D" "digit_char v \<noteq> 0x2B"
    by (auto simp: isspace_def word_le_nat_alt)
  have "strtoul_digits 10 0 (num_text 10 n @ [0]) = Some (n, [0])"
    by (simp add: strtoul_digits_num_text xdigit_val_def)
  with n v d show ?thesis by (simp add: atoi_def char_at_def Let_def)
qed

end
