(* ===== verification/Usr_Fbctl.thy ===== *)
theory Usr_Fbctl
  imports Usr_Common
begin

text \<open>The configuration tool \<open>src/usr/fbctl.c\<close>: it turns its command line into a message for
  \<^const>\<open>userctl_rcv_msg\<close>, or loads a module. The outcome of a run is how the process ends
  and what it has sent.\<close>

section \<open>The outcome\<close>

datatype fbctl_outcome =
    FbctlUsage
  | FbctlVersion
  | FbctlPanic
  | FbctlRan cstr
  | FbctlSent nlmsghdr

section \<open>Messages\<close>

definition zero_msg :: "u32 \<Rightarrow> lananlmsg" where
  "zero_msg cmd = \<lparr>lmsg_cmd = cmd, lmsg_buff = replicate USERCTL_BUF_LEN 0\<rparr>"

definition set_field :: "nat \<Rightarrow> nat \<Rightarrow> cstr \<Rightarrow> lananlmsg \<Rightarrow> lananlmsg" where
  "set_field off sz src lmsg = lmsg\<lparr>lmsg_buff := strlcpy_at off sz src (lmsg_buff lmsg)\<rparr>"

definition le32_bytes :: "u32 \<Rightarrow> u8 list" where
  "le32_bytes w = [ucast w, ucast (drop_bit 8 w), ucast (drop_bit 16 w), ucast (drop_bit 24 w)]"

definition send_netlink :: "host \<Rightarrow> lananlmsg \<Rightarrow> fbctl_outcome" where
  "send_netlink host lmsg =
     (if \<not> netlink_ok host then FbctlPanic
      else FbctlSent \<lparr>nlmsg_len = NLMSG_LENGTH sizeof_lananlmsg, nlmsg_type = USERCTLGRP_CONF,
                      nlmsg_data = le32_bytes (lmsg_cmd lmsg) @ lmsg_buff lmsg\<rparr>)"

section \<open>Commands\<close>

definition do_preload :: "host \<Rightarrow> cstr list \<Rightarrow> fbctl_outcome" where
  "do_preload host argv =
     (if length argv \<noteq> 1 then FbctlPanic
      else case preload_dir host of
        None \<Rightarrow>
          (let cmd = take 511 (lit ''modprobe '' @ argv ! 0)
           in if shell host cmd \<noteq> 0 then FbctlPanic else FbctlRan cmd)
      | Some env \<Rightarrow>
          (let path = take 255 env; file = take 319 (path @ argv ! 0 @ lit ''.ko'')
           in if module_file_at host file \<noteq> GoodFile then FbctlPanic
              else let cmd = take 511 (lit ''insmod '' @ file)
                   in if shell host cmd \<noteq> 0 then FbctlPanic else FbctlRan cmd))"

definition do_add :: "host \<Rightarrow> cstr list \<Rightarrow> fbctl_outcome" where
  "do_add host argv =
     (if length argv \<noteq> 2 then FbctlUsage
      else send_netlink host (set_field FBNAMSIZ FBNAMSIZ (argv ! 1)
             (set_field 0 FBNAMSIZ (argv ! 0) (zero_msg NETLINK_USERCTL_CMD_ADD))))"

definition do_set :: "host \<Rightarrow> cstr list \<Rightarrow> fbctl_outcome" where
  "do_set host argv =
     (if length argv \<noteq> 2 then FbctlUsage
      else send_netlink host (set_field FBNAMSIZ (USERCTL_BUF_LEN - FBNAMSIZ) (argv ! 1)
             (set_field 0 FBNAMSIZ (argv ! 0) (zero_msg NETLINK_USERCTL_CMD_SET))))"

definition do_rm :: "host \<Rightarrow> cstr list \<Rightarrow> fbctl_outcome" where
  "do_rm host argv =
     (if length argv \<noteq> 1 then FbctlUsage
      else send_netlink host (set_field 0 FBNAMSIZ (argv ! 0) (zero_msg NETLINK_USERCTL_CMD_RM)))"

text \<open>The commands on two names differ in their number only.\<close>

definition do_tuple :: "u32 \<Rightarrow> host \<Rightarrow> cstr list \<Rightarrow> fbctl_outcome" where
  "do_tuple cmd host argv =
     (if length argv \<noteq> 2 then FbctlUsage
      else send_netlink host (set_field FBNAMSIZ FBNAMSIZ (argv ! 1)
             (set_field 0 FBNAMSIZ (argv ! 0) (zero_msg cmd))))"

definition do_bind :: "host \<Rightarrow> cstr list \<Rightarrow> fbctl_outcome" where
  "do_bind = do_tuple NETLINK_USERCTL_CMD_BIND"

definition do_unbind :: "host \<Rightarrow> cstr list \<Rightarrow> fbctl_outcome" where
  "do_unbind = do_tuple NETLINK_USERCTL_CMD_UNBIND"

definition do_subscribe :: "host \<Rightarrow> cstr list \<Rightarrow> fbctl_outcome" where
  "do_subscribe = do_tuple NETLINK_USERCTL_CMD_SUBSCRIBE"

definition do_unsubscribe :: "host \<Rightarrow> cstr list \<Rightarrow> fbctl_outcome" where
  "do_unsubscribe = do_tuple NETLINK_USERCTL_CMD_UNSUBSCRIBE"

definition do_replace :: "host \<Rightarrow> cstr list \<Rightarrow> bool \<Rightarrow> fbctl_outcome" where
  "do_replace host argv drop_priv =
     (if length argv \<noteq> 2 then FbctlUsage
      else let m = set_field FBNAMSIZ FBNAMSIZ (argv ! 1)
             (set_field 0 FBNAMSIZ (argv ! 0) (zero_msg NETLINK_USERCTL_CMD_REPLACE))
           in send_netlink host (m\<lparr>lmsg_buff := (lmsg_buff m)[2 * FBNAMSIZ := if drop_priv then 1 else 0]\<rparr>))"

definition fbctl_main :: "host \<Rightarrow> cstr list \<Rightarrow> fbctl_outcome" where
  "fbctl_main host args =
     (if \<not> is_root host then FbctlPanic
      else case args of
        [] \<Rightarrow> FbctlUsage
      | w # argv \<Rightarrow>
          if starts_with ''help'' w then FbctlUsage
          else if starts_with ''version'' w then FbctlVersion
          else if starts_with ''preload'' w then do_preload host argv
          else if starts_with ''add'' w then do_add host argv
          else if starts_with ''set'' w then do_set host argv
          else if starts_with ''rm'' w then do_rm host argv
          else if starts_with ''bind'' w then do_bind host argv
          else if starts_with ''unbind'' w then do_unbind host argv
          else if starts_with ''replace'' w then do_replace host argv False
          else if starts_with ''replace-drop'' w then do_replace host argv True
          else if starts_with ''subscribe'' w then do_subscribe host argv
          else if starts_with ''unsubscribe'' w then do_unsubscribe host argv
          else FbctlUsage)"

section \<open>From the fields written to the fields read\<close>

lemma le32_roundtrip: "le32 (ucast w) (ucast (drop_bit 8 w)) (ucast (drop_bit 16 w)) (ucast (drop_bit 24 w)) = w"
proof (rule bit_word_eqI)
  fix n assume n: "n < LENGTH(32)"
  then consider "n < 8" | "8 \<le> n" "n < 16" | "16 \<le> n" "n < 24" | "24 \<le> n" "n < 32" by (simp) linarith
  then show "bit (le32 (ucast w) (ucast (drop_bit 8 w)) (ucast (drop_bit 16 w)) (ucast (drop_bit 24 w))) n = bit w n"
    by cases (auto simp: le32_def bit_simps)
qed

text \<open>A message with two fields, as the tool fills it.\<close>

definition two_fields :: "u32 \<Rightarrow> nat \<Rightarrow> cstr \<Rightarrow> cstr \<Rightarrow> lananlmsg" where
  "two_fields cmd sz a b = set_field FBNAMSIZ sz b (set_field 0 FBNAMSIZ a (zero_msg cmd))"

lemma two_fields_read:
  assumes "is_cstr a" "is_cstr b" "0 < sz" "FBNAMSIZ + sz \<le> USERCTL_BUF_LEN"
  shows "lmsg_cmd (two_fields cmd sz a b) = cmd" "length (lmsg_buff (two_fields cmd sz a b)) = USERCTL_BUF_LEN"
    "cstr_at 0 (lmsg_buff (two_fields cmd sz a b)) = Some (strlcpy a FBNAMSIZ)"
    "cstr_at FBNAMSIZ (lmsg_buff (two_fields cmd sz a b)) = Some (strlcpy b sz)"
proof -
  let ?z = "replicate USERCTL_BUF_LEN 0 :: u8 list"
  let ?b1 = "strlcpy_at 0 FBNAMSIZ a ?z"
  have s: "0 < FBNAMSIZ" "0 + FBNAMSIZ \<le> length ?z" using assms(4) by (simp_all add: FBNAMSIZ_def)
  then have l: "length ?b1 = USERCTL_BUF_LEN" by (simp add: length_strlcpy_at)
  have buff: "lmsg_buff (two_fields cmd sz a b) = strlcpy_at FBNAMSIZ sz b ?b1"
    by (simp add: two_fields_def set_field_def zero_msg_def)
  show "lmsg_cmd (two_fields cmd sz a b) = cmd" by (simp add: two_fields_def set_field_def zero_msg_def)
  show "length (lmsg_buff (two_fields cmd sz a b)) = USERCTL_BUF_LEN"
    using assms(4) l by (simp add: buff length_strlcpy_at)
  show "cstr_at FBNAMSIZ (lmsg_buff (two_fields cmd sz a b)) = Some (strlcpy b sz)"
    unfolding buff by (rule cstr_at_written[OF assms(2,3)]) (simp add: l assms(4))
  have "cstr_at 0 (strlcpy_at FBNAMSIZ sz b ?b1) = cstr_at 0 ?b1"
    by (rule cstr_at_before) (use strlcpy_at_nul[OF assms(1) s] l assms(4) in simp_all)
  then show "cstr_at 0 (lmsg_buff (two_fields cmd sz a b)) = Some (strlcpy a FBNAMSIZ)"
    unfolding buff using cstr_at_written[OF assms(1) s] by simp
qed

text \<open>What the kernel makes of a message the tool has sent.\<close>

lemma lananlmsg_of_sent:
  assumes "length (lmsg_buff m) = USERCTL_BUF_LEN"
  shows "lananlmsg_of (le32_bytes (lmsg_cmd m) @ lmsg_buff m) = Some m"
  using assms le32_roundtrip[of "lmsg_cmd m"] by (cases m) (simp add: lananlmsg_of_def le32_bytes_def USERCTL_BUF_LEN_def)

definition sent :: "lananlmsg \<Rightarrow> nlmsghdr" where
  "sent m = \<lparr>nlmsg_len = NLMSG_LENGTH sizeof_lananlmsg, nlmsg_type = USERCTLGRP_CONF,
     nlmsg_data = le32_bytes (lmsg_cmd m) @ lmsg_buff m\<rparr>"

lemma send_netlink_sent: "netlink_ok host \<Longrightarrow> send_netlink host m = FbctlSent (sent m)"
  by (simp add: send_netlink_def sent_def)

lemma userctl_rcv_sent:
  assumes "length (lmsg_buff m) = USERCTL_BUF_LEN"
  shows "userctl_rcv_msg ops ctor False (sent m) s =
    (let cmd = lmsg_cmd m in
       if cmd = NETLINK_USERCTL_CMD_ADD then userctl_add ops ctor m s
       else if cmd = NETLINK_USERCTL_CMD_SET then userctl_set ops m s
       else if cmd = NETLINK_USERCTL_CMD_REPLACE then userctl_replace ops m s
       else if cmd = NETLINK_USERCTL_CMD_SUBSCRIBE then userctl_subscribe ops m s
       else if cmd = NETLINK_USERCTL_CMD_UNSUBSCRIBE then userctl_unsubscribe ops m s
       else if cmd = NETLINK_USERCTL_CMD_RM then userctl_remove ops m s
       else if cmd = NETLINK_USERCTL_CMD_BIND then userctl_bind ops m s
       else if cmd = NETLINK_USERCTL_CMD_UNBIND then userctl_unbind ops m s
       else Some (- ENOENT, s))"
  unfolding userctl_rcv_msg_def sent_def using lananlmsg_of_sent[OF assms] by simp

text \<open>The commands with two arguments, with the size of the second field and the handler they are
  for. (The private data are only kept or dropped by a replace.)\<close>

definition two_arg_commands ::
    "'p fb_ops \<Rightarrow> (fb_module \<Rightarrow> cstr \<Rightarrow> 'p lana \<Rightarrow> (ptr option \<times> 'p lana) option) \<Rightarrow>
     (string \<times> nat \<times> (lananlmsg \<Rightarrow> 'p lana \<Rightarrow> (int \<times> 'p lana) option)) list" where
  "two_arg_commands ops ctor =
     [(''add'', FBNAMSIZ, userctl_add ops ctor),
      (''set'', USERCTL_BUF_LEN - FBNAMSIZ, userctl_set ops),
      (''bind'', FBNAMSIZ, userctl_bind ops),
      (''unbind'', FBNAMSIZ, userctl_unbind ops),
      (''subscribe'', FBNAMSIZ, userctl_subscribe ops),
      (''unsubscribe'', FBNAMSIZ, userctl_unsubscribe ops)]"

lemma fbctl_two_args:
  assumes "is_root host"
  shows "fbctl_main host [lit ''add'', a, b] = send_netlink host (two_fields NETLINK_USERCTL_CMD_ADD FBNAMSIZ a b)"
    "fbctl_main host [lit ''set'', a, b] =
       send_netlink host (two_fields NETLINK_USERCTL_CMD_SET (USERCTL_BUF_LEN - FBNAMSIZ) a b)"
    "fbctl_main host [lit ''bind'', a, b] = send_netlink host (two_fields NETLINK_USERCTL_CMD_BIND FBNAMSIZ a b)"
    "fbctl_main host [lit ''unbind'', a, b] = send_netlink host (two_fields NETLINK_USERCTL_CMD_UNBIND FBNAMSIZ a b)"
    "fbctl_main host [lit ''subscribe'', a, b] =
       send_netlink host (two_fields NETLINK_USERCTL_CMD_SUBSCRIBE FBNAMSIZ a b)"
    "fbctl_main host [lit ''unsubscribe'', a, b] =
       send_netlink host (two_fields NETLINK_USERCTL_CMD_UNSUBSCRIBE FBNAMSIZ a b)"
  using assms
  by (simp_all add: fbctl_main_def starts_with_def lit_def two_fields_def do_add_def do_set_def do_bind_def
      do_unbind_def do_subscribe_def do_unsubscribe_def do_tuple_def)

lemma fbctl_rm:
  "is_root host \<Longrightarrow> fbctl_main host [lit ''rm'', a] =
     send_netlink host (set_field 0 FBNAMSIZ a (zero_msg NETLINK_USERCTL_CMD_RM))"
  by (simp add: fbctl_main_def starts_with_def lit_def do_rm_def)

text \<open>C30: The tool reaches its handlers. Run by root on a working socket, each two-argument command of
  the tool other than a replace sends one message, and the kernel answers that message by its handler
  for the command, on a message whose two fields read as the given arguments, cut to the size of their
  fields.\<close>
theorem fbctl_reaches_handler:
  assumes "is_root host" "netlink_ok host" "is_cstr a" "is_cstr b"
    and "(w, sz, h) \<in> set (two_arg_commands ops ctor)"
  shows "\<exists>nlh l. fbctl_main host [lit w, a, b] = FbctlSent nlh \<and> userctl_rcv_msg ops ctor False nlh s = h l s \<and>
     cstr_at 0 (lmsg_buff l) = Some (strlcpy a FBNAMSIZ) \<and> cstr_at FBNAMSIZ (lmsg_buff l) = Some (strlcpy b sz)"
proof -
  have sz: "0 < sz" "FBNAMSIZ + sz \<le> USERCTL_BUF_LEN"
    using assms(5) by (auto simp: two_arg_commands_def FBNAMSIZ_def USERCTL_BUF_LEN_def)
  note r = two_fields_read[OF assms(3,4) sz]
  obtain cmd where "fbctl_main host [lit w, a, b] = send_netlink host (two_fields cmd sz a b)"
    "\<And>m. lmsg_cmd m = cmd \<Longrightarrow> length (lmsg_buff m) = USERCTL_BUF_LEN \<Longrightarrow>
        userctl_rcv_msg ops ctor False (sent m) s = h m s"
    using assms(5) fbctl_two_args[OF assms(1), of a b] unfolding two_arg_commands_def
    by (auto simp: userctl_rcv_sent Let_def)
  with r assms(2) show ?thesis by (auto simp: send_netlink_sent)
qed

theorem fbctl_reaches_handler_witness:
  "\<exists>nlh l. fbctl_main root_host [lit ''bind'', lit ''a'', lit ''b''] = FbctlSent nlh \<and>
     userctl_rcv_msg idle_ops (\<lambda>_ _ s. Some (None, s)) False nlh (lana_boot :: nat lana) = userctl_bind idle_ops l lana_boot \<and>
     msg_name1 l = Some (lit ''a'') \<and> msg_name2 l = Some (lit ''b'')"
  using fbctl_reaches_handler[of root_host "lit ''a''" "lit ''b''" "''bind''" FBNAMSIZ "userctl_bind idle_ops"
      idle_ops "\<lambda>_ _ s. Some (None, s)" "lana_boot :: nat lana"]
  by (auto simp: root_host_def is_cstr_def lit_def two_arg_commands_def msg_name1_def msg_name2_def strlcpy_def FBNAMSIZ_def)

lemma length_set_field:
  "off + sz \<le> length (lmsg_buff m) \<Longrightarrow> length (lmsg_buff (set_field off sz src m)) = length (lmsg_buff m)"
  by (simp add: set_field_def length_strlcpy_at)

lemma do_replace_False:
  assumes "do_replace host argv False = FbctlSent nlh"
  shows "\<exists>l. lananlmsg_of (nlmsg_data nlh) = Some l \<and> lmsg_cmd l = NETLINK_USERCTL_CMD_REPLACE \<and> msg_drop_priv l = 0"
proof -
  let ?m = "set_field FBNAMSIZ FBNAMSIZ (argv ! 1) (set_field 0 FBNAMSIZ (argv ! 0) (zero_msg NETLINK_USERCTL_CMD_REPLACE))"
  let ?l = "?m\<lparr>lmsg_buff := (lmsg_buff ?m)[2 * FBNAMSIZ := 0]\<rparr>"
  have len: "length (lmsg_buff ?m) = USERCTL_BUF_LEN"
    by (simp add: length_set_field zero_msg_def FBNAMSIZ_def USERCTL_BUF_LEN_def)
  have "nlh = sent ?l" using assms by (auto simp: do_replace_def Let_def send_netlink_def sent_def split: if_splits)
  moreover have "lananlmsg_of (nlmsg_data (sent ?l)) = Some ?l"
    using lananlmsg_of_sent[of ?l] len by (simp add: sent_def)
  moreover have "msg_drop_priv ?l = 0" using len by (simp add: msg_drop_priv_def FBNAMSIZ_def USERCTL_BUF_LEN_def)
  moreover have "lmsg_cmd ?l = NETLINK_USERCTL_CMD_REPLACE" by (simp add: set_field_def zero_msg_def)
  ultimately show ?thesis by blast
qed

text \<open>C31: Private data cannot be dropped. The command \<open>replace-drop\<close> of the tool (and
  \<open>replace_drop\<close>, as its help text calls it) does exactly what \<open>replace\<close> does, because the
  test for \<open>replace\<close> accepts every word that starts with it: each message it sends asks the
  kernel to keep the private data.\<close>
theorem replace_drop_is_replace:
  "fbctl_main host (lit ''replace-drop'' # argv) = fbctl_main host (lit ''replace'' # argv) \<and>
   fbctl_main host (lit ''replace_drop'' # argv) = fbctl_main host (lit ''replace'' # argv) \<and>
   (\<forall>nlh. fbctl_main host (lit ''replace-drop'' # argv) = FbctlSent nlh \<longrightarrow>
      (\<exists>l. lananlmsg_of (nlmsg_data nlh) = Some l \<and> lmsg_cmd l = NETLINK_USERCTL_CMD_REPLACE \<and> msg_drop_priv l = 0))"
proof -
  let ?r = "if is_root host then do_replace host argv False else FbctlPanic"
  have "fbctl_main host (lit ''replace'' # argv) = ?r"
    by (simp add: fbctl_main_def starts_with_def lit_def)
  moreover have "fbctl_main host (lit ''replace-drop'' # argv) = ?r"
    by (simp add: fbctl_main_def starts_with_def lit_def)
  moreover have "fbctl_main host (lit ''replace_drop'' # argv) = ?r"
    by (simp add: fbctl_main_def starts_with_def lit_def)
  ultimately show ?thesis using do_replace_False by simp
qed

theorem replace_drop_is_replace_witness:
  "\<exists>nlh l. fbctl_main root_host [lit ''replace-drop'', lit ''a'', lit ''b''] = FbctlSent nlh \<and>
     lananlmsg_of (nlmsg_data nlh) = Some l \<and> msg_drop_priv l = 0"
proof -
  have "\<exists>nlh. fbctl_main root_host [lit ''replace'', lit ''a'', lit ''b''] = FbctlSent nlh"
    by (simp add: fbctl_main_def root_host_def starts_with_def lit_def do_replace_def send_netlink_def Let_def)
  then show ?thesis using replace_drop_is_replace[of root_host "[lit ''a'', lit ''b'']"] by auto
qed

end
