(* ===== verification/Usr_Vlink.thy ===== *)
theory Usr_Vlink
  imports Usr_Common
begin

text \<open>The tool \<open>src/usr/vlink.c\<close>: it turns its command line into a message for
  \<^const>\<open>vlink_rcv_msg\<close>. A port that is no \<open>int\<close> has no defined result (\<^const>\<open>None\<close>).\<close>

datatype vlink_outcome =
    VlinkUsage
  | VlinkVersion
  | VlinkPanic
  | VlinkSent nlmsghdr

section \<open>Messages\<close>

text \<open>The bytes of the structure in memory, with its bit fields in little-endian order; the bits
  \<open>reserved\<close> are never set.\<close>

definition le16_bytes :: "u16 \<Rightarrow> u8 list" where
  "le16_bytes w = [ucast w, ucast (drop_bit 8 w)]"

definition vlinknlmsg_bytes :: "vlinknlmsg \<Rightarrow> u8 list" where
  "vlinknlmsg_bytes m =
     [vm_cmd m] @ le16_bytes (vm_flags m) @ [0] @ le16_bytes (vm_type m) @ le16_bytes (vm_port m) @ virt_name m @ real_name m"

definition IFNAMSIZ :: nat where
  "IFNAMSIZ = 16"

text \<open>The command a command line asks for; \<^const>\<open>None\<close> if the usage is printed.\<close>

definition ethernet_cmd :: "cstr list \<Rightarrow> u8 option" where
  "ethernet_cmd argv =
     (if argv = [] then None
      else if starts_with ''add'' (argv ! 0) \<and> length argv = 4 then Some VLINKNLCMD_ADD_DEVICE
      else if starts_with ''rm'' (argv ! 0) \<and> length argv = 2 then Some VLINKNLCMD_RM_DEVICE
      else if starts_with ''hook'' (argv ! 0) \<and> length argv = 2 then Some VLINKNLCMD_START_HOOK_DEVICE
      else if starts_with ''unhook'' (argv ! 0) \<and> length argv = 2 then Some VLINKNLCMD_STOP_HOOK_DEVICE
      else None)"

definition do_ethernet :: "host \<Rightarrow> cstr list \<Rightarrow> vlink_outcome option" where
  "do_ethernet host argv =
     (case ethernet_cmd argv of
        None \<Rightarrow> Some VlinkUsage
      | Some cmd \<Rightarrow>
          if \<not> netlink_ok host then Some VlinkPanic
          else do {
            port \<leftarrow> (if cmd = VLINKNLCMD_ADD_DEVICE then map_option word_of_int (atoi (argv ! 3)) else Some 0);
            let field = replicate IFNAMSIZ 0;
            let vmsg = \<lparr>vm_cmd = cmd, vm_flags = 0, vm_type = 0, vm_port = port,
                        virt_name = strlcpy_at 0 IFNAMSIZ (argv ! 1) field,
                        real_name =
                          (if cmd = VLINKNLCMD_ADD_DEVICE then strlcpy_at 0 IFNAMSIZ (argv ! 2) field
                           else if cmd = VLINKNLCMD_START_HOOK_DEVICE \<or> cmd = VLINKNLCMD_STOP_HOOK_DEVICE
                           then strlcpy_at 0 IFNAMSIZ (argv ! 1) field
                           else field)\<rparr>;
            Some (VlinkSent \<lparr>nlmsg_len = NLMSG_LENGTH sizeof_vlinknlmsg, nlmsg_type = group_type VLINKNLGRP_ETHERNET,
                             nlmsg_data = vlinknlmsg_bytes vmsg\<rparr>)
          })"

definition vlink_main :: "host \<Rightarrow> cstr list \<Rightarrow> vlink_outcome option" where
  "vlink_main host args =
     (if \<not> is_root host then Some VlinkPanic
      else case args of
        [] \<Rightarrow> Some VlinkUsage
      | w # argv \<Rightarrow>
          if starts_with ''help'' w then Some VlinkUsage
          else if starts_with ''version'' w then Some VlinkVersion
          else if starts_with ''ethernet'' w then do_ethernet host argv
          else Some VlinkUsage)"

section \<open>From the command line to the callbacks\<close>

lemma le16_roundtrip: "le16 (ucast w) (ucast (drop_bit 8 w)) = w"
proof (rule bit_word_eqI)
  fix n assume "n < LENGTH(16)"
  then consider "n < 8" | "8 \<le> n" "n < 16" by simp linarith
  then show "bit (le16 (ucast w) (ucast (drop_bit 8 w))) n = bit w n"
    by cases (auto simp: le16_def bit_simps)
qed

lemma vlinknlmsg_of_bytes:
  assumes "length (virt_name m) = 16" "length (real_name m) = 16"
  shows "vlinknlmsg_of (vlinknlmsg_bytes m) = Some m"
  using assms by (cases m) (simp add: vlinknlmsg_of_def vlinknlmsg_bytes_def le16_bytes_def le16_roundtrip)

lemma name_field:
  assumes "is_cstr a"
  shows "length (strlcpy_at 0 IFNAMSIZ a (replicate IFNAMSIZ 0)) = 16"
    "cstr_at 0 (strlcpy_at 0 IFNAMSIZ a (replicate IFNAMSIZ 0)) = Some (strlcpy a IFNAMSIZ)"
  using length_strlcpy_at[of 0 IFNAMSIZ "replicate IFNAMSIZ 0" a] cstr_at_written[OF assms, of IFNAMSIZ 0 "replicate IFNAMSIZ 0"]
  by (simp_all add: IFNAMSIZ_def)

lemma empty_field: "cstr_at 0 (replicate IFNAMSIZ 0) = Some (strlcpy [] IFNAMSIZ)"
  by (simp add: cstr_at_def strlcpy_def IFNAMSIZ_def)

text \<open>The command lines of the tool, with the number of the command and what the message says: port, name of the
  virtual device and name of the real one.\<close>

definition vlink_commands :: "cstr \<Rightarrow> cstr \<Rightarrow> nat \<Rightarrow> (cstr list \<times> u8 \<times> nat \<times> cstr \<times> cstr) list" where
  "vlink_commands a b port =
     [([lit ''add'', a, b, num_text 10 port], VLINKNLCMD_ADD_DEVICE, port, a, b),
      ([lit ''rm'', a], VLINKNLCMD_RM_DEVICE, 0, a, []),
      ([lit ''hook'', a], VLINKNLCMD_START_HOOK_DEVICE, 0, a, a),
      ([lit ''unhook'', a], VLINKNLCMD_STOP_HOOK_DEVICE, 0, a, a)]"

text \<open>C35: The tool reaches the callbacks. Run by root on a working socket, each command line of the tool sends
  one message; the kernel finds the Ethernet subsystem for it and runs the callbacks of that subsystem
  on a message that says what the command line says: command, port, and the two names, cut to 15 characters.\<close>
theorem vlink_reaches_callbacks:
  assumes "is_root host" "netlink_ok host" "is_cstr a" "is_cstr b" "port < 2 ^ 16"
    and "vlink_subsys_find (group_type VLINKNLGRP_ETHERNET) (fst s) = Some (Some n)"
    and "(args, cmd, prt, virt, real) \<in> set (vlink_commands a b port)"
  shows "\<exists>nlh m. vlink_main host (lit ''ethernet'' # args) = Some (VlinkSent nlh) \<and>
     vlink_rcv_msg rx False nlh s = vlink_invoke rx n m s \<and> vm_cmd m = cmd \<and> unat (vm_port m) = prt \<and>
     cstr_at 0 (virt_name m) = Some (strlcpy virt IFNAMSIZ) \<and> cstr_at 0 (real_name m) = Some (strlcpy real IFNAMSIZ)"
proof -
  let ?field = "\<lambda>x. strlcpy_at 0 IFNAMSIZ x (replicate IFNAMSIZ 0)"
  let ?m = "\<lparr>vm_cmd = cmd, vm_flags = 0, vm_type = 0, vm_port = of_nat prt, virt_name = ?field virt,
     real_name = (if cmd = VLINKNLCMD_RM_DEVICE then replicate IFNAMSIZ 0 else ?field real)\<rparr>"
  let ?nlh = "\<lparr>nlmsg_len = NLMSG_LENGTH sizeof_vlinknlmsg, nlmsg_type = group_type VLINKNLGRP_ETHERNET,
     nlmsg_data = vlinknlmsg_bytes ?m\<rparr>"
  have port: "atoi (num_text 10 port) = Some (int port)" using assms(5) by (intro atoi_num_text) simp
  have main: "vlink_main host (lit ''ethernet'' # args) = Some (VlinkSent ?nlh)"
    using assms(1,2,7) port
    by (auto simp: vlink_main_def vlink_commands_def do_ethernet_def ethernet_cmd_def starts_with_def lit_def Let_def)
  have "vlinknlmsg_of (vlinknlmsg_bytes ?m) = Some ?m"
    using assms(3,4,7) name_field by (intro vlinknlmsg_of_bytes) (auto simp: vlink_commands_def IFNAMSIZ_def)
  then have rcv: "vlink_rcv_msg rx False ?nlh s = vlink_invoke rx n ?m s"
    using assms(6) by (simp add: vlink_rcv_msg_def)
  have "unat (vm_port ?m) = prt" "cstr_at 0 (virt_name ?m) = Some (strlcpy virt IFNAMSIZ)"
    "cstr_at 0 (real_name ?m) = Some (strlcpy real IFNAMSIZ)"
    using assms(3,4,5,7) by (auto simp: vlink_commands_def unat_of_nat name_field empty_field)
  with main rcv show ?thesis by (intro exI[of _ ?nlh] exI[of _ ?m]) simp
qed

definition eth_only :: "unit vlink_system" where
  "eth_only = \<lparr>vlink_subsystem_table = Some [Some 1],
     subsystems = [1 \<mapsto> \<lparr>vs_name = lit ''eth'', vs_type = 17, vs_id = 0, vs_owner = FB_ETH, vs_head = None\<rparr>],
     callbacks = Map.empty, vlink_modrefs = (\<lambda>_. 0), vlink_sock = True, vlink_proc = True\<rparr>"

theorem vlink_reaches_callbacks_witness:
  "\<exists>nlh. vlink_main root_host [lit ''ethernet'', lit ''hook'', lit ''eth0''] = Some (VlinkSent nlh) \<and>
     vlink_rcv_msg (\<lambda>_ _ e. Some (0, e)) False nlh (eth_only, ()) = Some (0, eth_only, ())"
proof -
  have "vlink_subsys_find (group_type VLINKNLGRP_ETHERNET) (fst (eth_only, ())) = Some (Some 1)"
    by (simp add: vlink_subsys_find_def eth_only_def)
  from vlink_reaches_callbacks[of root_host "lit ''eth0''" "[]" 0 "(eth_only, ())" 1, OF _ _ _ _ _ this,
      of "[lit ''hook'', lit ''eth0'']" VLINKNLCMD_START_HOOK_DEVICE 0 "lit ''eth0''" "lit ''eth0''" "\<lambda>_ _ e. Some (0, e)"]
  show ?thesis
    by (auto simp: root_host_def is_cstr_def lit_def vlink_commands_def vlink_invoke_def eth_only_def invoke_from.simps)
qed

end
