(* ===== verification/Lana_Core.thy ===== *)
theory Lana_Core
  imports Xt_Engine Xt_User
begin

text \<open>The core module, \<open>src/src/core.c\<close>: its start brings up the virtual link layer, the tables of blocks, the
  builder, the control socket and the engine, one after the other, and takes down what is already up
  when a step fails; its stop takes all down.\<close>

section \<open>Data\<close>

text \<open>\<open>proc_net\<close> lists the entries of \<open>/proc/net\<close>.\<close>

record ('p, 'r) core =
  ckern :: "'p kern"
  vlinks :: "'r vlink_system"
  userctl_sock :: bool
  proc_net :: "cstr list"

text \<open>The answers of the kernel to the requests for the virtual link layer (table, socket, proc entry) and for the
  socket of the control system. All other requests draw on \<^const>\<open>kmem\<close>.\<close>

record core_env =
  online_cpus :: nat
  vlink_table_ok :: bool
  vlink_sock_ok :: bool
  vlink_proc_ok :: bool
  vlink_junk :: int
  userctl_ok :: bool

definition on_ctabs :: "'p lana \<Rightarrow> ('p, 'r) core \<Rightarrow> ('p, 'r) core" where
  "on_ctabs t c = c\<lparr>ckern := (ckern c)\<lparr>tabs := t\<rparr>\<rparr>"

section \<open>Start and stop\<close>

text \<open>The labels \<open>err\<close> to \<open>err5\<close>, each falling through to the one before.\<close>

definition core_err :: "('p, 'r) core \<Rightarrow> ('p, 'r) core" where
  "core_err c = c\<lparr>proc_net := remove_proc_entry (lit ''lana'') (proc_net c)\<rparr>"

definition core_err1 :: "('p, 'r) core \<Rightarrow> ('p, 'r) core" where
  "core_err1 c =
     (let t = tabs (ckern c)
      in core_err (on_ctabs (t\<lparr>lana_proc_dir := remove_proc_entry (lit ''fblock'') (lana_proc_dir t)\<rparr>) c))"

definition core_err2 :: "('p, 'r) core \<Rightarrow> ('p, 'r) core" where
  "core_err2 c = core_err1 (c\<lparr>vlinks := cleanup_vlink_system (vlinks c)\<rparr>)"

definition core_err3 :: "'p fb_ops \<Rightarrow> ('p, 'r) core \<Rightarrow> ('p, 'r) core option" where
  "core_err3 ops c = do { t \<leftarrow> cleanup_fblock_tables ops (tabs (ckern c)); Some (core_err2 (on_ctabs t c)) }"

definition core_err4 :: "'p fb_ops \<Rightarrow> ('p, 'r) core \<Rightarrow> ('p, 'r) core option" where
  "core_err4 ops c = do { t \<leftarrow> cleanup_fblock_builder ops (tabs (ckern c)); core_err3 ops (on_ctabs t c) }"

definition core_err5 :: "'p fb_ops \<Rightarrow> ('p, 'r) core \<Rightarrow> ('p, 'r) core option" where
  "core_err5 ops c = core_err4 ops (c\<lparr>userctl_sock := cleanup_userctl_system (userctl_sock c)\<rparr>)"

text \<open>The start from the tables of blocks on.\<close>

definition init_core_tables :: "'p fb_ops \<Rightarrow> core_env \<Rightarrow> ('p, 'r) core \<Rightarrow> (int \<times> ('p, 'r) core) option" where
  "init_core_tables ops env c = do {
     (ret, t) \<leftarrow> init_fblock_tables ops (tabs (ckern c));
     let c = on_ctabs t c;
     if ret \<noteq> 0 then Some (- ENOMEM, core_err2 c)
     else do {
       (ret, t) \<leftarrow> init_fblock_builder (tabs (ckern c));
       let c = on_ctabs t c;
       if ret \<noteq> 0 then do { c \<leftarrow> core_err3 ops c; Some (- ENOMEM, c) }
       else do {
         let (ret, sock) = init_userctl_system (userctl_ok env);
         let c = c\<lparr>userctl_sock := sock\<rparr>;
         if ret \<noteq> 0 then do { c \<leftarrow> core_err4 ops c; Some (- ENOMEM, c) }
         else do {
           let (ret, k) = init_engine (online_cpus env) (ckern c);
           let c = c\<lparr>ckern := k\<rparr>;
           if ret \<noteq> 0 then do { c \<leftarrow> core_err5 ops c; Some (- ENOMEM, c) }
           else Some (0, c)
         }
       }
     }
   }"

definition init_lana_core_module :: "'p fb_ops \<Rightarrow> core_env \<Rightarrow> ('p, 'r) core \<Rightarrow> (int \<times> ('p, 'r) core) option" where
  "init_lana_core_module ops env c = do {
     let (fails, t) = mem_fails (tabs (ckern c));
     let c = on_ctabs t c;
     if fails then Some (- ENOMEM, c)
     else do {
       let c = on_ctabs (t\<lparr>lana_proc_dir := []\<rparr>) (c\<lparr>proc_net := proc_create (lit ''lana'') (proc_net c)\<rparr>);
       let (fails, t) = mem_fails (tabs (ckern c));
       let c = on_ctabs t c;
       if fails then Some (- ENOMEM, core_err c)
       else do {
         let c = on_ctabs (t\<lparr>lana_proc_dir := proc_create (lit ''fblock'') (lana_proc_dir t), fblock_proc_dir := []\<rparr>) c;
         let (ret, v) = init_vlink_system (vlink_junk env) (vlink_table_ok env) (vlink_sock_ok env) (vlink_proc_ok env) (vlinks c);
         let c = c\<lparr>vlinks := v\<rparr>;
         if ret \<noteq> 0 then Some (- ENOMEM, core_err1 c)
         else init_core_tables ops env c
       }
     }
   }"

definition cleanup_lana_core_module :: "'p fb_ops \<Rightarrow> ('p, 'r) core \<Rightarrow> ('p, 'r) core option" where
  "cleanup_lana_core_module ops c = do {
     let c = c\<lparr>userctl_sock := cleanup_userctl_system (userctl_sock c)\<rparr>;
     t \<leftarrow> cleanup_fblock_tables ops (tabs (ckern c));
     t \<leftarrow> cleanup_fblock_builder ops t;
     let c = on_ctabs t c;
     let c = c\<lparr>vlinks := cleanup_vlink_system (vlinks c)\<rparr>;
     let c = c\<lparr>ckern := cleanup_engine (ckern c)\<rparr>;
     Some (core_err1 c)
   }"

section \<open>All or nothing\<close>

text \<open>Nothing of the core is up: no proc entries, no table and socket of the link layer, no control socket, no node
  cache, no engine, and no callbacks waiting for a grace period.\<close>

definition core_down :: "cstr list \<Rightarrow> ('p, 'r) core \<Rightarrow> bool" where
  "core_down entries c \<longleftrightarrow>
     proc_net c = entries \<and> vlink_subsystem_table (vlinks c) = None \<and> \<not> vlink_sock (vlinks c) \<and> \<not> vlink_proc (vlinks c) \<and>
     \<not> userctl_sock c \<and> critbit_cache (tabs (ckern c)) = 0 \<and> lana_proc_dir (tabs (ckern c)) = [] \<and>
     iostats (ckern c) = [] \<and> emdiscs (ckern c) = [] \<and> rcu (tabs (ckern c)) = []"

text \<open>All of the core is up and empty.\<close>

definition core_up :: "nat \<Rightarrow> ('p, 'r) core \<Rightarrow> bool" where
  "core_up online c \<longleftrightarrow>
     lit ''lana'' \<in> set (proc_net c) \<and> vlink_subsystem_table (vlinks c) = Some (replicate MAX_VLINK_SUBSYSTEMS None) \<and>
     vlink_sock (vlinks c) \<and> userctl_sock c \<and> idpmap (tabs (ckern c)) = None \<and> fbmap (tabs (ckern c)) = None \<and>
     idp_counter (tabs (ckern c)) = 0 \<and> length (emdiscs (ckern c)) = online \<and>
     (\<forall>d \<in> set (emdiscs (ckern c)). ppe_backlog_queue d = [] \<and> active d = 0)"

lemmas core_defs = on_ctabs_def core_err_def core_err1_def core_err2_def core_err3_def core_err4_def core_err5_def
  init_vlink_system_def cleanup_vlink_system_def init_fblock_tables_def cleanup_fblock_tables_def get_critbit_cache_def
  put_critbit_cache_def rcu_barrier_def init_fblock_builder_def cleanup_fblock_builder_def init_userctl_system_def
  cleanup_userctl_system_def init_engine_def cleanup_engine_def mem_fails_def proc_create_def remove_proc_entry_def

text \<open>The part of the start after the virtual link layer is up.\<close>

lemma init_core_tables_ok:
  assumes "kmem (tabs (ckern c)) = [False, False, False, f3, f4, f5]" "proc_net c = lit ''lana'' # entries"
    and "vlink_subsystem_table (vlinks c) = Some (replicate MAX_VLINK_SUBSYSTEMS None)" "vlink_sock (vlinks c)"
    and "critbit_cache (tabs (ckern c)) = 0" "lana_proc_dir (tabs (ckern c)) = [lit ''fblock'']" "\<not> userctl_sock c"
    and "iostats (ckern c) = []" "emdiscs (ckern c) = []" "rcu (tabs (ckern c)) = []"
  shows "\<exists>ret c'. init_core_tables ops env c = Some (ret, c') \<and> (ret = 0 \<longleftrightarrow> \<not> (f3 \<or> f4 \<or> f5) \<and> userctl_ok env) \<and>
     (if ret = 0
      then core_up (online_cpus env) c' \<and> (\<exists>c''. cleanup_lana_core_module ops c' = Some c'' \<and> core_down entries c'')
      else ret = - ENOMEM \<and> core_down entries c')"
  using assms
  by (cases "userctl_ok env"; cases f3; cases f4; cases f5)
    (simp_all add: init_core_tables_def core_defs core_down_def core_up_def cleanup_lana_core_module_def lit_def Let_def)


definition no_core :: "(unit, unit) core" where
  "no_core =
     \<lparr>ckern = \<lparr>tabs = lana_boot\<lparr>kmem := [False, False, False, False, False, False, True, False], critbit_cache := 0, lana_proc_dir := []\<rparr>,
        cpu = 0, iostats = [], emdiscs = [], freed = [], outbox = [], next_skb = 0\<rparr>,
      vlinks = \<lparr>vlink_subsystem_table = None, subsystems = Map.empty, callbacks = Map.empty, vlink_modrefs = (\<lambda>_. 0),
        vlink_sock = False, vlink_proc = False\<rparr>,
      userctl_sock = False, proc_net = [lit ''dev'']\<rparr>"


end
