(* ===== verification/App_Xmalloc.thy ===== *)
theory App_Xmalloc
  imports Lana_Prelude
begin

text \<open>The allocation helpers of the demo application: \<open>src/app/xmalloc.c\<close> and \<open>src/app/strlcpy.c\<close>.

  A block of memory is the list of its bytes. The allocators of the C library are parameters: a request for
  \<open>n\<close> bytes gives a block, or \<^const>\<open>None\<close> if there is no memory. \<open>size_t\<close> has 64 bits.
  The helpers do not return when they fail (\<open>panic\<close>): then they have no result.\<close>

type_synonym size_t = u64
type_synonym allocator = "size_t \<Rightarrow> u8 list option"

section \<open>The helpers\<close>

text \<open>\<open>src/app/strlcpy.c\<close>: the result is the return value and the destination.\<close>

definition app_strlcpy :: "u8 list \<Rightarrow> cstr \<Rightarrow> size_t \<Rightarrow> size_t \<times> u8 list" where
  "app_strlcpy dest src sz =
     (let ret = of_nat (length src) :: size_t in
      if sz \<noteq> 0 then
        let len = (if ret \<ge> sz then sz - 1 else ret)
        in (ret, take (unat len) src @ [0] @ drop (unat len + 1) dest)
      else (ret, dest))"

definition xmalloc :: "allocator \<Rightarrow> size_t \<Rightarrow> u8 list option" where
  "xmalloc malloc sz = (if sz = 0 then None else malloc sz)"

definition xvalloc :: "allocator \<Rightarrow> size_t \<Rightarrow> u8 list option" where
  "xvalloc valloc sz = (if sz = 0 then None else valloc sz)"

definition xzmalloc :: "allocator \<Rightarrow> size_t \<Rightarrow> u8 list option" where
  "xzmalloc malloc sz =
     (if sz = 0 then None
      else do { p \<leftarrow> malloc sz; Some (replicate (unat sz) 0 @ drop (unat sz) p) })"

definition xmalloc_aligned :: "(size_t \<Rightarrow> allocator) \<Rightarrow> size_t \<Rightarrow> size_t \<Rightarrow> u8 list option" where
  "xmalloc_aligned memalign sz alignment = (if sz = 0 then None else memalign alignment sz)"

definition xmallocz :: "allocator \<Rightarrow> size_t \<Rightarrow> u8 list option" where
  "xmallocz malloc sz =
     (if sz + 1 < sz then None
      else do { p \<leftarrow> xmalloc malloc (sz + 1); Some (p[unat sz := 0]) })"

definition xmemdupz :: "allocator \<Rightarrow> u8 list \<Rightarrow> size_t \<Rightarrow> u8 list option" where
  "xmemdupz malloc data len =
     do { p \<leftarrow> xmallocz malloc len; Some (take (unat len) data @ drop (unat len) p) }"

text \<open>\<open>SIZE_T_MAX\<close> is the greatest word. The product wraps around before it is tested.\<close>

definition xrealloc :: "allocator \<Rightarrow> (u8 list \<Rightarrow> allocator) \<Rightarrow> u8 list option \<Rightarrow> size_t \<Rightarrow> size_t \<Rightarrow> u8 list option" where
  "xrealloc malloc realloc ptr nmemb sz =
     (let new_size = nmemb * sz in
      if new_size = 0 then None
      else if (- 1) div nmemb < sz then None
      else case ptr of None \<Rightarrow> malloc new_size | Some p \<Rightarrow> realloc p new_size)"

definition xfree :: "u8 list option \<Rightarrow> unit option" where
  "xfree ptr = (case ptr of None \<Rightarrow> None | Some _ \<Rightarrow> Some ())"

definition xstrdup :: "allocator \<Rightarrow> cstr \<Rightarrow> u8 list option" where
  "xstrdup malloc str =
     (let len = of_nat (length str) + 1
      in do { cp \<leftarrow> xmalloc malloc len; Some (snd (app_strlcpy cp str len)) })"

definition xstrndup :: "allocator \<Rightarrow> cstr \<Rightarrow> size_t \<Rightarrow> u8 list option" where
  "xstrndup malloc str sz =
     (let len = of_nat (length str) + 1; len = (if sz < len then sz else len)
      in do { cp \<leftarrow> xmalloc malloc len; Some (snd (app_strlcpy cp str len)) })"

definition xdup :: "(int \<Rightarrow> int) \<Rightarrow> int \<Rightarrow> int option" where
  "xdup dup fd = (let ret = dup fd in if ret < 0 then None else Some ret)"

section \<open>Sizes\<close>

text \<open>What the C library promises of its allocators: a block has the size that was asked for, and \<open>realloc\<close>
  keeps the bytes of the old block that fit.\<close>

definition allocates :: "allocator \<Rightarrow> bool" where
  "allocates malloc \<longleftrightarrow> (\<forall>n p. malloc n = Some p \<longrightarrow> length p = unat n)"

definition reallocates :: "(u8 list \<Rightarrow> allocator) \<Rightarrow> bool" where
  "reallocates realloc \<longleftrightarrow>
     (\<forall>p n q. realloc p n = Some q \<longrightarrow>
        length q = unat n \<and> take (min (length p) (unat n)) q = take (min (length p) (unat n)) p)"

lemma word_mult_fits:
  fixes a b :: size_t
  assumes "a \<noteq> 0" "b \<le> (- 1) div a"
  shows "unat (a * b) = unat a * unat b"
proof -
  have "unat b \<le> (2 ^ 64 - 1) div unat a"
    using assms(2) by (simp add: word_le_nat_alt unat_div_distrib unsigned_minus_1_eq_mask mask_eq_exp_minus_1)
  then have "unat a * unat b \<le> unat a * ((2 ^ 64 - 1) div unat a)" by (rule mult_le_mono2)
  also have "\<dots> \<le> 2 ^ 64 - 1" by (rule times_div_less_eq_dividend)
  finally have "unat a * unat b < 2 ^ 64" by simp
  then show ?thesis by (simp add: unat_word_ariths)
qed

text \<open>C37: No short blocks. \<open>xrealloc\<close> gives a block of exactly \<open>nmemb * size\<close> bytes, computed
  without wrap-around, that starts with the bytes of the old block; if that number is 0 or does not fit in
  \<open>size_t\<close>, it does not return.\<close>
theorem xrealloc_exact:
  assumes "allocates malloc" "reallocates realloc"
  shows "(unat nmemb * unat sz = 0 \<or> 2 ^ 64 \<le> unat nmemb * unat sz \<longrightarrow> xrealloc malloc realloc ptr nmemb sz = None) \<and>
     (\<forall>q. xrealloc malloc realloc ptr nmemb sz = Some q \<longrightarrow> length q = unat nmemb * unat sz \<and>
        (\<forall>p. ptr = Some p \<longrightarrow> take (min (length p) (length q)) q = take (min (length p) (length q)) p))"
proof -
  have fits: "unat (nmemb * sz) = unat nmemb * unat sz" if "nmemb * sz \<noteq> 0" "\<not> (- 1) div nmemb < sz"
    using that by (intro word_mult_fits) auto
  have "xrealloc malloc realloc ptr nmemb sz = None" if "unat nmemb * unat sz = 0 \<or> 2 ^ 64 \<le> unat nmemb * unat sz"
  proof (rule ccontr)
    assume "xrealloc malloc realloc ptr nmemb sz \<noteq> None"
    then have "nmemb * sz \<noteq> 0" "\<not> (- 1) div nmemb < sz" by (auto simp: xrealloc_def Let_def split: if_splits)
    with fits that unsigned_less[of "nmemb * sz", where 'a = nat] show False by (auto simp: unat_eq_0)
  qed
  moreover have "length q = unat nmemb * unat sz \<and>
      (\<forall>p. ptr = Some p \<longrightarrow> take (min (length p) (length q)) q = take (min (length p) (length q)) p)"
    if "xrealloc malloc realloc ptr nmemb sz = Some q" for q
  proof -
    have ok: "nmemb * sz \<noteq> 0" "\<not> (- 1) div nmemb < sz"
      and q: "(case ptr of None \<Rightarrow> malloc (nmemb * sz) | Some p \<Rightarrow> realloc p (nmemb * sz)) = Some q"
      using that by (auto simp: xrealloc_def Let_def split: if_splits)
    show ?thesis
    proof (cases ptr)
      case None
      with q assms(1) fits[OF ok] show ?thesis by (auto simp: allocates_def)
    next
      case (Some p)
      with q have "realloc p (nmemb * sz) = Some q" by simp
      with assms(2) have "length q = unat (nmemb * sz)" "take (min (length p) (unat (nmemb * sz))) q = take (min (length p) (unat (nmemb * sz))) p"
        unfolding reallocates_def by blast+
      with fits[OF ok] Some show ?thesis by simp
    qed
  qed
  ultimately show ?thesis by blast
qed

definition old_block :: "u8 list" where
  "old_block = [1, 2, 3]"

theorem xrealloc_exact_witness:
  "xrealloc (\<lambda>n. Some (replicate (unat n) 7)) (\<lambda>p n. Some (take (unat n) (p @ replicate (unat n) 7))) (Some old_block) 0x8000000000000000 2 = None \<and>
   (\<exists>q. xrealloc (\<lambda>n. Some (replicate (unat n) 7)) (\<lambda>p n. Some (take (unat n) (p @ replicate (unat n) 7))) (Some old_block) 2 4 = Some q
      \<and> length q = 8 \<and> take 3 q = old_block)"
proof -
  let ?m = "\<lambda>n :: size_t. Some (replicate (unat n) (7 :: u8))"
  let ?r = "\<lambda>p (n :: size_t). Some (take (unat n) (p @ replicate (unat n) (7 :: u8)))"
  have keep: "length (take k (p @ replicate k (7 :: u8))) = k \<and>
      take (min (length p) k) (take k (p @ replicate k 7)) = take (min (length p) k) p" for p k
    by (cases "length p \<le> k") simp_all
  have a: "allocates ?m" "reallocates ?r"
    unfolding allocates_def reallocates_def option.inject using keep by (simp_all only: length_replicate simp_thms)
  have "xrealloc ?m ?r (Some old_block) 0x8000000000000000 2 = None"
    by (rule mp[OF conjunct1[OF xrealloc_exact[OF a, of "0x8000000000000000" 2 "Some old_block"]]]) simp
  moreover have "length q = 8 \<and> take 3 q = old_block" if "xrealloc ?m ?r (Some old_block) 2 4 = Some q" for q
  proof -
    have "length q = unat (2 :: size_t) * unat (4 :: size_t)"
      "take (min (length old_block) (length q)) q = take (min (length old_block) (length q)) old_block"
      using xrealloc_exact[OF a, of 2 4 "Some old_block"] that by blast+
    then show ?thesis by (simp add: old_block_def numeral_3_eq_3)
  qed
  moreover have "\<exists>q. xrealloc ?m ?r (Some old_block) 2 4 = Some q"
    by (simp add: xrealloc_def Let_def word_less_nat_alt unat_div_distrib)
  ultimately show ?thesis by blast
qed

text \<open>A copy of a string has the string in a block with one byte more.\<close>

lemma xstrdup_copies:
  assumes "allocates malloc" "is_cstr str" "length str < 2 ^ 64 - 1" "xstrdup malloc str = Some q"
  shows "q = str @ [0]"
proof -
  have len: "unat (of_nat (length str) + 1 :: size_t) = length str + 1"
    using assms(3) by (simp add: unat_word_ariths unat_of_nat)
  then have nz: "of_nat (length str) + 1 \<noteq> (0 :: size_t)" by auto
  have "\<not> of_nat (length str) \<ge> (of_nat (length str) + 1 :: size_t)"
    using len assms(3) by (simp add: word_le_nat_alt unat_of_nat)
  moreover obtain p where "malloc (of_nat (length str) + 1) = Some p" "q = snd (app_strlcpy p str (of_nat (length str) + 1))"
    using assms(4) nz by (auto simp: xstrdup_def xmalloc_def Let_def split: Option.bind_splits)
  moreover have "length p = length str + 1"
    using calculation(2) assms(1) len by (auto simp: allocates_def)
  ultimately show ?thesis using nz assms(3) by (simp add: app_strlcpy_def Let_def unat_of_nat)
qed

end
