(* ===== verification/Spec2Isabelle.thy ===== *)
theory Spec2Isabelle
  imports Fb_Modules Usr_Fbctl Usr_Vlink Lana_Core App_Xmalloc
begin

text \<open>A verification library for LANA, the lightweight autonomic network architecture.\<close>

section \<open>Packets through the engine\<close>

lemma process_packet_ends:
  assumes "acyclic_ports rank (cpu s) (tabs s)" "cpu s < length (emdiscs s)" "\<not> engine_this_cpu_is_active s"
  obtains ret s' where "process_packet lana_ops (lana_netrx run queues_take) skb dir s = Some (ret, s')"
    "acyclic_ports rank (cpu s) (tabs s')" "cpu s' = cpu s" "backlog s' = []" "\<not> engine_this_cpu_is_active s'"
    "gone s' = gone s + live_pkts (skb # backlog s) + mset [next_skb s..<next_skb s']"
proof -
  from ph.process_pkts_ends[OF assms(1,2), of run skb dir] obtain ret s' where s':
    "process_pkts lana_ops (lana_netrx run queues_take) skb dir s = Some (ret, s')" "acyclic_ports rank (cpu s) (tabs s')"
    "cpu s' = cpu s"
    "emdiscs s' = (emdiscs s)[cpu s := (emdiscs s ! cpu s)\<lparr>ppe_backlog_queue := [], active := 0\<rparr>]"
    "gone s' = gone s + live_pkts (skb # backlog s) + mset [next_skb s..<next_skb s']"
    by blast
  then have "backlog s' = []" "\<not> engine_this_cpu_is_active s'"
    using assms(2) by (simp_all add: engine_this_cpu_is_active_def)
  with s' assms(3) show ?thesis by (intro that[of ret s']) (simp_all add: process_packet_def)
qed


definition one_dummy :: "fb_priv kern" where
  "one_dummy =
     \<lparr>tabs = (boot_with ((ctor_fblock NullPriv)\<lparr>private_data := DummyPriv [\<lparr>dummy_port = (\<lambda>_. 0)\<rparr>],
                 netfb_rx := FB_DUMMY, event_rx := FB_DUMMY, refcnt := 1, fb_idp := 1\<rparr>))\<lparr>fblmap := [1 \<mapsto> slab_addr 0]\<rparr>,
      cpu = 0, iostats = [\<lparr>bytes = 0, pkts = 0, fblocks = 0, timer = 0, timer_cpu_miss = 0\<rparr>],
      emdiscs = [\<lparr>ppe_backlog_queue = [new_skb 8 [] 5], active = 0, disc_cpu = 0\<rparr>], freed = [], outbox = [], next_skb = 100\<rparr>"


text \<open>C13: Re-entry. On a CPU that is already processing a packet, \<open>process_packet\<close> returns 0 at
  once and appends the packet to the end of the backlog of that CPU, marked with its path; nothing
  else changes, and the packet is the last one the backlog gives back.\<close>
theorem process_packet_reentry:
  assumes "engine_this_cpu_is_active s" "cpu s < length (emdiscs s)"
  shows "\<exists>s'. process_packet ops nrx skb dir s = Some (0, s') \<and>
     backlog s' = backlog s @ [write_path_to_skb skb dir] \<and>
     tabs s' = tabs s \<and> freed s' = freed s \<and> outbox s' = outbox s \<and> iostats s' = iostats s \<and>
     (backlog s = [] \<longrightarrow> engine_backlog_test_reduce s' = Some (write_path_to_skb skb dir, dir, s))"
proof -
  let ?s = "engine_backlog_tail skb dir s"
  have "backlog s = [] \<Longrightarrow> upd_disc (cpu s) (\<lambda>d. d\<lparr>ppe_backlog_queue := []\<rparr>) ?s = s"
    using assms(2) by (simp add: engine_backlog_tail_def upd_disc_def Let_def)
      (metis (no_types, lifting) engine_disc.surjective engine_disc.update_convs(1) engine_disc.ext_inject
        kern.surjective kern.update_convs(4) list_update_id)
  then show ?thesis
    using assms
    by (auto simp: process_packet_def engine_backlog_tail_def Let_def engine_backlog_test_reduce_def
        engine_backlog_queue_test_reduce_def)
qed

theorem process_packet_reentry_witness:
  "\<exists>s'. process_packet lana_ops (lana_netrx (\<lambda>_ _. 0) queues_take) (new_skb 7 [1, 2] 1) TYPE_EGRESS (engine_this_cpu_set_active one_dummy) = Some (0, s') \<and>
     map skb_id (backlog s') = [8, 7]"
  using process_packet_reentry[of "engine_this_cpu_set_active one_dummy" lana_ops "lana_netrx (\<lambda>_ _. 0) queues_take" "new_skb 7 [1, 2] 1" TYPE_EGRESS]
  by (auto simp: one_dummy_def engine_this_cpu_set_active_def engine_this_cpu_is_active_def new_skb_def)

text \<open>C14: A packet without a destination is lost. A packet whose next idp is 0 (for instance one sent
  through a socket whose block is not bound) makes \<open>process_packet\<close> return
  \<open>PPE_ERROR\<close>, but it is neither freed nor sent nor kept anywhere.\<close>
theorem unaddressed_packet_leaks:
  assumes "read_next_idp_from_skb skb = 0" "\<not> engine_this_cpu_is_active s" "backlog s = []" "cpu s < length (emdiscs s)"
  shows "\<exists>s'. process_packet ops nrx skb dir s = Some (PPE_ERROR, s') \<and> freed s' = freed s \<and>
     outbox s' = outbox s \<and> backlog s' = [] \<and> tabs s' = tabs s"
  using assms
  by (simp add: process_packet_def process_pkts.simps[of ops nrx skb dir s] process_fblocks.simps[of ops nrx skb]
      engine_backlog_test_reduce_def engine_backlog_queue_test_reduce_def engine_update_defs)

theorem unaddressed_packet_leaks_witness:
  "\<exists>s'. process_packet lana_ops (lana_netrx (\<lambda>_ _. 0) queues_take) (new_skb 7 [1, 2] 0) TYPE_EGRESS
      (upd_disc 0 (\<lambda>d. d\<lparr>ppe_backlog_queue := []\<rparr>) one_dummy) = Some (PPE_ERROR, s') \<and> freed s' = []"
  using unaddressed_packet_leaks[of "new_skb 7 [1, 2] 0" "upd_disc 0 (\<lambda>d. d\<lparr>ppe_backlog_queue := []\<rparr>) one_dummy"
      lana_ops "lana_netrx (\<lambda>_ _. 0) queues_take" TYPE_EGRESS]
  by (auto simp: one_dummy_def engine_this_cpu_is_active_def new_skb_def read_next_idp_from_skb_def)

section \<open>Frames from a device\<close>

text \<open>Where a frame enters the stack: the ingress port of the block of its device, if the frame has a
  valid source address, the device a block, and the block a binding.\<close>

definition frame_port :: "sk_buff \<Rightarrow> eth_state \<Rightarrow> idp_t option" where
  "frame_port skb e =
     (case last_node_for (skb_dev skb) (fb_eth_devs e) of
        None \<Rightarrow> None
      | Some p \<Rightarrow>
          (case map_option private_data (fbs (tabs (ekern e)) p) of
             Some (EthPriv cs) \<Rightarrow>
               (let port = eth_port (cs ! cpu (ekern e)) TYPE_INGRESS
                in if is_valid_ether_addr (h_source skb) \<and> port \<noteq> IDP_UNKNOWN then Some port else None)
           | _ \<Rightarrow> None))"

lemma last_node_for_in: "last_node_for d nodes = Some p \<Longrightarrow> p \<in> fst ` set nodes"
proof -
  have "fold (\<lambda>(fb, dev) found. if d = Some dev then Some fb else found) nodes a = Some p \<Longrightarrow>
      p \<in> fst ` set nodes \<or> a = Some p" for a
    by (induction nodes arbitrary: a) (auto split: if_splits, fastforce+)
  then show "last_node_for d nodes = Some p \<Longrightarrow> p \<in> fst ` set nodes" unfolding last_node_for_def by blast
qed


definition one_eth :: eth_state where
  "one_eth =
     \<lparr>ekern = one_dummy\<lparr>tabs := upd_fb (slab_addr 1)
        (new_block FB_ETH (EthPriv [\<lparr>eth_port = (\<lambda>_. 1), eth_dev = 0\<rparr>]) (lit ''eth0'') 2) (tabs one_dummy)\<rparr>,
      netdevs = [], fb_eth_devs = [(slab_addr 1, 0)]\<rparr>"


section \<open>Bindings between blocks of the modules\<close>


definition two_dummies :: "fb_priv lana" where
  "two_dummies =
     (let fb = (ctor_fblock NullPriv)\<lparr>private_data := DummyPriv [\<lparr>dummy_port = (\<lambda>_. 0)\<rparr>],
                 netfb_rx := FB_DUMMY, event_rx := FB_DUMMY, factory := Some FB_DUMMY, others := Some [], refcnt := 1\<rparr>
      in (upd_fb (slab_addr 1) (fb\<lparr>fb_idp := 2\<rparr>) (boot_with (fb\<lparr>fb_idp := 1\<rparr>)))
           \<lparr>heap_top := 2, fblmap := [1 \<mapsto> slab_addr 0, 2 \<mapsto> slab_addr 1]\<rparr>)"

lemma two_dummies_simps:
  "kmem two_dummies = []" "heap_top two_dummies = 2" "nots two_dummies = Map.empty"
  "fbs two_dummies (slab_addr 0) = Some ((ctor_fblock NullPriv)\<lparr>private_data := DummyPriv [\<lparr>dummy_port = (\<lambda>_. 0)\<rparr>],
     netfb_rx := FB_DUMMY, event_rx := FB_DUMMY, factory := Some FB_DUMMY, others := Some [], refcnt := 1, fb_idp := 1\<rparr>)"
  "fbs two_dummies (slab_addr 1) = Some ((ctor_fblock NullPriv)\<lparr>private_data := DummyPriv [\<lparr>dummy_port = (\<lambda>_. 0)\<rparr>],
     netfb_rx := FB_DUMMY, event_rx := FB_DUMMY, factory := Some FB_DUMMY, others := Some [], refcnt := 1, fb_idp := 2\<rparr>)"
  by (simp_all add: two_dummies_def boot_with_def lana_boot_def Let_def)



lemma two_dummies_bind:
  "\<exists>s'. fblock_bind lana_ops (slab_addr 0) (slab_addr 1) two_dummies = Some (0, s')"
  using fblock_bind_ok[OF two_dummies_simps(1) _ two_dummies_simps(4,5), of "[]" "[]" lana_ops]
  by (simp add: lana_ops_def lana_event_def fb_dummy_bind_cpu_def notify_result_def IDP_UNKNOWN_def)


lemma lana_event_down: "lana_ready h v \<Longrightarrow> lana_event h (FBLOCK_DOWN i) v = Some (NOTIFY_OK, v)"
  by (elim lana_readyE) (simp_all add: lana_event_def)

lemma lana_dtor_keeps: "fbs (lana_dtor m fb s) = fbs s" "nots (lana_dtor m fb s) = nots s" "rcu (lana_dtor m fb s) = rcu s"
  by (simp_all add: lana_dtor_def fb_dummy_dtor_def fb_tee_dtor_def fb_counter_dtor_def fb_bpf_dtor_def module_put_def split: fb_module.split)

text \<open>Dropping the last reference to a block with one subscriber, and the end of the grace period:
  the subscriber is told, then the block is gone.\<close>

lemma free_with_subscriber:
  assumes "fbs s p = Some fb" "refcnt fb = 1" "factory fb = Some f" "others fb = Some [n]" "rcu s = []"
    and "nots s n = Some x" "fbs s (nself x) = Some rb" "nself x \<noteq> p" "lana_ready (notifier_call x) (private_data rb)"
  shows "\<exists>s1 s2. put_fblock lana_ops p s = Some s1 \<and> rcu_barrier lana_ops s1 = Some s2 \<and>
     fbs s2 = (fbs s)(p := None) \<and> nots s2 = nots s \<and> rcu s2 = []"
proof -
  let ?fb = "fb\<lparr>refcnt := 0, private_data := lana_dtor_outside_rcu f (private_data fb)\<rparr>"
  let ?s1 = "(upd_fb p ?fb s)\<lparr>rcu := [FreeFblock p]\<rparr>"
  have s1: "put_fblock lana_ops p s = Some ?s1"
    using assms(1-5) by (simp add: put_fblock_last lana_ops_def)
  have ev: "event_call lana_ops (notifier_call x) (nself x) (FBLOCK_DOWN (fb_idp fb)) (?s1\<lparr>rcu := []\<rparr>) =
      Some (NOTIFY_OK, ?s1\<lparr>rcu := []\<rparr>)"
    using assms(7-9) lana_event_down[OF assms(9)]
    by (simp add: event_call_def lana_ops_def upd_fb_def fun_upd_twist fun_upd_idem)
  have "rcu_barrier lana_ops ?s1 \<noteq> None \<and> fbs (the (rcu_barrier lana_ops ?s1)) = (fbs s)(p := None) \<and>
      nots (the (rcu_barrier lana_ops ?s1)) = nots s \<and> rcu (the (rcu_barrier lana_ops ?s1)) = []"
    using assms(1,3,4,6) ev
    by (simp add: rcu_barrier_def free_fblock_rcu_def cleanup_fblock_def notify_fblock_subscribers_def
        kfree_fblock_def module_put_def lana_dtor_keeps) (simp add: lana_ops_def lana_dtor_keeps)
  with s1 show ?thesis by auto
qed

text \<open>C15: Removing two blocks that were bound once is a use after free. Take two blocks without other
  subscribers, bind them and unbind them again. If then the last reference to the first is dropped and
  it is freed after a grace period, and the last reference to the second is dropped, the grace period
  of the second has no result: its subscriber chain still holds the entry of the first block, whose
  handler is called for a block that no longer exists.\<close>
theorem unbound_pair_use_after_free:
  assumes "kmem s = []" "p1 \<noteq> p2" "fbs s p1 = Some fb1" "fbs s p2 = Some fb2" "rcu s = []"
    and "refcnt fb1 = 1" "refcnt fb2 = 1" "others fb1 = Some []" "others fb2 = Some []"
    and "factory fb1 = Some f1" "factory fb2 = Some f2"
    and "lana_ready (event_rx fb1) (private_data fb1)" "lana_ready (event_rx fb2) (private_data fb2)"
    and "lana_avoids (event_rx fb1) (private_data fb1) (fb_idp fb2)"
    and "lana_avoids (event_rx fb2) (private_data fb2) (fb_idp fb1)"
    and "fblock_bind lana_ops p1 p2 s = Some (0, s1)"
  shows "\<exists>s2 s3 s4 s5. fblock_unbind lana_ops p1 p2 s1 = Some (0, s2) \<and>
     put_fblock lana_ops p1 s2 = Some s3 \<and> rcu_barrier lana_ops s3 = Some s4 \<and>
     put_fblock lana_ops p2 s4 = Some s5 \<and> rcu_barrier lana_ops s5 = None"
proof -
  let ?n1 = "slab_addr (heap_top s)" and ?n2 = "slab_addr (Suc (heap_top s))"
  let ?s2 = "unbound_state p1 p2 s"
  have unbind: "fblock_unbind lana_ops p1 p2 s1 = Some (0, ?s2)"
    by (rule ev.bind_unbind[OF assms(1-4) _ _ _ _ assms(12-16)]) (use assms(6-9) in simp_all)
  have s2: "fbs ?s2 p1 = Some (fb1\<lparr>others := Some [?n2]\<rparr>)" "fbs ?s2 p2 = Some (fb2\<lparr>others := Some [?n1]\<rparr>)"
    "nots ?s2 ?n1 = Some \<lparr>nself = p1, notifier_call = event_rx fb1, remote = fb_idp fb2\<rparr>"
    "nots ?s2 ?n2 = Some \<lparr>nself = p2, notifier_call = event_rx fb2, remote = fb_idp fb1\<rparr>" "rcu ?s2 = []"
    using assms(2-5,8,9) by (simp_all add: unbound_state_def Let_def)
  obtain s3 s4 where s4: "put_fblock lana_ops p1 ?s2 = Some s3" "rcu_barrier lana_ops s3 = Some s4"
    "fbs s4 = (fbs ?s2)(p1 := None)" "nots s4 = nots ?s2" "rcu s4 = []"
    using free_with_subscriber[OF s2(1) _ _ _ s2(5,4), of f1 "fb2\<lparr>others := Some [?n1]\<rparr>"] s2(2) assms(2,6,10,13)
    by auto
  have "fbs s4 p2 = Some (fb2\<lparr>others := Some [?n1]\<rparr>)" using s2(2) s4(3) assms(2) by simp
  then obtain s5 where s5: "put_fblock lana_ops p2 s4 = Some s5" "rcu s5 = [FreeFblock p2]" "nots s5 = nots s4"
    "fbs s5 p1 = None" "\<exists>fb. fbs s5 p2 = Some fb \<and> others fb = Some [?n1]"
    using assms(2,7,11) s4 by (simp add: put_fblock_last)
  then have "rcu_barrier lana_ops s5 = None"
    using s2(3) s4(4)
    by (auto simp: rcu_barrier_def free_fblock_rcu_def cleanup_fblock_def notify_fblock_subscribers_def event_call_def)
  with unbind s4 s5(1) show ?thesis by blast
qed

theorem unbound_pair_use_after_free_witness:
  "\<exists>s1 s2 s3 s4 s5. fblock_bind lana_ops (slab_addr 0) (slab_addr 1) two_dummies = Some (0, s1) \<and>
     fblock_unbind lana_ops (slab_addr 0) (slab_addr 1) s1 = Some (0, s2) \<and>
     put_fblock lana_ops (slab_addr 0) s2 = Some s3 \<and> rcu_barrier lana_ops s3 = Some s4 \<and>
     put_fblock lana_ops (slab_addr 1) s4 = Some s5 \<and> rcu_barrier lana_ops s5 = None"
proof -
  obtain s1 where s1: "fblock_bind lana_ops (slab_addr 0) (slab_addr 1) two_dummies = Some (0, s1)"
    using two_dummies_bind by blast
  have "rcu two_dummies = []" by (simp add: two_dummies_def boot_with_def lana_boot_def Let_def)
  from unbound_pair_use_after_free[OF two_dummies_simps(1) _ two_dummies_simps(4,5) this _ _ _ _ _ _ _ _ _ _ s1]
  show ?thesis using s1 by (auto simp: uniform_def)
qed

section \<open>Between sockets\<close>

text \<open>A packet addressed to the block of a socket ends in the receive queue of that socket.\<close>

lemma packet_reaches_socket:
  assumes "read_next_idp_from_skb skb = i" "i \<noteq> 0" "fblmap (tabs s) i = Some q" "fbs (tabs s) q = Some fb" "0 < refcnt fb"
    and "netfb_rx fb = FB_PFLANA" "private_data fb = PflanaPriv cs" "sock_self (cs ! cpu s) = Some sk"
    and "cpu s < length (emdiscs s)" "\<not> engine_this_cpu_is_active s" "backlog s = []"
  obtains s' where "process_packet lana_ops (lana_netrx run queues_take) skb dir s = Some (PPE_DROPPED, s')"
    "outbox s' = outbox s @ [(SockQueue sk, write_next_idp_to_skb skb (fb_idp fb) IDP_UNKNOWN)]"
    "tabs s' = tabs s" "freed s' = freed s"
proof -
  let ?s = "engine_add_bytes_stats (length (skb_data skb)) (engine_inc_pkts_stats (engine_this_cpu_set_active s))"
  have "run_fblock lana_ops (lana_netrx run queues_take) q skb dir
      (?s\<lparr>tabs := upd_fb q (fb\<lparr>refcnt := refcnt fb + 1\<rparr>) (tabs s)\<rparr>) =
      Some (PPE_DROPPED, write_next_idp_to_skb skb (fb_idp fb) IDP_UNKNOWN, dir,
        engine_inc_fblock_stats ((sock_queue_rcv_skb queues_take sk (write_next_idp_to_skb skb (fb_idp fb) IDP_UNKNOWN) ?s)\<lparr>tabs := tabs s\<rparr>))"
    using assms by (simp add: Let_def run_fblock_def lana_netrx_def fb_pflana_netrx_def put_fblock_def sock_queue_rcv_skb_def
        engine_update_defs upd_fb_same)
  then have "process_fblocks lana_ops (lana_netrx run queues_take) skb dir PPE_ERROR ?s =
      Some (PPE_DROPPED, engine_inc_fblock_stats ((sock_queue_rcv_skb queues_take sk
        (write_next_idp_to_skb skb (fb_idp fb) IDP_UNKNOWN) ?s)\<lparr>tabs := tabs s\<rparr>))"
    using assms(1-4) by (simp add: process_fblocks.simps[of lana_ops _ skb] search_fblock_rcu_def engine_update_defs)
  then have "process_packet lana_ops (lana_netrx run queues_take) skb dir s =
      Some (PPE_DROPPED, engine_this_cpu_set_inactive (engine_inc_fblock_stats ((sock_queue_rcv_skb queues_take sk
        (write_next_idp_to_skb skb (fb_idp fb) IDP_UNKNOWN) ?s)\<lparr>tabs := tabs s\<rparr>)))"
    using assms(9-11) by (simp add: process_packet_def process_pkts.simps[of lana_ops _ skb] sock_queue_rcv_skb_def
        engine_backlog_test_reduce_def engine_backlog_queue_test_reduce_def engine_update_defs)
  then show ?thesis by (rule that) (simp_all add: sock_queue_rcv_skb_def engine_update_defs)
qed

lemma filter_dequeue:
  "filter (\<lambda>(ep, _). ep = SockQueue sk) (dequeue sk q) = tl (filter (\<lambda>(ep, _). ep = SockQueue sk) q)"
  by (induction sk q rule: dequeue.induct) auto

lemma sk_receive_queue_dequeue:
  "outbox s' = dequeue sk (outbox s) \<Longrightarrow> sk_receive_queue sk s' = tl (sk_receive_queue sk s)"
  by (simp add: sk_receive_queue_def filter_dequeue map_tl)


text \<open>Two sockets at addresses 1 and 2 with blocks 10 and 11; what socket 1 sends goes to block 11.\<close>

definition two_socks :: pf_state where
  "two_socks =
     \<lparr>pkern = one_dummy\<lparr>emdiscs := [\<lparr>ppe_backlog_queue = [], active = 0, disc_cpu = 0\<rparr>],
        tabs := (upd_fb 10 (new_block FB_PFLANA (PflanaPriv [\<lparr>pflana_port = (\<lambda>_. 5), sock_self = Some 1\<rparr>]) (lit ''1'') 4)
          (upd_fb 11 (new_block FB_PFLANA (PflanaPriv [\<lparr>pflana_port = (\<lambda>_. 0), sock_self = Some 2\<rparr>]) (lit ''2'') 5)
            (tabs one_dummy)))\<lparr>fblmap := [4 \<mapsto> 10, 5 \<mapsto> 11]\<rparr>\<rparr>,
      socks = [1 \<mapsto> new_sock\<lparr>ls_fb := 10, sk_refcnt := 1, ls_bound := True, ls_ifindex := 1\<rparr>,
        2 \<mapsto> new_sock\<lparr>ls_fb := 11, sk_refcnt := 1\<rparr>],
      pf_devs = [\<lparr>nd_name = lit ''eth0'', nd_flags = IFF_UP, priv_flags = 0, rx_handler = None, nd_refs = 1,
        nd_mtu = 1500, nd_type = 1\<rparr>],
      proto_tab = [], protos = Map.empty, pf_family = True\<rparr>"


end
